(* ===== verification/Prelude.thy ===== *)
theory Prelude
  imports Main "HOL-Library.AList" "HOL-Library.Multiset" "HOL-Library.Char_ord" "HOL-Library.List_Lexorder"
begin

text \<open>
  The vocabulary every component shares: Go results and panics, Go errors, the fact collections
  of the development, and the generic lemmas on lists and association lists the components use.
\<close>

section \<open>Results of Go code\<close>

text \<open>
  A Go \<open>error\<close> value is represented by its message. A function returning \<open>(T, error)\<close> of
  which the caller looks at the value only when the error is nil returns a sum; where the value is
  used together with the error the model returns a pair with an optional error.
  A call that can panic returns a \<open>run\<close>.
\<close>

type_synonym go_error = string

datatype 'a run = Value 'a | Panic string

fun run_bind :: "'a run \<Rightarrow> ('a \<Rightarrow> 'b run) \<Rightarrow> 'b run" where
  "run_bind (Value x) f = f x"
| "run_bind (Panic m) f = Panic m"

fun panics :: "'a run \<Rightarrow> bool" where
  "panics (Value x) = False"
| "panics (Panic m) = True"

lemma run_bind_Value_iff: "run_bind m f = Value y \<longleftrightarrow> (\<exists>x. m = Value x \<and> f x = Value y)"
  by (cases m) auto

lemma panics_iff: "panics r \<longleftrightarrow> (\<exists>m. r = Panic m)"
  by (cases r) auto

lemma not_panics_iff: "\<not> panics r \<longleftrightarrow> (\<exists>x. r = Value x)"
  by (cases r) auto

section \<open>Fact collections\<close>

text \<open>
  \<open>go_defs\<close>: definitions of the library routines, unfolded when a closed call is evaluated;
  \<open>fs_simps\<close>: lookups in the file tree after an update; \<open>chars\<close>: facts about the bytes a
  string may hold.
\<close>

named_theorems go_defs
named_theorems fs_simps
named_theorems chars

section \<open>Lists\<close>

lemma count_list_append [simp]: "count_list (xs @ ys) c = count_list xs c + count_list ys c"
  by (induction xs) auto

lemma count_list_concat: "count_list (concat xss) c = sum_list (map (\<lambda>xs. count_list xs c) xss)"
  by (induction xss) auto

lemma count_list_zero_iff: "count_list xs c = 0 \<longleftrightarrow> c \<notin> set xs"
  by (induction xs) auto

lemma take_length_prefix: "take (length p) (p @ s) = p"
  by simp

text \<open>A left fold whose steps commute pairwise does not see the order of a list.\<close>

lemma fold_permute:
  assumes "\<And>x y. x \<in> set xs \<Longrightarrow> y \<in> set xs \<Longrightarrow> x \<noteq> y \<Longrightarrow> f x \<circ> f y = f y \<circ> f x"
    and "distinct xs" and "distinct ys" and "set xs = set ys"
  shows "fold f xs s = fold f ys s"
proof -
  have comm: "f x \<circ> f y = f y \<circ> f x" if "x \<in> set xs" "y \<in> set xs" for x y
    using assms(1)[OF that] by (cases "x = y") auto
  have "mset xs = mset ys"
    using assms(2-4) by (simp add: set_eq_iff_mset_eq_distinct)
  with comm have "fold f xs = fold f ys"
    by (intro fold_multiset_equiv) auto
  then show ?thesis by simp
qed

section \<open>Association lists\<close>

lemma map_of_update [simp]: "map_of (AList.update k v al) = (map_of al)(k \<mapsto> v)"
  by (simp add: update_conv')

lemma map_of_filter_key:
  "map_of (filter (\<lambda>(k, v). P k) al) k = (if P k then map_of al k else None)"
  by (induction al) auto

lemma fst_set_update: "fst ` set (AList.update k v al) = insert k (fst ` set al)"
  by (induction al) auto

end
