(* ===== verification/Go_Strings.thy ===== *)
theory Go_Strings
  imports Prelude
begin

text \<open>
  The routines of Go's \<open>strings\<close> and \<open>strconv\<close> packages the program calls. A Go string is its
  sequence of bytes, a \<open>char list\<close>; bytes from 128 on belong to multi-byte UTF-8 runes.
\<close>

section \<open>Searching and splitting\<close>

abbreviation newline :: char where
  "newline \<equiv> CHR 0x0A"

definition has_prefix :: "string \<Rightarrow> string \<Rightarrow> bool" where
  "has_prefix s p = (take (length p) s = p)"

definition has_suffix :: "string \<Rightarrow> string \<Rightarrow> bool" where
  "has_suffix s p = has_prefix (rev s) (rev p)"

definition trim_prefix :: "string \<Rightarrow> string \<Rightarrow> string" where
  "trim_prefix s p = (if has_prefix s p then drop (length p) s else s)"

definition trim_suffix :: "string \<Rightarrow> string \<Rightarrow> string" where
  "trim_suffix s p = (if has_suffix s p then take (length s - length p) s else s)"

text \<open>\<open>strings.Index\<close>: the first position at which the substring starts.\<close>

fun str_index :: "string \<Rightarrow> string \<Rightarrow> nat option" where
  "str_index [] sub = (if sub = [] then Some 0 else None)"
| "str_index (c # cs) sub =
     (if has_prefix (c # cs) sub then Some 0 else map_option Suc (str_index cs sub))"

definition str_contains :: "string \<Rightarrow> string \<Rightarrow> bool" where
  "str_contains s sub = (str_index s sub \<noteq> None)"

text \<open>\<open>strings.Split\<close> with a separator of one byte, the only kind the program uses.\<close>

fun split_on :: "char \<Rightarrow> string \<Rightarrow> string list" where
  "split_on c [] = [[]]"
| "split_on c (x # xs) =
     (if x = c then [] # split_on c xs
      else (case split_on c xs of [] \<Rightarrow> [[x]] | p # ps \<Rightarrow> (x # p) # ps))"

fun join_with :: "string \<Rightarrow> string list \<Rightarrow> string" where
  "join_with sep [] = []"
| "join_with sep [p] = p"
| "join_with sep (p # q # ps) = p @ sep @ join_with sep (q # ps)"

text \<open>\<open>strings.Cut\<close> with a separator of one byte: the text before it, the text after it.\<close>

definition str_cut :: "char \<Rightarrow> string \<Rightarrow> string \<times> string" where
  "str_cut c s = (takeWhile (\<lambda>x. x \<noteq> c) s, drop 1 (dropWhile (\<lambda>x. x \<noteq> c) s))"

text \<open>\<open>strings.LastIndex\<close> with a separator of one byte.\<close>

definition last_index :: "char \<Rightarrow> string \<Rightarrow> nat option" where
  "last_index c s = (if c \<in> set s
     then Some (length s - 1 - length (takeWhile (\<lambda>x. x \<noteq> c) (rev s))) else None)"

text \<open>\<open>strings.ReplaceAll\<close> of one byte by another.\<close>

definition replace_char :: "char \<Rightarrow> char \<Rightarrow> string \<Rightarrow> string" where
  "replace_char a b s = map (\<lambda>c. if c = a then b else c) s"

text \<open>\<open>bytes.ReplaceAll\<close> for a non-empty pattern: leftmost, without overlaps.\<close>

function replace_all :: "string \<Rightarrow> string \<Rightarrow> string \<Rightarrow> string" where
  "replace_all pat rep [] = []"
| "replace_all pat rep (c # cs) =
     (if pat \<noteq> [] \<and> has_prefix (c # cs) pat
      then rep @ replace_all pat rep (drop (length pat) (c # cs))
      else c # replace_all pat rep cs)"
  by pat_completeness auto
termination
  by (relation "measure (\<lambda>(p, r, s). length s)") auto

lemmas search_defs [go_defs] = has_prefix_def has_suffix_def trim_prefix_def trim_suffix_def
  str_contains_def str_cut_def last_index_def replace_char_def

lemma has_prefix_append [simp]: "has_prefix (p @ s) p"
  by (simp add: has_prefix_def)

lemma has_prefix_iff: "has_prefix s p \<longleftrightarrow> (\<exists>t. s = p @ t)"
  unfolding has_prefix_def by (metis append_take_drop_id take_length_prefix)

lemma has_suffix_iff: "has_suffix s p \<longleftrightarrow> (\<exists>t. s = t @ p)"
  unfolding has_suffix_def has_prefix_iff by (metis rev_append rev_rev_ident)

lemma split_on_neq_Nil [simp]: "split_on c s \<noteq> []"
  by (induction s) (auto split: list.splits)

lemma split_on_free: "c \<notin> set s \<Longrightarrow> split_on c s = [s]"
  by (induction s) auto

lemma split_on_append: "c \<notin> set a \<Longrightarrow> split_on c (a @ c # s) = a # split_on c s"
  by (induction a) auto

lemma length_split_on: "length (split_on c s) = Suc (count_list s c)"
  by (induction s) (auto split: list.splits)

lemma split_on_parts_free: "p \<in> set (split_on c s) \<Longrightarrow> c \<notin> set p"
  by (induction s arbitrary: p) (auto split: list.splits if_splits)

lemma split_on_parts_subset: "p \<in> set (split_on c s) \<Longrightarrow> set p \<subseteq> set s"
proof (induction s arbitrary: p)
  case Nil
  then show ?case by simp
next
  case (Cons x s)
  show ?case
  proof (cases "split_on c s")
    case Nil
    then show ?thesis by simp
  next
    case (Cons q qs)
    then have "set q \<subseteq> set s" "\<And>r. r \<in> set qs \<Longrightarrow> set r \<subseteq> set s"
      using Cons.IH by auto
    with Cons Cons.prems show ?thesis by (auto split: if_splits)
  qed
qed

lemma join_with_Cons: "ps \<noteq> [] \<Longrightarrow> join_with sep (p # ps) = p @ sep @ join_with sep ps"
  by (cases ps) auto

lemma split_on_join:
  "ps \<noteq> [] \<Longrightarrow> (\<And>p. p \<in> set ps \<Longrightarrow> c \<notin> set p) \<Longrightarrow> split_on c (join_with [c] ps) = ps"
proof (induction ps)
  case (Cons p ps)
  then show ?case
    by (cases ps) (auto simp: split_on_free split_on_append)
qed simp

lemma join_split_on: "join_with [c] (split_on c s) = s"
proof (induction s)
  case (Cons x s)
  show ?case
  proof (cases "split_on c s")
    case Nil
    then show ?thesis by simp
  next
    case (Cons q qs)
    with Cons.IH show ?thesis by (cases qs) auto
  qed
qed simp

lemma set_join_with: "set (join_with sep ps) \<subseteq> set sep \<union> \<Union> (set ` set ps)"
  by (induction sep ps rule: join_with.induct) auto

lemma hd_split_on: "hd (split_on c s) = takeWhile (\<lambda>x. x \<noteq> c) s"
  by (induction s) (auto split: list.splits simp: hd_append)

lemma str_index_single:
  "str_index s [c] = (if c \<in> set s then Some (length (takeWhile (\<lambda>x. x \<noteq> c) s)) else None)"
  by (induction s) (auto simp: has_prefix_def)

lemma str_index_single_Some:
  assumes "str_index s [c] = Some i"
  shows "i < length s \<and> s ! i = c \<and> c \<notin> set (take i s)"
proof -
  let ?p = "\<lambda>x. x \<noteq> c"
  from assms have mem: "c \<in> set s" and i: "i = length (takeWhile ?p s)"
    by (auto simp: str_index_single split: if_splits)
  have lt: "length (takeWhile ?p s) < length s"
    using mem by (induction s) auto
  then have "\<not> ?p (s ! length (takeWhile ?p s))"
    by (rule nth_length_takeWhile)
  moreover have "take i s = takeWhile ?p s"
    by (simp add: i takeWhile_eq_take [symmetric])
  ultimately show ?thesis
    using lt i by (auto dest: set_takeWhileD)
qed

lemma str_contains_iff: "str_contains s sub \<longleftrightarrow> (\<exists>a b. s = a @ sub @ b)"
proof (induction s)
  case Nil
  then show ?case by (auto simp: str_contains_def)
next
  case (Cons c s)
  have "str_contains (c # s) sub \<longleftrightarrow> has_prefix (c # s) sub \<or> str_contains s sub"
    by (simp add: str_contains_def)
  also have "\<dots> \<longleftrightarrow> (\<exists>a b. c # s = a @ sub @ b)"
    unfolding Cons.IH has_prefix_iff by (metis append_Cons append_Nil list.sel(3) tl_append2)
  finally show ?case .
qed

lemma set_replace_char: "a \<noteq> b \<Longrightarrow> a \<notin> set (replace_char a b s)"
  by (auto simp: replace_char_def)

lemma set_replace_char_subset: "set (replace_char a b s) \<subseteq> insert b (set s - {a})"
  by (auto simp: replace_char_def)

section \<open>Trimming white space\<close>

text \<open>
  \<open>strings.TrimSpace\<close> removes leading and trailing runes of \<open>unicode.IsSpace\<close>: six ASCII bytes
  and the runes U+0085, U+00A0, U+1680, U+2000 to U+200A, U+2028, U+2029, U+202F, U+205F and
  U+3000, here with their UTF-8 encodings.
\<close>

definition space_runes :: "string list" where
  "space_runes = map (map (char_of :: nat \<Rightarrow> char))
     ([[9], [10], [11], [12], [13], [32], [0xC2, 0x85], [0xC2, 0xA0], [0xE1, 0x9A, 0x80]]
      @ map (\<lambda>b. [0xE2, 0x80, b]) ([0x80, 0x81, 0x82, 0x83, 0x84, 0x85, 0x86, 0x87, 0x88, 0x89,
          0x8A, 0xA8, 0xA9, 0xAF])
      @ [[0xE2, 0x81, 0x9F], [0xE3, 0x80, 0x80]])"

fun trim_left_by :: "string list \<Rightarrow> nat \<Rightarrow> string \<Rightarrow> string" where
  "trim_left_by rs 0 s = s"
| "trim_left_by rs (Suc n) s =
     (case find (has_prefix s) rs of None \<Rightarrow> s | Some r \<Rightarrow> trim_left_by rs n (drop (length r) s))"

text \<open>Every step removes at least one byte, so the length of the string is enough fuel.\<close>

definition trim_left :: "string \<Rightarrow> string" where
  "trim_left s = trim_left_by space_runes (length s) s"

definition trim_right :: "string \<Rightarrow> string" where
  "trim_right s = rev (trim_left_by (map rev space_runes) (length s) (rev s))"

definition trim_space :: "string \<Rightarrow> string" where
  "trim_space s = trim_right (trim_left s)"

lemmas trim_defs [go_defs] = space_runes_def trim_left_def trim_right_def trim_space_def

text \<open>The fuel is enough: the result of trimming starts with none of the runes.\<close>

lemma trim_left_by_done:
  assumes "\<And>r. r \<in> set rs \<Longrightarrow> r \<noteq> []" and "length s \<le> n"
  shows "find (has_prefix (trim_left_by rs n s)) rs = None"
  using assms(2)
proof (induction n arbitrary: s)
  case 0
  then have "\<not> (\<exists>r. r \<in> set rs \<and> has_prefix s r)"
    using assms(1) by (auto simp: has_prefix_def)
  then show ?case by (auto simp: find_None_iff)
next
  case (Suc n)
  show ?case
  proof (cases "find (has_prefix s) rs")
    case None
    then show ?thesis by simp
  next
    case (Some r)
    then have "r \<in> set rs" "has_prefix s r" by (auto simp: find_Some_iff)
    then have "length (drop (length r) s) \<le> n"
      using assms(1)[of r] Suc.prems by (cases "length r") auto
    with Some Suc.IH show ?thesis by simp
  qed
qed

lemma space_runes_nonempty: "r \<in> set space_runes \<Longrightarrow> r \<noteq> []"
  by (auto simp: space_runes_def)

section \<open>Decimal numbers\<close>

definition digit_char :: "nat \<Rightarrow> char" where
  "digit_char n = char_of (48 + n mod 10)"

fun itoa_nat :: "nat \<Rightarrow> string" where
  "itoa_nat n = (if n < 10 then [digit_char n] else itoa_nat (n div 10) @ [digit_char n])"

declare itoa_nat.simps [simp del]

text \<open>\<open>strconv.Itoa\<close> and the verb \<open>%v\<close> on an \<open>int\<close>.\<close>

definition itoa :: "int \<Rightarrow> string" where
  "itoa i = (if i < 0 then CHR ''-'' # itoa_nat (nat (- i)) else itoa_nat (nat i))"

definition is_digit :: "char \<Rightarrow> bool" where
  "is_digit c = (48 \<le> (of_char c :: nat) \<and> (of_char c :: nat) \<le> 57)"

definition digit_val :: "char \<Rightarrow> nat" where
  "digit_val c = of_char c - 48"

definition decimal :: "string \<Rightarrow> nat" where
  "decimal s = fold (\<lambda>c n. 10 * n + digit_val c) s 0"

definition max_int :: int where
  "max_int = 9223372036854775807"

definition min_int :: int where
  "min_int = - 9223372036854775808"

text \<open>
  \<open>strconv.Atoi\<close> on a 64-bit platform: the value and whether an error is returned. A syntax error
  gives 0, a value out of range the nearest \<open>int\<close>.
\<close>

definition atoi :: "string \<Rightarrow> int \<times> bool" where
  "atoi s =
     (let (neg, body) = (case s of [] \<Rightarrow> (False, [])
        | c # cs \<Rightarrow> if c = CHR ''-'' then (True, cs) else if c = CHR ''+'' then (False, cs)
                  else (False, s))
      in if body = [] \<or> \<not> list_all is_digit body then (0, True)
         else let v = (if neg then - int (decimal body) else int (decimal body))
              in if v < min_int then (min_int, True)
                 else if max_int < v then (max_int, True) else (v, False))"

lemma of_char_digit_char [simp]: "of_char (digit_char n) = (48 + n mod 10 :: nat)"
  by (simp add: digit_char_def)

lemma is_digit_digit_char [simp]: "is_digit (digit_char n)"
  by (simp add: is_digit_def)

lemma digit_val_digit_char [simp]: "digit_val (digit_char n) = n mod 10"
  by (simp add: digit_val_def)

lemma itoa_nat_digits: "c \<in> set (itoa_nat n) \<Longrightarrow> is_digit c"
proof (induction n rule: itoa_nat.induct)
  case (1 n)
  then show ?case
    by (subst (asm) itoa_nat.simps) (auto split: if_splits)
qed

lemma itoa_nat_neq_Nil [simp]: "itoa_nat n \<noteq> []"
  by (subst itoa_nat.simps) simp

lemma decimal_snoc: "decimal (s @ [c]) = 10 * decimal s + digit_val c"
  by (simp add: decimal_def)

lemma decimal_itoa_nat [simp]: "decimal (itoa_nat n) = n"
proof (induction n rule: itoa_nat.induct)
  case (1 n)
  show ?case
  proof (cases "n < 10")
    case True
    then show ?thesis
      by (subst itoa_nat.simps) (simp add: decimal_def)
  next
    case False
    with 1 have "decimal (itoa_nat (n div 10)) = n div 10" by simp
    with False show ?thesis
      by (subst itoa_nat.simps) (simp add: decimal_snoc)
  qed
qed

lemma itoa_nat_inject [simp]: "itoa_nat m = itoa_nat n \<longleftrightarrow> m = n"
  by (metis decimal_itoa_nat)

lemma is_digit_neq [chars]:
  "is_digit c \<Longrightarrow> c \<noteq> CHR ''-''" "is_digit c \<Longrightarrow> c \<noteq> CHR ''+''" "is_digit c \<Longrightarrow> c \<noteq> CHR ''/''"
  "is_digit c \<Longrightarrow> c \<noteq> CHR ''.''" "is_digit c \<Longrightarrow> c \<noteq> CHR '',''" "is_digit c \<Longrightarrow> c \<noteq> newline"
  by (auto simp: is_digit_def)

text \<open>Printing an \<open>int\<close> and parsing it gives it back, without an error.\<close>

lemma atoi_itoa:
  assumes "min_int \<le> i" and "i \<le> max_int"
  shows "atoi (itoa i) = (i, False)"
proof (cases "i < 0")
  case True
  have "list_all is_digit (itoa_nat (nat (- i)))"
    by (simp add: list_all_iff itoa_nat_digits)
  with True assms show ?thesis
    by (simp add: atoi_def itoa_def Let_def)
next
  case False
  let ?s = "itoa_nat (nat i)"
  have digits: "list_all is_digit ?s"
    by (simp add: list_all_iff itoa_nat_digits)
  obtain c cs where s: "?s = c # cs"
    by (cases ?s) auto
  with digits have "is_digit c" by simp
  moreover from s have "decimal (c # cs) = nat i"
    by (metis decimal_itoa_nat)
  ultimately show ?thesis
    using False assms digits s by (auto simp: atoi_def itoa_def Let_def is_digit_neq)
qed

lemma atoi_bounds: "min_int \<le> fst (atoi s) \<and> fst (atoi s) \<le> max_int"
  by (auto simp: atoi_def Let_def min_int_def max_int_def split: prod.splits)

section \<open>Lines\<close>

text \<open>\<open>strings.Count\<close> of a byte, as the lemmas on line counting use it.\<close>

abbreviation lines_of :: "string \<Rightarrow> nat" where
  "lines_of s \<equiv> count_list s newline"

end
