(* ===== verification/Decompress.thy ===== *)
theory Decompress
  imports Go_Strings "HOL-Library.Word"
begin

text \<open>
  \<open>beacon/decompress.go\<close>: the reader of Boomerang's compressed bucket logs. The numbers are Go's
  \<open>uint64\<close>, indices into the data are natural numbers, and an index or a slice out of range is a
  panic. \<open>base36.Decode\<close> of \<open>github.com/martinlindhe/base36\<close> is the argument \<open>dec\<close>.
\<close>

section \<open>The reader\<close>

definition compress_mode_small_numbers :: string where "compress_mode_small_numbers = ''0''"

definition compress_mode_large_numbers :: string where "compress_mode_large_numbers = ''1''"

definition compress_mode_percent :: string where "compress_mode_percent = ''2''"

definition large_number_wrap :: string where "large_number_wrap = ''.''"

text \<open>\<open>string(b)\<close> of a byte is the UTF-8 encoding of the rune of that number.\<close>

definition string_of_byte :: "char \<Rightarrow> string" where
  "string_of_byte c =
     (let n = (of_char c :: nat)
      in if n < 128 then [c] else [char_of (192 + n div 64), char_of (128 + n mod 64)])"

definition decompress_bucket_log_number :: "string \<Rightarrow> 64 word" where
  "decompress_bucket_log_number input =
     (let chr = (of_nat (of_char (input ! 0)) :: 64 word)
      in if chr \<ge> 48 \<and> chr \<le> 57 then chr - 48
         else if chr \<ge> 97 \<and> chr \<le> 122 then chr - 97 + 10
         else if chr \<ge> 65 \<and> chr \<le> 90 then (chr - 65) + 36
         else if chr = 95 then 62
         else if chr = 45 then 63
         else 0)"

text \<open>The loop \<open>for j < repeat\<close>.\<close>

function append_copies :: "64 word \<Rightarrow> 64 word \<Rightarrow> 64 word \<Rightarrow> 64 word list \<Rightarrow> 64 word list" where
  "append_copies num repeat j out =
     (if j < repeat then append_copies num repeat (j + 1) (out @ [num]) else out)"
  by auto
termination
proof (relation "measure (\<lambda>(num, repeat, j, out). unat (repeat - j))", goal_cases)
  case (2 num repeat j out)
  then have "repeat - j \<noteq> 0" by auto
  then have "unat (repeat - j - 1) < unat (repeat - j)"
    by (simp add: unat_minus_one unat_gt_0)
  then show ?case by (simp add: diff_diff_eq)
qed simp

declare append_copies.simps [simp del]

text \<open>
  One number of the mode: the new \<open>num\<close>, and how far \<open>i\<close> moves to the last byte the number takes.
  An unknown mode leaves \<open>num\<close> as it was.
\<close>

definition read_number :: "(string \<Rightarrow> 64 word) \<Rightarrow> string \<Rightarrow> string \<Rightarrow> nat \<Rightarrow> 64 word
    \<Rightarrow> (64 word \<times> nat) run" where
  "read_number dec logType logData i num =
     (if logType = compress_mode_small_numbers then
        Value (decompress_bucket_log_number (string_of_byte (logData ! i)), 0)
      else if logType = compress_mode_large_numbers then
        (case str_index (drop i logData) '','' of
           Some endChar \<Rightarrow> Value (dec (take endChar (drop i logData)), endChar)
         | None \<Rightarrow> Value (dec (string_of_byte (logData ! i)), length logData - i))
      else if logType = compress_mode_percent then
        if length logData < i + 2 then Panic ''slice bounds out of range''
        else if take 2 (drop i logData) = ''__'' then Value (100, 1)
        else Value (of_int (fst (atoi (take 2 (drop i logData)))), 1)
      else Value (num, 0))"

function decompress_loop :: "(string \<Rightarrow> 64 word) \<Rightarrow> string \<Rightarrow> string \<Rightarrow> nat \<Rightarrow> 64 word \<Rightarrow> 64 word
    \<Rightarrow> 64 word list \<Rightarrow> 64 word list run" where
  "decompress_loop dec logType logData i num repeat out =
     (if i < length logData then
        if string_of_byte (logData ! i) = ''*'' then
          (case str_index (drop (i + 1) logData) ''*'' of
             None \<Rightarrow> decompress_loop dec logType logData (i + 1) num repeat out
           | Some endChar \<Rightarrow>
               decompress_loop dec logType logData (i + endChar + 2) num
                 (dec (take endChar (drop (i + 1) logData))) out)
        else if string_of_byte (logData ! i) = large_number_wrap then
          (case str_index (drop (i + 1) logData) large_number_wrap of
             None \<Rightarrow> decompress_loop dec logType logData (i + 1) num repeat out
           | Some endChar \<Rightarrow>
               let num' = dec (take endChar (drop (i + 1) logData))
               in decompress_loop dec logType logData (i + endChar + 2) num' 1
                    (append_copies num' repeat 1 (out @ [num'])))
        else
          (case read_number dec logType logData i num of
             Panic msg \<Rightarrow> Panic msg
           | Value (num', k) \<Rightarrow>
               decompress_loop dec logType logData (i + k + 1) num' 1
                 (append_copies num' repeat 1 (out @ [num'])))
      else Value out)"
  by pat_completeness auto
termination
  by (relation "measure (\<lambda>(dec, logType, logData, i, num, repeat, out). length logData - i)") auto

declare decompress_loop.simps [simp del]

definition decompress_bucket_log :: "(string \<Rightarrow> 64 word) \<Rightarrow> string \<Rightarrow> 64 word list run" where
  "decompress_bucket_log dec data =
     (case data of
        [] \<Rightarrow> Value []
      | t # logData \<Rightarrow> decompress_loop dec (string_of_byte t) logData 0 0 1 [])"

lemmas decompress_defs [go_defs] = compress_mode_small_numbers_def compress_mode_large_numbers_def
  compress_mode_percent_def large_number_wrap_def string_of_byte_def
  decompress_bucket_log_number_def read_number_def decompress_bucket_log_def

lemmas mode_defs = compress_mode_small_numbers_def compress_mode_large_numbers_def
  compress_mode_percent_def large_number_wrap_def read_number_def

section \<open>Copies\<close>

lemma word_less_Suc: "j < (r :: 64 word) \<Longrightarrow> unat (j + 1) = Suc (unat j)"
  using unsigned_less [of r, where ?'a = nat] by (auto simp: word_less_nat_alt unat_plus_if')

lemma append_copies_from:
  "append_copies num repeat j out = out @ replicate (unat repeat - unat j) num"
proof (induction num repeat j out rule: append_copies.induct)
  case (1 num repeat j out)
  show ?case
  proof (cases "j < repeat")
    case True
    then have "Suc (unat repeat - Suc (unat j)) = unat repeat - unat j"
      by (simp add: word_less_nat_alt)
    with 1 True word_less_Suc [OF True] show ?thesis
      by (subst append_copies.simps) (simp flip: replicate_Suc)
  next
    case False
    then show ?thesis by (subst append_copies.simps) (simp add: word_less_nat_alt)
  qed
qed

text \<open>A number is written at least once: a repeat count of 0 means 1.\<close>

lemma append_copies:
  "append_copies num repeat 1 (out @ [num]) = out @ replicate (max 1 (unat repeat)) num"
  by (cases "unat repeat") (simp_all add: append_copies_from)

section \<open>The format\<close>

text \<open>
  The log of a list of items, each a count and a number, in the mode of small numbers: a number below
  64 is one digit, a larger one its base-36 digits between wraps, and a count other than 1 is written
  before it between asterisks. \<open>enc\<close> is base 36's encoder.
\<close>

definition small_digit :: "nat \<Rightarrow> char" where
  "small_digit n = (if n < 10 then char_of (48 + n) else if n < 36 then char_of (87 + n)
     else if n < 62 then char_of (29 + n) else if n = 62 then CHR ''_'' else CHR ''-'')"

definition put_number :: "(64 word \<Rightarrow> string) \<Rightarrow> 64 word \<Rightarrow> string" where
  "put_number enc n = (if n < 64 then [small_digit (unat n)] else ''.'' @ enc n @ ''.'')"

definition put_item :: "(64 word \<Rightarrow> string) \<Rightarrow> 64 word \<times> 64 word \<Rightarrow> string" where
  "put_item enc item = (case item of (k, n) \<Rightarrow>
     if k = 1 then put_number enc n else ''*'' @ enc k @ ''*'' @ put_number enc n)"

definition put_log :: "(64 word \<Rightarrow> string) \<Rightarrow> (64 word \<times> 64 word) list \<Rightarrow> string" where
  "put_log enc items = ''0'' @ concat (map (put_item enc) items)"

definition expand_items :: "(64 word \<times> 64 word) list \<Rightarrow> 64 word list" where
  "expand_items items = concat (map (\<lambda>(k, n). replicate (max 1 (unat k)) n) items)"

text \<open>All 64 digits read back, and none is a delimiter.\<close>

lemma read_digit:
  assumes "m < 128"
  shows "decompress_bucket_log_number (string_of_byte (char_of m)) =
    of_nat (if 48 \<le> m \<and> m \<le> 57 then m - 48 else if 97 \<le> m \<and> m \<le> 122 then m - 87
      else if 65 \<le> m \<and> m \<le> 90 then m - 29 else if m = 95 then 62 else if m = 45 then 63 else 0)"
proof -
  have u: "unat (of_nat m :: 64 word) = m" using assms by (simp add: unat_of_nat take_bit_nat_eq_self)
  then have cmp: "(48 \<le> (of_nat m :: 64 word)) = (48 \<le> m)" "((of_nat m :: 64 word) \<le> 57) = (m \<le> 57)"
    "(97 \<le> (of_nat m :: 64 word)) = (97 \<le> m)" "((of_nat m :: 64 word) \<le> 122) = (m \<le> 122)"
    "(65 \<le> (of_nat m :: 64 word)) = (65 \<le> m)" "((of_nat m :: 64 word) \<le> 90) = (m \<le> 90)"
    by (simp_all add: word_le_nat_alt)
  have eqs: "((of_nat m :: 64 word) = 95) = (m = 95)" "((of_nat m :: 64 word) = 45) = (m = 45)"
    using u by (auto simp: word_unat_eq_iff)
  show ?thesis
    using assms
    by (simp add: decompress_bucket_log_number_def string_of_byte_def Let_def cmp eqs of_nat_diff)
qed

lemma small_digit_read:
  assumes "n < (64 :: 64 word)"
  shows "decompress_bucket_log_number (string_of_byte (small_digit (unat n))) = n"
    and "string_of_byte (small_digit (unat n)) \<noteq> ''*''"
    and "string_of_byte (small_digit (unat n)) \<noteq> ''.''"
proof -
  define k where "k = unat n"
  define m where "m = (if k < 10 then 48 + k else if k < 36 then 87 + k else if k < 62 then 29 + k
    else if k = 62 then 95 else 45)"
  have k: "k < 64" "of_nat k = n" using assms by (simp_all add: k_def word_less_nat_alt)
  have m: "small_digit k = char_of m" "m < 128" "m \<noteq> 42" "m \<noteq> 46"
  proof -
    have "CHR ''_'' = char_of (95 :: nat)" "CHR ''-'' = char_of (45 :: nat)" by code_simp+
    then show "small_digit k = char_of m" using k(1) by (auto simp: small_digit_def m_def)
    show "m < 128" "m \<noteq> 42" "m \<noteq> 46" using k(1) by (auto simp: m_def)
  qed
  have "(if 48 \<le> m \<and> m \<le> 57 then m - 48 else if 97 \<le> m \<and> m \<le> 122 then m - 87
      else if 65 \<le> m \<and> m \<le> 90 then m - 29 else if m = 95 then 62 else if m = 45 then 63 else 0) = k"
    using k(1) by (auto simp: m_def)
  with read_digit [OF m(2)] k m(1)
  show "decompress_bucket_log_number (string_of_byte (small_digit (unat n))) = n"
    by (simp add: k_def)
  show "string_of_byte (small_digit (unat n)) \<noteq> ''*''" "string_of_byte (small_digit (unat n)) \<noteq> ''.''"
    using m by (auto simp: string_of_byte_def k_def Let_def char_of_eq_iff take_bit_nat_eq_self)
qed

lemma string_of_delims [simp]: "string_of_byte CHR ''*'' = ''*''" "string_of_byte CHR ''.'' = ''.''"
  by (simp_all add: string_of_byte_def)

lemma str_index_delim:
  assumes "c \<notin> set s"
  shows "str_index (s @ c # rest) [c] = Some (length s)"
proof -
  have "takeWhile (\<lambda>x. x \<noteq> c) s = s" using assms by (auto simp: takeWhile_eq_all_conv)
  then show ?thesis by (simp add: str_index_single takeWhile_tail)
qed

section \<open>Reading the format back\<close>

lemma read_put_number:
  assumes codec: "\<And>n. dec (enc n) = n" "\<And>n. CHR ''.'' \<notin> set (enc n)"
  shows "decompress_loop dec ''0'' (pre @ put_number enc n @ rest) (length pre) num repeat out =
    decompress_loop dec ''0'' (pre @ put_number enc n @ rest) (length (pre @ put_number enc n)) n 1
      (out @ replicate (max 1 (unat repeat)) n)"
proof (cases "n < 64")
  case True
  then show ?thesis
    by (subst decompress_loop.simps)
      (simp add: put_number_def nth_append small_digit_read read_number_def append_copies
        compress_mode_small_numbers_def large_number_wrap_def)
next
  case False
  have "str_index (enc n @ CHR ''.'' # rest) ''.'' = Some (length (enc n))"
    using codec(2) by (rule str_index_delim)
  with False show ?thesis
    by (subst decompress_loop.simps)
      (simp add: put_number_def nth_append codec(1) append_copies large_number_wrap_def Let_def)
qed

lemma read_put_count:
  assumes codec: "\<And>n. dec (enc n) = n" "\<And>n. CHR ''*'' \<notin> set (enc n)"
  shows "decompress_loop dec mode (pre @ ''*'' @ enc k @ ''*'' @ rest) (length pre) num repeat out =
    decompress_loop dec mode (pre @ ''*'' @ enc k @ ''*'' @ rest)
      (length (pre @ ''*'' @ enc k @ ''*'')) num k out"
proof -
  have "str_index (enc k @ CHR ''*'' # rest) ''*'' = Some (length (enc k))"
    using codec(2) by (rule str_index_delim)
  then show ?thesis
    by (subst decompress_loop.simps) (simp add: nth_append codec(1) Let_def)
qed

lemma read_put_item:
  assumes codec: "\<And>n. dec (enc n) = n" "\<And>n. CHR ''.'' \<notin> set (enc n)" "\<And>n. CHR ''*'' \<notin> set (enc n)"
  shows "decompress_loop dec ''0'' (pre @ put_item enc (k, n) @ rest) (length pre) num 1 out =
    decompress_loop dec ''0'' (pre @ put_item enc (k, n) @ rest) (length (pre @ put_item enc (k, n)))
      n 1 (out @ replicate (max 1 (unat k)) n)"
proof (cases "k = 1")
  case True
  then show ?thesis
    using read_put_number [OF codec(1,2), of pre n rest num 1 out] by (simp add: put_item_def)
next
  case False
  then show ?thesis
    using read_put_count [OF codec(1,3), of "''0''" pre k "put_number enc n @ rest" num 1 out]
      read_put_number [OF codec(1,2), of "pre @ ''*'' @ enc k @ ''*''" n rest num k out]
    by (simp add: put_item_def)
qed

lemma read_put_items:
  assumes codec: "\<And>n. dec (enc n) = n" "\<And>n. CHR ''.'' \<notin> set (enc n)" "\<And>n. CHR ''*'' \<notin> set (enc n)"
  shows "decompress_loop dec ''0'' (pre @ concat (map (put_item enc) items)) (length pre) num 1 out =
    Value (out @ expand_items items)"
proof (induction items arbitrary: pre num out)
  case Nil
  show ?case by (subst decompress_loop.simps) (simp add: expand_items_def)
next
  case (Cons item items)
  obtain k n where item: "item = (k, n)" by (cases item)
  show ?case
    using read_put_item [OF codec, of pre k n "concat (map (put_item enc) items)" num out]
      Cons [of "pre @ put_item enc (k, n)" n "out @ replicate (max 1 (unat k)) n"]
    by (simp add: item expand_items_def)
qed

text \<open>C13: reading back a written log gives the numbers, each as often as its count says.\<close>

theorem decompress_put_log:
  assumes "\<And>n. dec (enc n) = n" and "\<And>n. CHR ''.'' \<notin> set (enc n) \<and> CHR ''*'' \<notin> set (enc n)"
  shows "decompress_bucket_log dec (put_log enc items) = Value (expand_items items)"
  using read_put_items [of dec enc "[]" items 0 "[]"] assms
  by (simp add: decompress_bucket_log_def put_log_def string_of_byte_def)

lemma decompress_put_log_witness:
  "decompress_bucket_log (\<lambda>s. of_nat (decimal s)) (put_log (\<lambda>n. itoa_nat (unat n)) [(1, 7), (3, 100)])
     = Value [7, 100, 100, 100]"
proof -
  have "decompress_bucket_log (\<lambda>s. of_nat (decimal s)) (put_log (\<lambda>n. itoa_nat (unat n)) [(1, 7), (3, 100)])
     = Value (expand_items [(1, 7), (3, 100)])"
    by (rule decompress_put_log) (auto simp: is_digit_def dest!: itoa_nat_digits)
  also have "expand_items [(1, 7), (3, 100)] = [7, 100, 100, 100]"
    by (simp add: expand_items_def) (simp add: numeral_3_eq_3)
  finally show ?thesis .
qed

section \<open>When the reader panics\<close>

lemma read_number_panic: "read_number dec logType logData i num = Panic msg \<Longrightarrow>
  logType = compress_mode_percent \<and> msg = ''slice bounds out of range''"
  by (auto simp: read_number_def split: option.splits if_splits)

lemma decompress_loop_panic:
  "decompress_loop dec logType logData i num repeat out = Panic msg \<Longrightarrow>
   logType = compress_mode_percent \<and> msg = ''slice bounds out of range''"
proof (induction dec logType logData i num repeat out rule: decompress_loop.induct)
  case (1 dec logType logData i num repeat out)
  let ?c = "string_of_byte (logData ! i)"
  have less: "i < length logData"
    using "1.prems" by (subst (asm) decompress_loop.simps) (simp split: if_splits)
  note body = "1.prems" [unfolded decompress_loop.simps [of dec logType logData i num repeat out] if_P [OF less] Let_def]
  show ?case
  proof (cases "?c = ''*''")
    case True
    show ?thesis
      using body [unfolded if_P [OF True]] "1.IH"(1) [OF less True] "1.IH"(2) [OF less True] by (auto split: option.splits)
  next
    case star: False
    note body = body [unfolded if_not_P [OF star]]
    show ?thesis
    proof (cases "?c = large_number_wrap")
      case True
      show ?thesis
        using body [unfolded if_P [OF True]] "1.IH"(3) [OF less star True] "1.IH"(4) [OF less star True]
        by (auto split: option.splits)
    next
      case False
      show ?thesis
        using body [unfolded if_not_P [OF False]] "1.IH"(5) [OF less star False] read_number_panic
        by (auto split: run.splits prod.splits)
    qed
  qed
qed

lemma string_of_byte_eq [simp]:
  "(of_char d :: nat) < 128 \<Longrightarrow> string_of_byte c = [d] \<longleftrightarrow> c = d"
  by (auto simp: string_of_byte_def Let_def)


section \<open>The mode of percents\<close>

definition percent_value :: "string \<Rightarrow> 64 word" where
  "percent_value p = (if p = ''__'' then 100 else of_int (fst (atoi p)))"

definition percent_pair :: "string \<Rightarrow> bool" where
  "percent_pair p = (length p = 2 \<and> p ! 0 \<noteq> CHR ''*'' \<and> p ! 0 \<noteq> CHR ''.'')"

lemma read_percent_pair:
  assumes "percent_pair p"
  shows "decompress_loop dec ''2'' (pre @ p @ rest) (length pre) num 1 out =
    decompress_loop dec ''2'' (pre @ p @ rest) (length (pre @ p)) (percent_value p) 1
      (out @ [percent_value p])"
proof -
  obtain a b where p: "p = [a, b]" "a \<noteq> CHR ''*''" "a \<noteq> CHR ''.''"
    using assms by (auto simp: percent_pair_def length_Suc_conv numeral_2_eq_2)
  then show ?thesis
    by (subst decompress_loop.simps)
      (simp add: nth_append mode_defs percent_value_def append_copies)
qed

lemma read_percent_pairs:
  assumes "\<And>p. p \<in> set ps \<Longrightarrow> percent_pair p"
  shows "\<exists>num'. decompress_loop dec ''2'' (pre @ concat ps @ rest) (length pre) num 1 out =
    decompress_loop dec ''2'' (pre @ concat ps @ rest) (length (pre @ concat ps)) num' 1
      (out @ map percent_value ps)"
  using assms
proof (induction ps arbitrary: pre num out)
  case Nil
  then show ?case by auto
next
  case (Cons p ps)
  then show ?case
    using read_percent_pair [of p dec pre "concat ps @ rest" num out]
      Cons.IH [of "pre @ p" "percent_value p" "out @ [percent_value p]"]
    by simp
qed

text \<open>
  in the mode of percents the pairs are read in order, and data that stop in the middle of a
  pair make the reader panic.
\<close>

theorem decompress_percent:
  assumes "\<And>p. p \<in> set ps \<Longrightarrow> percent_pair p"
    and "rest = [] \<or> (\<exists>c. rest = [c] \<and> c \<noteq> CHR ''*'' \<and> c \<noteq> CHR ''.'')"
  shows "decompress_bucket_log dec (''2'' @ concat ps @ rest) =
    (if rest = [] then Value (map percent_value ps) else Panic ''slice bounds out of range'')"
proof -
  obtain num' where "decompress_bucket_log dec (''2'' @ concat ps @ rest) =
      decompress_loop dec ''2'' (concat ps @ rest) (length (concat ps)) num' 1 (map percent_value ps)"
    using read_percent_pairs [of ps dec "[]" rest 0 "[]"] assms(1)
    by (auto simp: decompress_bucket_log_def string_of_byte_def)
  also have "\<dots> = (if rest = [] then Value (map percent_value ps)
      else Panic ''slice bounds out of range'')"
    using assms(2) by (subst decompress_loop.simps) (auto simp: nth_append mode_defs)
  finally show ?thesis .
qed

lemma decompress_percent_witness:
  "decompress_bucket_log (\<lambda>s. 0) ''225__07'' = Value [25, 100, 7]
   \<and> decompress_bucket_log (\<lambda>s. 0) ''225__0'' = Panic ''slice bounds out of range''"
proof -
  have v: "percent_value ''25'' = 25" "percent_value ''__'' = 100" "percent_value ''07'' = 7" 
    by code_simp+
  have "decompress_bucket_log (\<lambda>s. 0) (''2'' @ concat [''25'', ''__'', ''07''] @ []) = Value [25, 100, 7]"
    by (subst decompress_percent) (auto simp: percent_pair_def v)
  moreover have "decompress_bucket_log (\<lambda>s. 0) (''2'' @ concat [''25'', ''__''] @ ''0'')
      = Panic ''slice bounds out of range''"
    by (subst decompress_percent) (auto simp: percent_pair_def)
  ultimately show ?thesis by simp
qed

section \<open>The mode of large numbers\<close>

text \<open>
  a number of the mode of large numbers that no comma follows is decoded from its first byte
  alone, whatever bytes come after it.
\<close>

theorem decompress_large_last:
  assumes "s \<noteq> []" and "CHR '','' \<notin> set s" and "hd s \<noteq> CHR ''*''" and "hd s \<noteq> CHR ''.''"
  shows "decompress_bucket_log dec (''1'' @ s) = Value [dec (string_of_byte (hd s))]"
proof -
  obtain c cs where s: "s = c # cs" using assms(1) by (metis list.exhaust)
  have "str_index (c # cs) '','' = None" using assms(2) s by (simp add: str_index_single)
  then have "decompress_loop dec ''1'' s 0 0 1 [] =
      decompress_loop dec ''1'' s (Suc (length s)) (dec (string_of_byte c)) 1 [dec (string_of_byte c)]"
    using assms(3,4) s
    by (subst decompress_loop.simps)
      (simp add: mode_defs append_copies [of _ _ "[]", simplified] del: str_index.simps)
  also have "\<dots> = Value [dec (string_of_byte c)]"
    by (subst decompress_loop.simps) simp
  finally show ?thesis using s by (simp add: decompress_bucket_log_def string_of_byte_def)
qed

lemma decompress_large_last_witness:
  "decompress_bucket_log (\<lambda>s. of_nat (decimal s)) ''142'' = Value [4]"
proof -
  have "decompress_bucket_log (\<lambda>s. of_nat (decimal s)) (''1'' @ ''42'') =
      Value [of_nat (decimal (string_of_byte (hd ''42'')))]"
    by (rule decompress_large_last) auto
  then show ?thesis by (simp add: string_of_byte_def decimal_def digit_val_def)
qed

end
