(* ===== verification/Go_Url.thy ===== *)
theory Go_Url
  imports Go_Strings
begin

text \<open>
  The part of Go's \<open>net/url\<close>, \<open>net/textproto\<close> and \<open>net/http\<close> packages the program uses: the
  multi-valued maps \<open>url.Values\<close> and \<open>http.Header\<close>, and \<open>url.Parse\<close> followed by
  \<open>URL.Hostname\<close>, which is all the program asks of a parsed URL.
\<close>

section \<open>Multi-valued maps\<close>

text \<open>
  A Go map is an association list with one entry per key; no definition of the model depends on
  the order of the entries.
\<close>

type_synonym url_values = "(string \<times> string list) list"

definition values_lookup :: "url_values \<Rightarrow> string \<Rightarrow> string list" where
  "values_lookup v k = (case map_of v k of None \<Rightarrow> [] | Some vs \<Rightarrow> vs)"

definition values_get :: "url_values \<Rightarrow> string \<Rightarrow> string" where
  "values_get v k = (case values_lookup v k of [] \<Rightarrow> [] | x # _ \<Rightarrow> x)"

definition values_has :: "url_values \<Rightarrow> string \<Rightarrow> bool" where
  "values_has v k = (map_of v k \<noteq> None)"

definition values_set :: "url_values \<Rightarrow> string \<Rightarrow> string \<Rightarrow> url_values" where
  "values_set v k x = AList.update k [x] v"

definition values_add :: "url_values \<Rightarrow> string \<Rightarrow> string \<Rightarrow> url_values" where
  "values_add v k x = AList.update k (values_lookup v k @ [x]) v"

lemmas values_defs [go_defs] = values_lookup_def values_get_def values_has_def values_set_def
  values_add_def

lemma values_get_set: "values_get (values_set v k x) k' = (if k' = k then x else values_get v k')"
  by (simp add: values_defs)

lemma values_has_set: "values_has (values_set v k x) k' \<longleftrightarrow> k' = k \<or> values_has v k'"
  by (simp add: values_defs)

lemma values_get_add:
  "values_get (values_add v k x) k' =
     (if k' = k \<and> values_lookup v k = [] then x else values_get v k')"
  by (simp add: values_defs split: list.splits)

lemma values_has_add: "values_has (values_add v k x) k' \<longleftrightarrow> k' = k \<or> values_has v k'"
  by (simp add: values_defs)

subsection \<open>Headers\<close>

definition is_upper :: "char \<Rightarrow> bool" where
  "is_upper c = (65 \<le> (of_char c :: nat) \<and> (of_char c :: nat) \<le> 90)"

definition is_lower :: "char \<Rightarrow> bool" where
  "is_lower c = (97 \<le> (of_char c :: nat) \<and> (of_char c :: nat) \<le> 122)"

definition to_upper :: "char \<Rightarrow> char" where
  "to_upper c = (if is_lower c then char_of ((of_char c :: nat) - 32) else c)"

definition to_lower :: "char \<Rightarrow> char" where
  "to_lower c = (if is_upper c then char_of ((of_char c :: nat) + 32) else c)"

definition is_alnum :: "char \<Rightarrow> bool" where
  "is_alnum c = (is_upper c \<or> is_lower c \<or> is_digit c)"

text \<open>\<open>textproto.CanonicalMIMEHeaderKey\<close>; a key with a byte no field name has is left alone.\<close>

definition header_byte :: "char \<Rightarrow> bool" where
  "header_byte c = (is_alnum c \<or> c \<in> set (CHR 0x27 # CHR 0x60 # ''!#$%&*+-.^_|~''))"

fun canonical_from :: "bool \<Rightarrow> string \<Rightarrow> string" where
  "canonical_from up [] = []"
| "canonical_from up (c # cs) =
     (if up then to_upper c else to_lower c) # canonical_from (c = CHR ''-'') cs"

definition canonical_key :: "string \<Rightarrow> string" where
  "canonical_key k = (if list_all header_byte k then canonical_from True k else k)"

type_synonym header = url_values

definition header_get :: "header \<Rightarrow> string \<Rightarrow> string" where
  "header_get h k = values_get h (canonical_key k)"

lemmas header_defs [go_defs] = is_upper_def is_lower_def to_upper_def to_lower_def is_alnum_def
  header_byte_def canonical_key_def header_get_def is_digit_def

section \<open>Parsing a URL\<close>

text \<open>
  \<open>url.Parse\<close> of Go 1.21 as far as its \<open>Host\<close>: the fragment is cut off, a control byte is refused,
  the scheme and the query are split off, an authority follows two slashes, and every
  percent-escape of the parts has to be well formed.
\<close>

definition is_hex :: "char \<Rightarrow> bool" where
  "is_hex c = (is_digit c \<or> (65 \<le> (of_char c :: nat) \<and> (of_char c :: nat) \<le> 70)
     \<or> (97 \<le> (of_char c :: nat) \<and> (of_char c :: nat) \<le> 102))"

definition unhex :: "char \<Rightarrow> nat" where
  "unhex c = (if is_digit c then of_char c - 48
     else if (of_char c :: nat) \<le> 70 then of_char c - 55 else of_char c - 87)"

fun good_escapes :: "string \<Rightarrow> bool" where
  "good_escapes [] = True"
| "good_escapes (c # cs) =
     (if c = CHR ''%'' then
        (case cs of a # b # rest \<Rightarrow> is_hex a \<and> is_hex b \<and> good_escapes rest | _ \<Rightarrow> False)
      else good_escapes cs)"

text \<open>\<open>shouldEscape\<close> in the modes \<open>encodeHost\<close> and \<open>encodeZone\<close>.\<close>

definition should_escape :: "char \<Rightarrow> bool" where
  "should_escape c =
     (\<not> is_alnum c \<and> c \<notin> set (CHR 0x22 # CHR 0x27 # ''!$&()*+,;=:[]<>-_.~''))"

text \<open>\<open>unescape\<close> in the modes \<open>encodeHost\<close> and, with the flag, \<open>encodeZone\<close>.\<close>

fun host_unescape :: "bool \<Rightarrow> string \<Rightarrow> string option" where
  "host_unescape zone [] = Some []"
| "host_unescape zone (c # cs) =
     (if c = CHR ''%'' then
        (case cs of
           a # b # rest \<Rightarrow>
             if \<not> is_hex a \<or> \<not> is_hex b then None
             else let v = char_of (16 * unhex a + unhex b); pct = (a = CHR ''2'' \<and> b = CHR ''5'')
                  in if \<not> zone \<and> unhex a < 8 \<and> \<not> pct then None
                     else if zone \<and> \<not> pct \<and> v \<noteq> CHR '' '' \<and> should_escape v then None
                     else map_option ((#) v) (host_unescape zone rest)
         | _ \<Rightarrow> None)
      else if (of_char c :: nat) < 128 \<and> should_escape c then None
      else map_option ((#) c) (host_unescape zone cs))"

definition valid_optional_port :: "string \<Rightarrow> bool" where
  "valid_optional_port p =
     (case p of [] \<Rightarrow> True | c # cs \<Rightarrow> c = CHR '':'' \<and> list_all is_digit cs)"

definition url_err :: "string option \<Rightarrow> go_error + string" where
  "url_err r = (case r of None \<Rightarrow> Inl ''invalid URL escape or character in host name'' | Some h \<Rightarrow> Inr h)"

definition parse_host :: "string \<Rightarrow> go_error + string" where
  "parse_host host =
     (if has_prefix host ''['' then
        (case last_index CHR '']'' host of
           None \<Rightarrow> Inl ''missing ']' in host''
         | Some i \<Rightarrow>
             if \<not> valid_optional_port (drop (i + 1) host) then Inl ''invalid port after host''
             else (case str_index (take i host) ''%25'' of
                     None \<Rightarrow> url_err (host_unescape False host)
                   | Some z \<Rightarrow>
                       (case (host_unescape False (take z host),
                              host_unescape True (drop z (take i host)),
                              host_unescape False (drop i host)) of
                          (Some a, Some b, Some c) \<Rightarrow> Inr (a @ b @ c)
                        | _ \<Rightarrow> url_err None)))
      else (case last_index CHR '':'' host of
              None \<Rightarrow> url_err (host_unescape False host)
            | Some i \<Rightarrow>
                if \<not> valid_optional_port (drop i host) then Inl ''invalid port after host''
                else url_err (host_unescape False host)))"

definition valid_userinfo :: "string \<Rightarrow> bool" where
  "valid_userinfo s =
     list_all (\<lambda>c. is_alnum c \<or> c \<in> set (CHR 0x27 # ''-._:~!$&()*+,;=%@'')) s"

definition parse_authority :: "string \<Rightarrow> go_error + string" where
  "parse_authority a =
     (case last_index CHR ''@'' a of
        None \<Rightarrow> parse_host a
      | Some i \<Rightarrow>
          (case parse_host (drop (i + 1) a) of
             Inl e \<Rightarrow> Inl e
           | Inr host \<Rightarrow>
               if \<not> valid_userinfo (take i a) then Inl ''net/url: invalid userinfo''
               else if \<not> good_escapes (take i a) then url_err None
               else Inr host))"

fun scheme_from :: "string \<Rightarrow> string \<Rightarrow> string \<Rightarrow> go_error + (string \<times> string)" where
  "scheme_from url seen [] = Inr ([], url)"
| "scheme_from url seen (c # cs) =
     (if is_upper c \<or> is_lower c then scheme_from url (seen @ [c]) cs
      else if is_digit c \<or> c \<in> set ''+-.'' then
        (if seen = [] then Inr ([], url) else scheme_from url (seen @ [c]) cs)
      else if c = CHR '':'' then
        (if seen = [] then Inl ''missing protocol scheme'' else Inr (seen, cs))
      else Inr ([], url))"

definition get_scheme :: "string \<Rightarrow> go_error + (string \<times> string)" where
  "get_scheme url = scheme_from url [] url"

definition has_ctl_byte :: "string \<Rightarrow> bool" where
  "has_ctl_byte s = list_ex (\<lambda>c. (of_char c :: nat) < 32 \<or> of_char c = (127 :: nat)) s"

text \<open>
  The query is what follows the first question mark, also where the URL ends with its only
  question mark; the program reads neither the query nor the \<open>ForceQuery\<close> flag.
\<close>

definition parse_rest :: "string \<Rightarrow> string \<Rightarrow> go_error + string" where
  "parse_rest scheme rest0 =
     (let rest = fst (str_cut CHR ''?'' rest0)
      in if \<not> has_prefix rest ''/'' \<and> scheme \<noteq> [] then Inr []
         else if \<not> has_prefix rest ''/'' \<and> CHR '':'' \<in> set (fst (str_cut CHR ''/'' rest)) then
           Inl ''first path segment in URL cannot contain colon''
         else if (scheme \<noteq> [] \<or> \<not> has_prefix rest ''///'') \<and> has_prefix rest ''//'' then
           (let after = drop 2 rest;
                authority = takeWhile (\<lambda>c. c \<noteq> CHR ''/'') after;
                path = dropWhile (\<lambda>c. c \<noteq> CHR ''/'') after
            in (case parse_authority authority of
                  Inl e \<Rightarrow> Inl e
                | Inr host \<Rightarrow> if good_escapes path then Inr host else url_err None))
         else if good_escapes rest then Inr [] else url_err None)"

definition url_parse :: "string \<Rightarrow> go_error + string" where
  "url_parse raw =
     (let (u, frag) = str_cut CHR ''#'' raw
      in if has_ctl_byte u then Inl ''net/url: invalid control character in URL''
         else if u = ''*'' then (if good_escapes frag then Inr [] else url_err None)
         else (case get_scheme u of
                 Inl e \<Rightarrow> Inl e
               | Inr (scheme, rest) \<Rightarrow>
                   (case parse_rest scheme rest of
                      Inl e \<Rightarrow> Inl e
                    | Inr host \<Rightarrow> if good_escapes frag then Inr host else url_err None)))"

text \<open>\<open>URL.Hostname\<close>: the host without a valid port and without the brackets of an IPv6 literal.\<close>

definition url_hostname :: "string \<Rightarrow> string" where
  "url_hostname host =
     (let h = (case last_index CHR '':'' host of
                 None \<Rightarrow> host
               | Some i \<Rightarrow> if valid_optional_port (drop i host) then take i host else host)
      in if has_prefix h ''['' \<and> has_suffix h '']'' then take (length h - 2) (drop 1 h) else h)"

lemmas url_defs [go_defs] = is_hex_def unhex_def should_escape_def valid_optional_port_def
  url_err_def parse_host_def valid_userinfo_def parse_authority_def get_scheme_def
  has_ctl_byte_def parse_rest_def url_parse_def url_hostname_def

subsection \<open>The bytes of a host\<close>

text \<open>
  What a parsed host can hold: bytes that need no escape, the percent sign and the space of a
  zone, and bytes of multi-byte runes. A slash, a line break and a NUL byte are not among them.
\<close>

definition host_byte :: "char \<Rightarrow> bool" where
  "host_byte c = (\<not> should_escape c \<or> c = CHR ''%'' \<or> c = CHR '' '' \<or> 128 \<le> (of_char c :: nat))"

lemma host_byte_neq [chars]:
  "host_byte c \<Longrightarrow> c \<noteq> CHR ''/''" "host_byte c \<Longrightarrow> c \<noteq> newline" "host_byte c \<Longrightarrow> c \<noteq> CHR 0x00"
  by (auto simp: host_byte_def should_escape_def header_defs)

lemma of_char_char_of_byte: "n < 256 \<Longrightarrow> of_char (char_of n :: char) = (n :: nat)"
  by simp

lemma unhex_bound: "is_hex c \<Longrightarrow> unhex c < 16"
  by (auto simp: is_hex_def unhex_def is_digit_def)

lemma host_unescape_bytes: "host_unescape zone s = Some h \<Longrightarrow> c \<in> set h \<Longrightarrow> host_byte c"
proof (induction zone s arbitrary: h rule: host_unescape.induct)
  case (1 zone)
  then show ?case by simp
next
  case (2 zone c0 cs)
  show ?case
  proof (cases "c0 = CHR ''%''")
    case False
    with 2 show ?thesis
      by (auto simp: host_byte_def split: if_splits)
  next
    case True
    with 2(3) obtain a b rest where cs: "cs = a # b # rest" and hex: "is_hex a" "is_hex b"
      by (auto split: list.splits if_splits)
    let ?n = "16 * unhex a + unhex b"
    let ?v = "char_of ?n :: char"
    obtain r where r: "host_unescape zone rest = Some r" "h = ?v # r"
      using 2(3) True cs hex by (auto simp: Let_def split: if_splits)
    have n: "?n < 256" using unhex_bound [OF hex(1)] unhex_bound [OF hex(2)] by simp
    have "host_byte ?v"
    proof (cases "a = CHR ''2'' \<and> b = CHR ''5''")
      case True
      moreover have "(char_of (37 :: nat) :: char) = CHR ''%''" by code_simp
      ultimately show ?thesis by (simp add: host_byte_def unhex_def is_digit_def)
    next
      case False
      then show ?thesis
        using 2(3) \<open>c0 = CHR ''%''\<close> cs hex n
        by (auto simp: host_byte_def Let_def not_less split: if_splits)
    qed
    moreover have "host_byte c" if "c \<in> set r"
      using 2(1) [OF True cs refl] hex r(1) that True cs 2(3)
      by (auto simp: Let_def split: if_splits)
    ultimately show ?thesis using 2(4) r(2) by auto
  qed
qed

lemma url_err_Inr [simp]: "url_err r = Inr h \<longleftrightarrow> r = Some h"
  by (cases r) (auto simp: url_err_def)

lemma parse_host_bytes:
  assumes "parse_host s = Inr h" and "c \<in> set h"
  shows "host_byte c"
proof -
  from assms(1) consider "host_unescape False s = Some h"
    | i j k a b d where "host_unescape False i = Some a" "host_unescape True j = Some b"
        "host_unescape False k = Some d" "h = a @ b @ d"
    by (auto simp: parse_host_def split: if_splits option.splits)
  then show ?thesis
    using assms(2) by cases (auto dest: host_unescape_bytes)
qed

lemma parse_authority_bytes: "parse_authority s = Inr h \<Longrightarrow> c \<in> set h \<Longrightarrow> host_byte c"
  by (auto simp: parse_authority_def dest: parse_host_bytes split: option.splits sum.splits if_splits)

lemma url_parse_bytes: "url_parse raw = Inr h \<Longrightarrow> c \<in> set h \<Longrightarrow> host_byte c"
  by (auto simp: url_parse_def parse_rest_def Let_def dest: parse_authority_bytes
      split: prod.splits sum.splits if_splits)

lemma url_hostname_subset: "set (url_hostname h) \<subseteq> set h"
  unfolding url_hostname_def Let_def
  by (auto split: option.splits if_splits dest!: in_set_takeD in_set_dropD)

text \<open>Every byte of the host name of a URL that parses can stand in a file name.\<close>

lemma hostname_bytes: "url_parse raw = Inr h \<Longrightarrow> c \<in> set (url_hostname h) \<Longrightarrow> host_byte c"
  using url_hostname_subset [of h] by (auto dest: url_parse_bytes)

end
