(* ===== verification/Go_Time.thy ===== *)
theory Go_Time
  imports Go_Strings
begin

text \<open>
  The part of Go's \<open>time\<close> package the program uses. A \<open>time.Time\<close> is an instant, in nanoseconds
  since 1970-01-01 00:00:00 UTC, an \<open>int\<close>; its calendar fields are the proleptic Gregorian ones in
  UTC. The calendar computation follows \<open>absDate\<close> and \<open>Date\<close> of the package: the day number is cut
  into 400-, 100-, 4- and 1-year cycles.
\<close>

section \<open>Instants and durations\<close>

type_synonym time = int

definition time_second :: int where
  "time_second = 1000000000"

definition time_hour :: int where
  "time_hour = 3600 * time_second"

definition time_day :: int where
  "time_day = 24 * time_hour"

text \<open>
  \<open>Truncate\<close> rounds down to a multiple of the duration since the zero time, midnight of
  January 1 of year 1; the Unix epoch is a whole number of days after it, so for durations that
  divide a day this is rounding down from the epoch.
\<close>

definition time_truncate :: "time \<Rightarrow> int \<Rightarrow> time" where
  "time_truncate t d = (if d \<le> 0 then t else t - t mod d)"

definition time_add :: "time \<Rightarrow> int \<Rightarrow> time" where
  "time_add t d = t + d"

definition time_after :: "time \<Rightarrow> time \<Rightarrow> bool" where
  "time_after t u = (u < t)"

definition time_days :: "time \<Rightarrow> int" where
  "time_days t = t div time_day"

definition time_hour_of :: "time \<Rightarrow> int" where
  "time_hour_of t = (t mod time_day) div time_hour"

definition time_min_of :: "time \<Rightarrow> int" where
  "time_min_of t = (t mod time_hour) div (60 * time_second)"

definition time_sec_of :: "time \<Rightarrow> int" where
  "time_sec_of t = (t mod (60 * time_second)) div time_second"

section \<open>The calendar\<close>

definition is_leap :: "int \<Rightarrow> bool" where
  "is_leap y = (y mod 4 = 0 \<and> (y mod 100 \<noteq> 0 \<or> y mod 400 = 0))"

text \<open>\<open>daysBefore[m]\<close>: the days of a common year before month \<open>m + 1\<close>.\<close>

definition days_before :: "int list" where
  "days_before = [0, 31, 59, 90, 120, 151, 181, 212, 243, 273, 304, 334, 365]"

definition unix_epoch_days :: int where
  \<comment> \<open>the days from 0001-01-01 to 1970-01-01\<close>
  "unix_epoch_days = 719162"

text \<open>The year and the day of the year (from 0) of a day counted from 0001-01-01.\<close>

definition year_yday :: "int \<Rightarrow> int \<times> int" where
  "year_yday d =
     (let n400 = d div 146097; d1 = d - 146097 * n400;
          n100 = d1 div 36524; n100 = n100 - n100 div 4; d2 = d1 - 36524 * n100;
          n4 = d2 div 1461; d3 = d2 - 1461 * n4;
          n1 = d3 div 365; n1 = n1 - n1 div 4; yday = d3 - 365 * n1
      in (400 * n400 + 100 * n100 + 4 * n4 + n1 + 1, yday))"

text \<open>The month and the day of the month of a day of the year.\<close>

definition month_day :: "bool \<Rightarrow> int \<Rightarrow> int \<times> int" where
  "month_day leap yday =
     (if leap \<and> yday = 59 then (2, 29)
      else let day = (if leap \<and> 59 < yday then yday - 1 else yday);
               m = day div 31;
               end = days_before ! nat (m + 1)
           in if end \<le> day then (m + 2, day - end + 1)
              else (m + 1, day - days_before ! nat m + 1))"

definition civil_of_days :: "int \<Rightarrow> int \<times> int \<times> int" where
  "civil_of_days n =
     (let (y, yday) = year_yday (n + unix_epoch_days); (m, d) = month_day (is_leap y) yday
      in (y, m, d))"

text \<open>The days before year \<open>y\<close>, counted from 0001-01-01.\<close>

definition days_before_year :: "int \<Rightarrow> int" where
  "days_before_year y = (let k = y - 1 in 365 * k + k div 4 - k div 100 + k div 400)"

text \<open>\<open>time.Date\<close>: months out of range carry into the year, days into the month.\<close>

definition days_of_civil :: "int \<Rightarrow> int \<Rightarrow> int \<Rightarrow> int" where
  "days_of_civil y m d =
     (let y' = y + (m - 1) div 12; m' = (m - 1) mod 12
      in days_before_year y' + days_before ! nat m'
         + (if is_leap y' \<and> 2 \<le> m' then 1 else 0) + d - 1 - unix_epoch_days)"

definition add_date :: "time \<Rightarrow> int \<Rightarrow> int \<Rightarrow> int \<Rightarrow> time" where
  "add_date t years months days =
     (let (y, m, d) = civil_of_days (time_days t)
      in days_of_civil (y + years) (m + months) (d + days) * time_day + t mod time_day)"

lemmas time_defs [go_defs] = time_second_def time_hour_def time_day_def time_truncate_def
  time_add_def time_after_def time_days_def time_hour_of_def time_min_of_def time_sec_of_def
  is_leap_def days_before_def unix_epoch_days_def year_yday_def month_day_def civil_of_days_def
  days_before_year_def days_of_civil_def add_date_def

subsection \<open>The cycles\<close>

text \<open>
  Cutting \<open>q - q >> 2\<close> cycles of length \<open>c\<close> off a day below \<open>4 c + 1\<close>: the fifth cycle, of one day,
  is folded into the fourth.
\<close>

lemma clamped_cycle:
  fixes c d :: int
  assumes "0 < c" and "0 \<le> d" and "d \<le> 4 * c" and n: "n = d div c - d div c div 4"
  shows "0 \<le> n" "n \<le> 3" "0 \<le> d - c * n" "d - c * n < c \<or> n = 3 \<and> d - c * n = c"
proof -
  define q where "q = d div c"
  have lo: "c * q \<le> d" and hi: "d < c * q + c"
    using assms(1) mult_div_mod_eq [of c d] pos_mod_bound [of c d] pos_mod_sign [of c d]
    unfolding q_def by linarith+
  have "0 \<le> q" using assms(1,2) by (simp add: q_def pos_imp_zdiv_nonneg_iff)
  moreover have "q \<le> 4"
  proof (rule ccontr)
    assume "\<not> q \<le> 4"
    then have "c * 5 \<le> c * q" using assms(1) by (intro mult_left_mono) auto
    with lo assms(1,3) show False by linarith
  qed
  ultimately consider "q \<le> 3" "0 \<le> q" | "q = 4" by linarith
  then have "0 \<le> n \<and> n \<le> 3 \<and> 0 \<le> d - c * n \<and> (d - c * n < c \<or> n = 3 \<and> d - c * n = c)"
  proof cases
    case 1
    then have "n = q" by (simp add: n q_def [symmetric])
    with 1 lo hi show ?thesis by simp
  next
    case 2
    then have "n = 3" by (simp add: n q_def [symmetric])
    with 2 lo hi assms(3) show ?thesis by simp
  qed
  then show "0 \<le> n" "n \<le> 3" "0 \<le> d - c * n" "d - c * n < c \<or> n = 3 \<and> d - c * n = c"
    by auto
qed

lemma year_yday_inverse:
  "days_before_year (fst (year_yday d)) + snd (year_yday d) = d
   \<and> 0 \<le> snd (year_yday d)
   \<and> snd (year_yday d) < (if is_leap (fst (year_yday d)) then 366 else 365)"
proof -
  define n400 where "n400 = d div 146097"
  define d1 where "d1 = d - 146097 * n400"
  define n100 where "n100 = d1 div 36524 - d1 div 36524 div 4"
  define d2 where "d2 = d1 - 36524 * n100"
  define n4 where "n4 = d2 div 1461"
  define d3 where "d3 = d2 - 1461 * n4"
  define n1 where "n1 = d3 div 365 - d3 div 365 div 4"
  define yd where "yd = d3 - 365 * n1"
  define y where "y = 400 * n400 + 100 * n100 + 4 * n4 + n1 + 1"
  have yy: "year_yday d = (y, yd)"
    by (simp only: year_yday_def n400_def [symmetric] d1_def [symmetric] n100_def [symmetric]
        d2_def [symmetric] n4_def [symmetric] d3_def [symmetric] n1_def [symmetric]
        yd_def [symmetric] y_def [symmetric] Let_def)
  have d1: "0 \<le> d1" "d1 < 146097"
    by (simp_all add: d1_def n400_def minus_mult_div_eq_mod)
  have n100: "0 \<le> n100" "n100 \<le> 3" "0 \<le> d2" "d2 < 36524 \<or> n100 = 3 \<and> d2 = 36524"
    by (rule clamped_cycle [OF _ _ _ n100_def, folded d2_def]; use d1 in simp)+
  have n4: "0 \<le> n4" "n4 \<le> 24" "0 \<le> d3" "d3 \<le> 1460" "n4 = 24 \<Longrightarrow> n100 < 3 \<Longrightarrow> d3 < 1460"
    using n100(3,4) unfolding d3_def n4_def by linarith+
  have n1: "0 \<le> n1" "n1 \<le> 3" "0 \<le> yd" "yd < 365 \<or> n1 = 3 \<and> yd = 365"
    by (rule clamped_cycle [OF _ _ _ n1_def, folded yd_def]; use n4 in simp)+
  have k: "y - 1 = 400 * n400 + 100 * n100 + 4 * n4 + n1" by (simp add: y_def)
  have "(y - 1) div 4 = 100 * n400 + 25 * n100 + n4"
    by (rule int_div_pos_eq [where r = n1]) (use k n1 in auto)
  moreover have "(y - 1) div 100 = 4 * n400 + n100"
    by (rule int_div_pos_eq [where r = "4 * n4 + n1"]) (use k n1 n4 in auto)
  moreover have "(y - 1) div 400 = n400"
    by (rule int_div_pos_eq [where r = "100 * n100 + 4 * n4 + n1"]) (use k n1 n4 n100 in auto)
  ultimately have "days_before_year y = 146097 * n400 + 36524 * n100 + 1461 * n4 + 365 * n1"
    unfolding days_before_year_def Let_def by (simp add: k)
  then have sum: "days_before_year y + yd = d"
    by (simp add: yd_def d3_def d2_def d1_def)
  have "is_leap y" if "yd = 365"
  proof -
    from that n1 have "n1 = 3" "d3 = 1460" by (auto simp: yd_def)
    with n4(2,5) n100(2) have or: "n4 < 24 \<or> n4 = 24 \<and> n100 = 3" by fastforce
    have y4: "y = 4 * (100 * n400 + 25 * n100 + n4 + 1)" using \<open>n1 = 3\<close> by (simp add: y_def)
    then have "y mod 4 = 0" by simp
    moreover have "y mod 100 = 4 * n4 + 4" if "n4 < 24"
      by (rule int_mod_pos_eq [where q = "4 * n400 + n100"]) (use that y4 n4(1) in auto)
    moreover have "y mod 400 = 0" if "n4 = 24" "n100 = 3"
      using y4 that by simp
    ultimately show ?thesis
      using or n4(1) unfolding is_leap_def by auto
  qed
  with n1 sum show ?thesis by (auto simp: yy)
qed

text \<open>The month table: every day of the year lies in its month, and the position adds up.\<close>

definition month_ok :: "bool \<Rightarrow> int \<Rightarrow> bool" where
  "month_ok leap yday =
     (let (m, d) = month_day leap yday
      in 1 \<le> m \<and> m \<le> 12 \<and> 1 \<le> d \<and> d \<le> 31
         \<and> days_before ! nat (m - 1) + (if leap \<and> 2 \<le> m - 1 then 1 else 0) + d - 1 = yday)"

lemma common_month:
  fixes day :: int
  assumes "0 \<le> day" and "day < 365"
  defines "m \<equiv> day div 31"
  defines "b \<equiv> (if days_before ! nat (m + 1) \<le> day then m + 1 else m)"
  shows "0 \<le> m \<and> 0 \<le> b \<and> b \<le> 11 \<and> days_before ! nat b \<le> day \<and> day \<le> days_before ! nat b + 30
    \<and> (2 \<le> b \<longleftrightarrow> 59 \<le> day)"
proof -
  have lo: "31 * m \<le> day" and hi: "day < 31 * m + 31"
    unfolding m_def by linarith+
  with assms(1,2) have "0 \<le> m" "m < 12" by linarith+
  then obtain k where "m = int k" "k < 12" by (metis nat_0_le nat_less_iff of_nat_numeral)
  then have "m = 0 \<or> m = 1 \<or> m = 2 \<or> m = 3 \<or> m = 4 \<or> m = 5 \<or> m = 6 \<or> m = 7
    \<or> m = 8 \<or> m = 9 \<or> m = 10 \<or> m = 11"
    by (simp add: eval_nat_numeral less_Suc_eq)
  then show ?thesis
    using lo hi assms(1,2) by (elim disjE) (simp_all add: b_def days_before_def)
qed

lemma month_ok_all:
  assumes "0 \<le> yday" and "yday < (if leap then 366 else 365)"
  shows "month_ok leap yday"
proof (cases "leap \<and> yday = 59")
  case True
  then show ?thesis by (simp add: month_ok_def month_day_def days_before_def)
next
  case False
  define day where "day = (if leap \<and> 59 < yday then yday - 1 else yday)"
  have day: "0 \<le> day" "day < 365" "yday = day + (if leap \<and> 59 \<le> day then 1 else 0)"
    using assms False by (auto simp: day_def split: if_splits)
  define b where "b = (if days_before ! nat (day div 31 + 1) \<le> day then day div 31 + 1
    else day div 31)"
  have "month_day leap yday = (b + 1, day - days_before ! nat b + 1)"
    unfolding month_day_def Let_def day_def [symmetric] if_not_P [OF False] b_def by simp
  moreover note common_month [OF day(1,2), folded b_def]
  ultimately show ?thesis
    by (simp add: month_ok_def day(3))
qed

text \<open>The day number of the date of a day is the day: the calendar loses nothing.\<close>

lemma days_of_civil_of_days:
  assumes "civil_of_days n = (y, m, d)"
  shows "days_of_civil y m d = n \<and> 1 \<le> m \<and> m \<le> 12 \<and> 1 \<le> d \<and> d \<le> 31"
proof -
  obtain yday where yy: "year_yday (n + unix_epoch_days) = (y, yday)"
    and md: "month_day (is_leap y) yday = (m, d)"
    using assms by (auto simp: civil_of_days_def split: prod.splits)
  from year_yday_inverse [of "n + unix_epoch_days"] yy
  have sum: "days_before_year y + yday = n + unix_epoch_days"
    and range: "0 \<le> yday" "yday < (if is_leap y then 366 else 365)" by auto
  from month_ok_all [OF range] md
  have m: "1 \<le> m" "m \<le> 12" "1 \<le> d" "d \<le> 31"
    "days_before ! nat (m - 1) + (if is_leap y \<and> 2 \<le> m - 1 then 1 else 0) + d - 1 = yday"
    by (auto simp: month_ok_def)
  from m(1,2) have "(m - 1) div 12 = 0" "(m - 1) mod 12 = m - 1" by auto
  with m sum show ?thesis by (simp add: days_of_civil_def Let_def)
qed

lemma civil_of_days_inject: "civil_of_days a = civil_of_days b \<longleftrightarrow> a = b"
  by (metis days_of_civil_of_days prod_cases3)

subsection \<open>Hours and days of an instant\<close>

lemma time_day_pos [simp]: "0 < time_day" "0 < time_hour" "0 < time_second"
  by (simp_all add: time_day_def time_hour_def time_second_def)

text \<open>The hour is the number of whole hours since the epoch, modulo 24.\<close>

lemma hours_since_epoch: "time_hour_of t = (t div time_hour) mod 24"
proof -
  have "t mod (time_hour * 24) = time_hour * (t div time_hour mod 24) + t mod time_hour"
    by (rule zmod_zmult2_eq) simp
  moreover have "t mod time_hour div time_hour = 0"
    by (simp add: div_pos_pos_trivial)
  ultimately show ?thesis
    by (simp add: time_hour_of_def time_day_def mult.commute [of 24] time_day_pos(2)
        less_imp_neq [OF time_day_pos(2), symmetric])
qed

lemma time_hour_of_range: "0 \<le> time_hour_of t \<and> time_hour_of t < 24"
  by (simp add: hours_since_epoch)

lemma hour_of_truncate_add:
  "time_hour_of (time_add (time_truncate t time_hour) (time_hour * h)) = (time_hour_of t + h) mod 24"
proof -
  have "t - t mod time_hour + time_hour * h = (t div time_hour + h) * time_hour"
    by (simp add: minus_mod_eq_mult_div algebra_simps)
  then have "(t - t mod time_hour + time_hour * h) div time_hour = t div time_hour + h"
    by (metis nonzero_mult_div_cancel_right time_day_pos(2) less_irrefl)
  then show ?thesis
    using time_day_pos(2)
    by (simp only: hours_since_epoch time_add_def time_truncate_def mod_add_left_eq
        not_le [symmetric] if_False)
qed

section \<open>Formatting\<close>

definition pad2 :: "int \<Rightarrow> string" where
  "pad2 i = (if 0 \<le> i \<and> i < 10 then CHR ''0'' # itoa i else itoa i)"

definition pad4 :: "int \<Rightarrow> string" where
  "pad4 i = (if 0 \<le> i \<and> i < 10 then ''000'' @ itoa i else if 0 \<le> i \<and> i < 100 then ''00'' @ itoa i
     else if 0 \<le> i \<and> i < 1000 then CHR ''0'' # itoa i else itoa i)"

text \<open>\<open>Format("2006-01-02")\<close> and \<open>Format("2006-01-02 15:04:05")\<close>, for years from 0 on.\<close>

definition format_date :: "time \<Rightarrow> string" where
  "format_date t = (let (y, m, d) = civil_of_days (time_days t)
     in pad4 y @ ''-'' @ pad2 m @ ''-'' @ pad2 d)"

definition format_date_time :: "time \<Rightarrow> string" where
  "format_date_time t = format_date t @ '' '' @ pad2 (time_hour_of t) @ '':''
     @ pad2 (time_min_of t) @ '':'' @ pad2 (time_sec_of t)"

lemmas format_defs [go_defs] = pad2_def pad4_def format_date_def format_date_time_def
  digit_char_def itoa_def itoa_nat.simps

end
