(* ===== verification/Types.thy ===== *)
theory Types
  imports Go_Url Go_Time
begin

text \<open>
  The data every component passes around (directory \<open>types/\<close>): the request of a beacon, and the
  subscriptions of owners. \<open>time.Now()\<close> and \<open>uuid.NewString()\<close> are arguments.
\<close>

section \<open>types/event.go\<close>

record event =
  RequestParameters :: url_values
  Headers :: header
  UserAgent :: string
  RemoteAddr :: string

definition new_event :: "url_values \<Rightarrow> header \<Rightarrow> string \<Rightarrow> string \<Rightarrow> event" where
  "new_event requestParameters hdrs userAgent remoteAddr =
     \<lparr>RequestParameters = requestParameters, Headers = hdrs, UserAgent = userAgent,
      RemoteAddr = remoteAddr\<rparr>"

section \<open>types/owner\_hostname.go\<close>

definition subscription_trial_months :: int where
  "subscription_trial_months = 3"

record subscription =
  sub_ID :: string
  ExpiresAt :: time

record subscription_with_hostname =
  swh_Subscription :: subscription
  swh_Hostname :: string

record owner_hostname =
  oh_Username :: string
  oh_Hostname :: string
  oh_Subscription :: subscription

definition generate_subscription_id :: "string \<Rightarrow> time \<Rightarrow> string" where
  "generate_subscription_id uuid expiresAt = format_date expiresAt @ ''|'' @ uuid"

definition new_subscription :: "string \<Rightarrow> time \<Rightarrow> subscription" where
  "new_subscription uuid now =
     (let expiresAt = add_date now 0 subscription_trial_months 0
      in \<lparr>sub_ID = generate_subscription_id uuid expiresAt, ExpiresAt = expiresAt\<rparr>)"

definition subscription_expired :: "time \<Rightarrow> subscription \<Rightarrow> bool" where
  "subscription_expired now s = time_after now (ExpiresAt s)"

definition new_owner_hostname :: "string \<Rightarrow> string \<Rightarrow> subscription \<Rightarrow> owner_hostname" where
  "new_owner_hostname username hostname sub =
     \<lparr>oh_Username = username, oh_Hostname = hostname, oh_Subscription = sub\<rparr>"

text \<open>The zero value of \<open>types.Subscription\<close>; \<open>time.Time{}\<close> is the first of January of year 1.\<close>

definition zero_time :: time where
  "zero_time = - unix_epoch_days * time_day"

definition zero_subscription :: subscription where
  "zero_subscription = \<lparr>sub_ID = [], ExpiresAt = zero_time\<rparr>"

lemmas types_defs [go_defs] = new_event_def subscription_trial_months_def
  generate_subscription_id_def new_subscription_def subscription_expired_def new_owner_hostname_def
  zero_time_def zero_subscription_def

section \<open>A trial of three months\<close>

text \<open>Three civil months later, as a number of days: 89 to 92 days.\<close>

lemma month_cases:
  fixes m :: int
  assumes "1 \<le> m" and "m \<le> 12"
  shows "m = 1 \<or> m = 2 \<or> m = 3 \<or> m = 4 \<or> m = 5 \<or> m = 6 \<or> m = 7 \<or> m = 8 \<or> m = 9 \<or> m = 10
    \<or> m = 11 \<or> m = 12"
  using assms by presburger

lemma days_of_civil_Jan: "days_of_civil y 1 d = days_before_year y + d - 1 - unix_epoch_days"
  by (simp add: days_of_civil_def days_before_def Let_def)

lemma div_pred:
  fixes y n :: int
  assumes "0 < n"
  shows "y div n = (y - 1) div n + (if y mod n = 0 then 1 else 0)"
proof (cases "y mod n = 0")
  case True
  have "y - 1 = n * (y div n - 1) + (n - 1)" using True mult_div_mod_eq [of n y]
    by (simp add: right_diff_distrib)
  then have "(y - 1) div n = y div n - 1" using assms
    by (intro int_div_pos_eq [where r = "n - 1"]) auto
  with True show ?thesis by simp
next
  case False
  with assms have "0 < y mod n" by (simp add: order_less_le)
  moreover have "y - 1 = n * (y div n) + (y mod n - 1)" by simp
  ultimately have "(y - 1) div n = y div n"
    using pos_mod_bound [OF assms, of y] by (intro int_div_pos_eq [where r = "y mod n - 1"]) linarith+
  with False show ?thesis by simp
qed

lemma leap_days:
  fixes y a b c :: int
  assumes "by_full \<Longrightarrow> by_cent" and "by_cent \<Longrightarrow> by_four"
  shows "365 * y + (a + (if by_four then 1 else 0)) - (b + (if by_cent then 1 else 0))
      + (c + (if by_full then 1 else 0))
    = 365 * (y - 1) + a - b + c + (if by_four \<and> (\<not> by_cent \<or> by_full) then 366 else 365)"
  using assms by (cases by_full; cases by_cent; cases by_four) simp_all

lemma year_length: "days_before_year (y + 1) = days_before_year y + (if is_leap y then 366 else 365)"
proof -
  have "y mod 400 = 0 \<Longrightarrow> y mod 100 = 0" "y mod 100 = 0 \<Longrightarrow> y mod 4 = 0"
    using mod_mod_cancel [of 100 400 y] mod_mod_cancel [of 4 100 y] by simp_all
  from leap_days [where by_full = "y mod 400 = 0" and by_cent = "y mod 100 = 0" and by_four = "y mod 4 = 0"
      and y = y and a = "(y - 1) div 4"
      and b = "(y - 1) div 100" and c = "(y - 1) div 400", OF this]
  show ?thesis
    unfolding days_before_year_def is_leap_def Let_def add_diff_cancel_right'
    by (simp only: div_pred [symmetric] zero_less_numeral)
qed

lemma trial_length:
  assumes "1 \<le> m" and "m \<le> 12"
  shows "days_of_civil y m d + 89 \<le> days_of_civil y (m + 3) d
    \<and> days_of_civil y (m + 3) d \<le> days_of_civil y m d + 92"
  using month_cases [OF assms] year_length [of y]
  by (elim disjE) (simp_all add: days_of_civil_def days_before_def Let_def)

text \<open>A new subscription runs for at least 89 and at most 92 days from its creation.\<close>

lemma subscription_days:
  "now + 89 * time_day \<le> ExpiresAt (new_subscription uuid now)
   \<and> ExpiresAt (new_subscription uuid now) \<le> now + 92 * time_day"
proof -
  obtain y m d where c: "civil_of_days (time_days now) = (y, m, d)" by (metis prod_cases3)
  note r = days_of_civil_of_days [OF c]
  have now: "now = time_days now * time_day + now mod time_day" by (simp add: time_days_def)
  have e: "ExpiresAt (new_subscription uuid now)
      = days_of_civil y (m + 3) d * time_day + now mod time_day"
    by (simp add: new_subscription_def add_date_def c subscription_trial_months_def Let_def)
  from r trial_length [of m y d]
  have "(time_days now + 89) * time_day \<le> days_of_civil y (m + 3) d * time_day
      \<and> days_of_civil y (m + 3) d * time_day \<le> (time_days now + 92) * time_day"
    by (intro conjI mult_right_mono) (auto simp: less_imp_le)
  with e now show ?thesis by (simp add: algebra_simps)
qed


end
