(* ===== verification/Beacon.thy ===== *)
theory Beacon
  imports Types
begin

text \<open>
  The first half of \<open>beacon/beacon.go\<close>: the beacon and its reading out of the request parameters.
  Field \<open>F\<close> of the struct \<open>Beacon\<close> is the field \<open>b_F\<close>.
\<close>

section \<open>The beacon\<close>

record beacon =
  b_Mob_Etype :: string
  b_Mob_Dl :: string
  b_Mob_Rtt :: string
  b_Pt_Lcp :: string
  b_Pt_Fp :: string
  b_Pt_Fcp :: string
  b_C_E :: string
  b_C_L :: string
  b_C_Lb :: string
  b_C_Tti_M :: string
  b_C_Tti :: string
  b_C_Tti_Vr :: string
  b_C_T_Fps :: string
  b_C_F :: string
  b_C_F_D :: string
  b_C_F_M :: string
  b_C_F_L :: string
  b_C_F_S :: string
  b_C_Cls :: string
  b_C_Fid :: string
  b_Et_Fid :: string
  b_Et_E :: string
  b_Rt_Start :: string
  b_Rt_Bmr :: string
  b_Rt_Tstart :: string
  b_Rt_Bstart :: string
  b_Rt_Blstart :: string
  b_Rt_End :: string
  b_Rt_Tt :: string
  b_Rt_Obo :: string
  b_Rt_Si :: string
  b_Rt_Ss :: string
  b_Rt_Sl :: string
  b_Rt_Quit :: bool
  b_U :: string
  b_T_Resp :: string
  b_T_Page :: string
  b_T_Done :: string
  b_T_Other :: string
  b_V :: string
  b_Restiming :: string
  b_CreatedAt :: string
  b_Sv :: string
  b_Sm :: string
  b_Vis_St :: string
  b_Ua_Plt :: string
  b_Ua_Vnd :: string
  b_Pid :: string
  b_N :: string
  b_Http_Initiator :: string
  b_Nt_Nav_St :: string
  b_Nt_Fet_St :: string
  b_Nt_Dns_St :: string
  b_Nt_Dns_End :: string
  b_Nt_Con_St :: string
  b_Nt_Con_End :: string
  b_Nt_Req_St :: string
  b_Nt_Res_St :: string
  b_Nt_Res_End :: string
  b_Nt_Domloading :: string
  b_Nt_Domint :: string
  b_Nt_Domcontloaded_St :: string
  b_Nt_Domcontloaded_End :: string
  b_Nt_Domcomp :: string
  b_Nt_Load_St :: string
  b_Nt_Load_End :: string
  b_Nt_Unload_St :: string
  b_Nt_Unload_End :: string
  b_Nt_Ssl_St :: string
  b_Nt_Enc_Size :: string
  b_Nt_Dec_Size :: string
  b_Nt_Trn_Size :: string
  b_Nt_Protocol :: string
  b_Nt_First_Paint :: string
  b_Nt_Red_Cnt :: string
  b_Nt_Nav_Type :: string
  b_Dom_Res :: string
  b_Dom_Doms :: string
  b_Mem_Total :: string
  b_Mem_Limit :: string
  b_Mem_Used :: string
  b_Mem_Lsln :: string
  b_Mem_Ssln :: string
  b_Mem_Lssz :: string
  b_Mem_Sssz :: string
  b_Scr_Xy :: string
  b_Scr_Bpp :: string
  b_Scr_Orn :: string
  b_Cpu_Cnc :: string
  b_Dom_Ln :: string
  b_Dom_Sz :: string
  b_Dom_Ck :: string
  b_Dom_Img :: string
  b_Dom_Img_Uniq :: string
  b_Dom_Script :: string
  b_Dom_Script_Ext :: string
  b_Dom_Iframe :: string
  b_Dom_Link :: string
  b_Dom_Link_Css :: string
  b_Net_Sd :: string
  b_Sb :: string
  b_Up :: string
  b_Latency :: string
  b_StatusCode :: string
  b_Cdir :: string
  b_Ans :: string

definition from_event :: "event \<Rightarrow> beacon" where
  "from_event e =
     (let values = RequestParameters e
      in \<lparr>b_Mob_Etype = values_get values ''mob.etype'',
          b_Mob_Dl = values_get values ''mob.dl'',
          b_Mob_Rtt = values_get values ''mob.rtt'',
          b_Pt_Lcp = values_get values ''pt.lcp'',
          b_Pt_Fp = values_get values ''pt.fp'',
          b_Pt_Fcp = values_get values ''pt.fcp'',
          b_C_E = values_get values ''c.e'',
          b_C_L = [],
          b_C_Lb = [],
          b_C_Tti_M = values_get values ''c.tti.m'',
          b_C_Tti = values_get values ''c.tti'',
          b_C_Tti_Vr = values_get values ''c.tti.vr'',
          b_C_T_Fps = values_get values ''c.t.fps'',
          b_C_F = values_get values ''c.f'',
          b_C_F_D = values_get values ''c.f.d'',
          b_C_F_M = values_get values ''c.f.m'',
          b_C_F_L = [],
          b_C_F_S = values_get values ''c.f.s'',
          b_C_Cls = values_get values ''c.cls'',
          b_C_Fid = values_get values ''c.fid'',
          b_Et_Fid = values_get values ''et.fid'',
          b_Et_E = values_get values ''et.e'',
          b_Rt_Start = values_get values ''navigation'',
          b_Rt_Bmr = values_get values ''rt.bmr'',
          b_Rt_Tstart = values_get values ''rt.tstart'',
          b_Rt_Bstart = values_get values ''rt.bstart'',
          b_Rt_Blstart = values_get values ''rt.blstart'',
          b_Rt_End = values_get values ''rt.end'',
          b_Rt_Tt = values_get values ''rt.tt'',
          b_Rt_Obo = values_get values ''rt.obo'',
          b_Rt_Si = values_get values ''rt.si'',
          b_Rt_Ss = values_get values ''rt.ss'',
          b_Rt_Sl = values_get values ''rt.sl'',
          b_Rt_Quit = values_has values ''rt.quit'',
          b_U = values_get values ''u'',
          b_T_Resp = values_get values ''t_resp'',
          b_T_Page = values_get values ''t_page'',
          b_T_Done = values_get values ''t_done'',
          b_T_Other = values_get values ''t_other'',
          b_V = values_get values ''v'',
          b_Restiming = values_get values ''restiming'',
          b_CreatedAt = values_get values ''created_at'',
          b_Sv = values_get values ''sv'',
          b_Sm = values_get values ''sm'',
          b_Vis_St = values_get values ''vis.st'',
          b_Ua_Plt = values_get values ''ua.plt'',
          b_Ua_Vnd = values_get values ''ua.vnd'',
          b_Pid = values_get values ''pid'',
          b_N = values_get values ''n'',
          b_Http_Initiator = values_get values ''http_initiator'',
          b_Nt_Nav_St = values_get values ''nt_nav_st'',
          b_Nt_Fet_St = values_get values ''nt_fet_st'',
          b_Nt_Dns_St = values_get values ''nt_dns_st'',
          b_Nt_Dns_End = values_get values ''nt_dns_end'',
          b_Nt_Con_St = values_get values ''nt_con_st'',
          b_Nt_Con_End = values_get values ''nt_con_end'',
          b_Nt_Req_St = values_get values ''nt_req_st'',
          b_Nt_Res_St = values_get values ''nt_res_st'',
          b_Nt_Res_End = values_get values ''nt_res_end'',
          b_Nt_Domloading = values_get values ''nt_domloading'',
          b_Nt_Domint = values_get values ''nt_domint'',
          b_Nt_Domcontloaded_St = values_get values ''nt_domcontloaded_st'',
          b_Nt_Domcontloaded_End = values_get values ''nt_domcontloaded_end'',
          b_Nt_Domcomp = values_get values ''nt_domcomp'',
          b_Nt_Load_St = values_get values ''nt_load_st'',
          b_Nt_Load_End = values_get values ''nt_load_end'',
          b_Nt_Unload_St = values_get values ''nt_unload_st'',
          b_Nt_Unload_End = values_get values ''nt_unload_end'',
          b_Nt_Ssl_St = values_get values ''nt_ssl_st'',
          b_Nt_Enc_Size = values_get values ''nt_enc_size'',
          b_Nt_Dec_Size = values_get values ''nt_dec_size'',
          b_Nt_Trn_Size = values_get values ''nt_trn_size'',
          b_Nt_Protocol = values_get values ''nt_protocol'',
          b_Nt_First_Paint = values_get values ''nt_first_paint'',
          b_Nt_Red_Cnt = values_get values ''nt_red_cnt'',
          b_Nt_Nav_Type = values_get values ''nt_nav_type'',
          b_Dom_Res = values_get values ''dom.res'',
          b_Dom_Doms = values_get values ''dom.doms'',
          b_Mem_Total = values_get values ''mem.total'',
          b_Mem_Limit = values_get values ''mem.limit'',
          b_Mem_Used = values_get values ''mem.used'',
          b_Mem_Lsln = values_get values ''mem.lsln'',
          b_Mem_Ssln = values_get values ''mem.ssln'',
          b_Mem_Lssz = values_get values ''mem.lssz'',
          b_Mem_Sssz = values_get values ''mem.sssz'',
          b_Scr_Xy = values_get values ''scr.xy'',
          b_Scr_Bpp = values_get values ''scr.bpp'',
          b_Scr_Orn = values_get values ''scr.orn'',
          b_Cpu_Cnc = values_get values ''cpu.cnc'',
          b_Dom_Ln = values_get values ''dom.ln'',
          b_Dom_Sz = values_get values ''dom.sz'',
          b_Dom_Ck = values_get values ''dom.ck'',
          b_Dom_Img = values_get values ''dom.img'',
          b_Dom_Img_Uniq = values_get values ''dom.img.uniq'',
          b_Dom_Script = values_get values ''dom.script'',
          b_Dom_Script_Ext = values_get values ''dom.script.ext'',
          b_Dom_Iframe = values_get values ''dom.iframe'',
          b_Dom_Link = values_get values ''dom.link'',
          b_Dom_Link_Css = values_get values ''dom.link.css'',
          b_Net_Sd = values_get values ''net.sd'',
          b_Sb = values_get values ''sb'',
          b_Up = values_get values ''up'',
          b_Latency = values_get values ''latency'',
          b_StatusCode = values_get values ''status_code'',
          b_Cdir = values_get values ''cdir'',
          b_Ans = values_get values ''ans''\<rparr>)"

end
