(* ===== verification/Geoip.thy ===== *)
theory Geoip
  imports Types
begin

text \<open>
  The geo ip services (directory \<open>geoip/\<close>): an interface, the service reading Cloudflare's headers,
  the one reading the embedded MaxMind database, and the composite that asks one and then the other.
  The MaxMind reader and \<open>net.ParseIP\<close> are arguments.
\<close>

section \<open>geoip/interface.go\<close>

type_synonym geo_answer = "string \<times> string \<times> go_error option"

type_synonym geo_service = "header \<Rightarrow> string \<Rightarrow> geo_answer"

text \<open>
  The contract: an answer with an error carries neither country nor city. The beacon conversion
  relies on it, since it stores the country and the city without looking at the error.
\<close>

locale geoip_service =
  fixes lookup :: geo_service
  assumes error_empty: "lookup h ip = (country, city, Some e) \<Longrightarrow> country = [] \<and> city = []"
begin

lemma place_means_success:
  "lookup h ip = (country, city, err) \<Longrightarrow> country \<noteq> [] \<or> city \<noteq> [] \<Longrightarrow> err = None"
  using error_empty by (cases err) blast+

end

section \<open>geoip/cloudflare/cloudflare.go\<close>

definition cleanup_header_value :: "string \<Rightarrow> string" where
  "cleanup_header_value hVal =
     (let hVal = trim_space hVal;
          hVal = trim_prefix hVal [CHR 0x22];
          hVal = trim_suffix hVal [CHR 0x22]
      in trim_space hVal)"

definition cloudflare :: geo_service where
  "cloudflare hdr ip =
     (let country = cleanup_header_value (header_get hdr ''CF-IPCountry'');
          city = cleanup_header_value (header_get hdr ''CF-IPCity'')
      in (country, city, None))"

section \<open>geoip/maxmind/maxmind.go\<close>

record geo_city =
  IsoCode :: string
  Names :: "string \<Rightarrow> string"

definition maxmind :: "(go_error + (string \<Rightarrow> go_error + geo_city)) \<Rightarrow> (string \<Rightarrow> string option)
    \<Rightarrow> geo_service" where
  "maxmind fromBytes parseIP hdr ipString =
     (case fromBytes of
        Inl err \<Rightarrow> ([], [], Some err)
      | Inr db \<Rightarrow>
          (case parseIP ipString of
             None \<Rightarrow> ([], [], Some (''cannot parse ip['' @ ipString @ '']''))
           | Some ip \<Rightarrow>
               (case db ip of
                  Inl err \<Rightarrow> ([], [], Some err)
                | Inr rec \<Rightarrow> (IsoCode rec, Names rec ''en'', None))))"

section \<open>geoip/composite.go\<close>

definition composite :: "geo_service \<Rightarrow> geo_service \<Rightarrow> geo_service" where
  "composite primary next hdr ipString =
     (case primary hdr ipString of
        (country, city, err) \<Rightarrow>
          if err \<noteq> None \<or> country = [] \<and> city = [] then next hdr ipString
          else (country, city, err))"

lemmas geoip_defs [go_defs] = cleanup_header_value_def cloudflare_def maxmind_def composite_def

section \<open>Every service keeps the contract\<close>

interpretation cf: geoip_service cloudflare
  by unfold_locales (auto simp: cloudflare_def Let_def)

interpretation mm: geoip_service "maxmind fromBytes parseIP" for fromBytes parseIP
  by unfold_locales (auto simp: maxmind_def split: sum.splits option.splits)

text \<open>A chain of two services is a service, whatever the first one does with its errors.\<close>

locale geoip_chain = n: geoip_service "next" for "next" :: geo_service +
  fixes primary :: geo_service

sublocale geoip_chain \<subseteq> chained: geoip_service "composite primary next"
  by unfold_locales (auto simp: composite_def split: prod.splits if_splits dest: n.error_empty)

interpretation mc: geoip_chain "maxmind fromBytes parseIP" cloudflare for fromBytes parseIP
  by unfold_locales

text \<open>The place that the headers name.\<close>

definition cloudflare_place :: "header \<Rightarrow> string \<times> string" where
  "cloudflare_place hdr = (cleanup_header_value (header_get hdr ''CF-IPCountry''),
     cleanup_header_value (header_get hdr ''CF-IPCity''))"

text \<open>
  What \<open>main\<close> installs, \<open>composite cloudflare maxmind\<close>, answers from the headers exactly when they
  name a place, and has no error then.
\<close>

theorem composite_cloudflare:
  "composite cloudflare next hdr ip =
     (if cloudflare_place hdr = ([], []) then next hdr ip
      else (fst (cloudflare_place hdr), snd (cloudflare_place hdr), None))"
  by (simp add: composite_def cloudflare_def cloudflare_place_def Let_def)

lemma composite_never_partial:
  "composite cloudflare (maxmind fromBytes parseIP) hdr ip = (country, city, Some e)
     \<Longrightarrow> country = [] \<and> city = []"
  by (rule mc.chained.error_empty)

end
