(* ===== verification/Rum_Event.thy ===== *)
theory Rum_Event
  imports Beacon Geoip "HOL-Library.Word"
begin

text \<open>
  The second half of \<open>beacon/beacon.go\<close>, \<open>beacon/rum\_event.go\<close>, \<open>beacon/hostname\_event.go\<close> and
  \<open>service/rum\_event\_factory.go\<close>: the conversion of a beacon to the event that is stored. Field \<open>F\<close> of
  the struct \<open>RumEvent\<close> is \<open>re_F\<close>; a \<open>json.Number\<close> is its text. The two user agent parsers are
  third-party: the first is never called (its call is commented out in the source), the second is the
  argument of \<open>get_device_type\<close>.
\<close>

section \<open>The stored events\<close>

record rum_event =
  re_Created_At :: string
  re_Hostname :: string
  re_SubscriptionID :: string
  re_Country :: string
  re_Geo_City_Name :: string
  re_Device_Type :: string
  re_Latency :: string
  re_StatusCode :: string
  re_Up :: string
  re_Cdir :: string
  re_Ans :: string

record hostname_event =
  he_Hostname :: string
  he_UpdatedAt :: string

definition new_hostname_event :: "string \<Rightarrow> string \<Rightarrow> hostname_event" where
  "new_hostname_event hostname updatedAt = \<lparr>he_Hostname = hostname, he_UpdatedAt = updatedAt\<rparr>"

text \<open>
  An error of \<open>url.Parse\<close> is logged, and the nil \<open>*url.URL\<close> that comes with it is used: its method
  \<open>Hostname\<close> dereferences it. \<open>geoIPService\<close> may be nil.
\<close>

definition convert_to_rum_event :: "beacon \<Rightarrow> event \<Rightarrow> geo_service option \<Rightarrow> rum_event run" where
  "convert_to_rum_event b e geoIPService =
     (case url_parse (b_U b) of
        Inl err \<Rightarrow> Panic ''nil pointer dereference''
      | Inr urlValue \<Rightarrow>
          let hostname = url_hostname urlValue;
              (country, city) = (case geoIPService of
                  None \<Rightarrow> ([], [])
                | Some lookup \<Rightarrow> (case lookup (Headers e) (RemoteAddr e) of (co, ci, err) \<Rightarrow> (co, ci)))
          in Value \<lparr>re_Created_At = b_CreatedAt b, re_Hostname = hostname, re_SubscriptionID = [],
               re_Country = country, re_Geo_City_Name = city, re_Device_Type = [],
               re_Latency = b_Latency b, re_StatusCode = b_StatusCode b, re_Up = b_Up b,
               re_Cdir = b_Cdir b, re_Ans = b_Ans b\<rparr>)"

section \<open>The helpers of the conversion\<close>

definition calculate_delta :: "string \<Rightarrow> string \<Rightarrow> string" where
  "calculate_delta p1 p2 =
     (if p2 = [] \<or> p1 = [] then []
      else
        let end' = (of_int (fst (atoi p2)) :: 64 word);
            start = (of_int (fst (atoi p1)) :: 64 word);
            v = end' - start;
            v = (if sint v < 0 then 0 else v);
            v = (if sint v > 65535 then 65535 else v)
        in itoa (sint v))"

record ua_result =
  Mobile :: bool
  Tablet :: bool
  Desktop :: bool
  Bot :: bool

definition get_device_type :: "(string \<Rightarrow> ua_result) \<Rightarrow> string \<Rightarrow> string" where
  "get_device_type ua_parse uagent =
     (let mileusnaUaRes = ua_parse uagent;
          dT = ''unknown'';
          dT = (if Mobile mileusnaUaRes then ''mobile'' else dT);
          dT = (if Tablet mileusnaUaRes then ''tablet'' else dT);
          dT = (if Desktop mileusnaUaRes then ''desktop'' else dT);
          dT = (if Bot mileusnaUaRes then ''bot'' else dT)
      in dT)"

definition get_screen_size :: "string \<Rightarrow> string \<times> string" where
  "get_screen_size scr_X_Y =
     (let s = split_on CHR ''x'' scr_X_Y
      in if length s = 2 then (s ! 0, s ! 1) else ([], []))"

definition get_event_type :: "bool \<Rightarrow> string \<Rightarrow> string" where
  "get_event_type isQuit httpInitiator =
     (if length httpInitiator > 0 then httpInitiator
      else if isQuit then ''quit_page''
      else ''visit_page'')"

section \<open>service/rum\_event\_factory.go\<close>

definition create_rum_event :: "geo_service option \<Rightarrow> event \<Rightarrow> rum_event run" where
  "create_rum_event geoIPService e =
     (let beaconEvent = from_event e in convert_to_rum_event beaconEvent e geoIPService)"

lemmas rum_event_defs [go_defs] = new_hostname_event_def convert_to_rum_event_def
  calculate_delta_def get_device_type_def get_screen_size_def get_event_type_def
  create_rum_event_def

section \<open>What the conversion stores\<close>

text \<open>
  a request makes the conversion panic exactly when its parameter \<open>u\<close> is not a URL that
  \<open>url.Parse\<close> accepts; one such request stops the program.
\<close>

theorem create_rum_event_panics_iff:
  "panics (create_rum_event geo e) \<longleftrightarrow> (\<exists>err. url_parse (values_get (RequestParameters e) ''u'') = Inl err)"
  by (simp add: create_rum_event_def convert_to_rum_event_def from_event_def Let_def
      split: sum.split prod.split)

text \<open>
  of a request with a good URL the event stores the host name of that URL, the place of the geo ip
  service whether or not the service reports an error, and never a subscription id.
\<close>

theorem create_rum_event_ok:
  assumes "url_parse (values_get (RequestParameters e) ''u'') = Inr host"
    and "geo (Headers e) (RemoteAddr e) = (country, city, err)"
  shows "create_rum_event (Some geo) e = Value
    \<lparr>re_Created_At = values_get (RequestParameters e) ''created_at'',
     re_Hostname = url_hostname host, re_SubscriptionID = [], re_Country = country,
     re_Geo_City_Name = city, re_Device_Type = [],
     re_Latency = values_get (RequestParameters e) ''latency'',
     re_StatusCode = values_get (RequestParameters e) ''status_code'',
     re_Up = values_get (RequestParameters e) ''up'',
     re_Cdir = values_get (RequestParameters e) ''cdir'',
     re_Ans = values_get (RequestParameters e) ''ans''\<rparr>"
  using assms
  by (simp add: create_rum_event_def convert_to_rum_event_def from_event_def Let_def)

lemma create_rum_event_ok_witness:
  "create_rum_event (Some (\<lambda>hdr ip. (''BG'', [], None)))
       (new_event [(''u'', [''//a.b'']), (''up'', [''7''])] [] [] []) =
     Value \<lparr>re_Created_At = [], re_Hostname = ''a.b'', re_SubscriptionID = [], re_Country = ''BG'',
       re_Geo_City_Name = [], re_Device_Type = [], re_Latency = [], re_StatusCode = [], re_Up = ''7'',
       re_Cdir = [], re_Ans = []\<rparr>"
proof -
  let ?e = "new_event [(''u'', [''//a.b'']), (''up'', [''7''])] [] [] []"
  have u: "url_parse (values_get (RequestParameters ?e) ''u'') = Inr ''a.b''" by code_simp
  have h: "url_hostname ''a.b'' = ''a.b''" by code_simp
  show ?thesis
    using create_rum_event_ok [OF u, of "\<lambda>hdr ip. (''BG'', [], None)" "''BG''" "[]" None] h
    by (simp add: new_event_def values_get_def values_lookup_def)
qed

lemma create_rum_event_subscription:
  "create_rum_event geo e = Value r \<Longrightarrow> re_SubscriptionID r = []"
  by (auto simp: create_rum_event_def convert_to_rum_event_def Let_def split: sum.splits prod.splits)

text \<open>The host name of a stored event is free of slashes, line ends and NUL.\<close>

lemma create_rum_event_hostname:
  "create_rum_event geo e = Value r \<Longrightarrow> c \<in> set (re_Hostname r) \<Longrightarrow> host_byte c"
  using hostname_bytes
  by (auto simp: create_rum_event_def convert_to_rum_event_def Let_def split: sum.splits prod.splits)

section \<open>The helpers\<close>

lemma sint_of_int_range: "min_int \<le> i \<Longrightarrow> i \<le> max_int \<Longrightarrow> sint (of_int i :: 64 word) = i"
  by (simp add: signed_of_int signed_take_bit_int_eq_self min_int_def max_int_def)

lemma sint_of_atoi [simp]: "sint (of_int (fst (atoi s)) :: 64 word) = fst (atoi s)"
  using atoi_bounds [of s] by (intro sint_of_int_range) auto

lemma calculate_delta_nonempty:
  assumes "p1 \<noteq> []" and "p2 \<noteq> []"
  shows "calculate_delta p1 p2 =
    itoa (min 65535 (max 0 (sint (of_int (fst (atoi p2)) - of_int (fst (atoi p1)) :: 64 word))))"
  using assms by (auto simp: calculate_delta_def Let_def)

text \<open>a delta is empty or the text of a number that fits into 16 bits.\<close>

theorem calculate_delta_range:
  "if p1 = [] \<or> p2 = [] then calculate_delta p1 p2 = []
   else (\<exists>v. calculate_delta p1 p2 = itoa v \<and> 0 \<le> v \<and> v \<le> 65535)"
proof (cases "p1 = [] \<or> p2 = []")
  case True
  then show ?thesis by (auto simp: calculate_delta_def)
next
  case False
  have "0 \<le> min 65535 (max 0 i) \<and> min 65535 (max 0 i) \<le> 65535" for i :: int by auto
  with False calculate_delta_nonempty [of p1 p2] show ?thesis by auto
qed

lemma itoa_neq_Nil [simp]: "itoa i \<noteq> []"
  by (simp add: itoa_def)

text \<open>
  the delta of two numbers is their difference cut to 0 and 65535, as long as the difference is
  one of Go's \<open>int\<close>.
\<close>

theorem calculate_delta_exact:
  assumes "min_int \<le> a" "a \<le> max_int" and "min_int \<le> b" "b \<le> max_int"
    and "min_int \<le> b - a" "b - a \<le> max_int"
  shows "calculate_delta (itoa a) (itoa b) = itoa (min 65535 (max 0 (b - a)))"
proof -
  note parsed = atoi_itoa [OF assms(1,2)] atoi_itoa [OF assms(3,4)]
  have "calculate_delta (itoa a) (itoa b) =
      itoa (min 65535 (max 0 (sint (of_int b - of_int a :: 64 word))))"
    using calculate_delta_nonempty [OF itoa_neq_Nil itoa_neq_Nil, of a b] unfolding parsed fst_conv .
  also have "sint (of_int b - of_int a :: 64 word) = b - a"
    unfolding of_int_diff [symmetric] by (rule sint_of_int_range [OF assms(5,6)])
  finally show ?thesis .
qed

lemma calculate_delta_exact_witness: "calculate_delta ''100'' ''65700'' = ''65535''"
proof -
  have "calculate_delta (itoa 100) (itoa 65700) = itoa (min 65535 (max 0 (65700 - 100)))"
    by (rule calculate_delta_exact) (simp_all add: min_int_def max_int_def)
  moreover have "itoa 100 = ''100''" "itoa 65700 = ''65700''" "itoa 65535 = ''65535''"
    by (simp_all add: format_defs char_of_def bit_Suc_0_iff)
  ultimately show ?thesis by simp
qed

text \<open>a screen size is read exactly from a text with one \<open>x\<close>, at that place.\<close>

theorem get_screen_size_split:
  "if count_list s CHR ''x'' = 1
   then s = fst (get_screen_size s) @ ''x'' @ snd (get_screen_size s)
   else get_screen_size s = ([], [])"
proof (cases "length (split_on CHR ''x'' s) = 2")
  case True
  then obtain w h where p: "split_on CHR ''x'' s = [w, h]"
    by (auto simp: length_Suc_conv numeral_2_eq_2)
  then have "s = w @ ''x'' @ h" using join_split_on [of "CHR ''x''" s] by simp
  with True p show ?thesis by (simp add: get_screen_size_def length_split_on)
next
  case False
  then show ?thesis by (simp add: get_screen_size_def length_split_on)
qed

end
