(* ===== verification/Go_Json.thy ===== *)
theory Go_Json
  imports Go_Url
begin

text \<open>
  \<open>encoding/json.Marshal\<close> of Go 1.21 on the two types the program marshals, \<open>map[string]string\<close>
  and \<open>map[string][]string\<close>: an object with its keys in increasing byte order, strings with the
  HTML-safe escapes, and an invalid UTF-8 byte replaced by U+FFFD.
\<close>

section \<open>Strings\<close>

definition hex_digit :: "nat \<Rightarrow> char" where
  "hex_digit n = (if n < 10 then char_of (48 + n) else char_of (87 + n))"

definition json_ascii :: "char \<Rightarrow> string" where
  "json_ascii c =
     (let b = (of_char c :: nat)
      in if c = CHR 0x22 \<or> c = CHR 0x5C then [CHR 0x5C, c]
         else if b = 10 then [CHR 0x5C, CHR ''n'']
         else if b = 13 then [CHR 0x5C, CHR ''r'']
         else if b = 9 then [CHR 0x5C, CHR ''t'']
         else if b < 32 \<or> c \<in> set ''<>&'' then
           CHR 0x5C # ''u00'' @ [hex_digit (b div 16), hex_digit (b mod 16)]
         else [c])"

definition utf8_cont :: "nat \<Rightarrow> nat \<Rightarrow> char \<Rightarrow> bool" where
  "utf8_cont lo hi c = (lo \<le> (of_char c :: nat) \<and> (of_char c :: nat) \<le> hi)"

text \<open>
  \<open>utf8.DecodeRuneInString\<close>: the length of the well-formed multi-byte rune at the start of a
  string, or 0 where the decoder returns \<open>RuneError\<close> with size 1.
\<close>

definition rune_length :: "string \<Rightarrow> nat" where
  "rune_length s =
     (case s of [] \<Rightarrow> 0
      | c # cs \<Rightarrow>
          let b = (of_char c :: nat);
              cont = (\<lambda>i lo hi. i < length cs \<and> utf8_cont lo hi (cs ! i))
          in if 0xC2 \<le> b \<and> b \<le> 0xDF then (if cont 0 0x80 0xBF then 2 else 0)
             else if 0xE0 \<le> b \<and> b \<le> 0xEF then
               (if cont 0 (if b = 0xE0 then 0xA0 else 0x80) (if b = 0xED then 0x9F else 0xBF)
                  \<and> cont 1 0x80 0xBF then 3 else 0)
             else if 0xF0 \<le> b \<and> b \<le> 0xF4 then
               (if cont 0 (if b = 0xF0 then 0x90 else 0x80) (if b = 0xF4 then 0x8F else 0xBF)
                  \<and> cont 1 0x80 0xBF \<and> cont 2 0x80 0xBF then 4 else 0)
             else 0)"

definition json_rune :: "string \<Rightarrow> string" where
  "json_rune r =
     (if r = map (char_of :: nat \<Rightarrow> char) [0xE2, 0x80, 0xA8] then CHR 0x5C # ''u2028''
      else if r = map (char_of :: nat \<Rightarrow> char) [0xE2, 0x80, 0xA9] then CHR 0x5C # ''u2029''
      else r)"

function json_body :: "string \<Rightarrow> string" where
  "json_body [] = []"
| "json_body (c # cs) =
     (if (of_char c :: nat) < 128 then json_ascii c @ json_body cs
      else if rune_length (c # cs) = 0 then CHR 0x5C # ''ufffd'' @ json_body cs
      else json_rune (take (rune_length (c # cs)) (c # cs))
           @ json_body (drop (rune_length (c # cs) - 1) cs))"
  by pat_completeness auto
termination
  by (relation "measure length") auto

definition json_string :: "string \<Rightarrow> string" where
  "json_string s = CHR 0x22 # json_body s @ [CHR 0x22]"

section \<open>Maps\<close>

definition sorted_keys :: "(string \<times> 'a) list \<Rightarrow> string list" where
  "sorted_keys m = sort (remdups (map fst m))"

definition json_object :: "('a \<Rightarrow> string) \<Rightarrow> (string \<times> 'a) list \<Rightarrow> string" where
  "json_object f m =
     ''{'' @ join_with '','' (map (\<lambda>k. json_string k @ '':'' @ f (the (map_of m k))) (sorted_keys m)) @ ''}''"

definition json_array :: "string list \<Rightarrow> string" where
  "json_array xs = ''['' @ join_with '','' (map json_string xs) @ '']''"

definition marshal_flat :: "(string \<times> string) list \<Rightarrow> string" where
  "marshal_flat = json_object json_string"

definition marshal_values :: "url_values \<Rightarrow> string" where
  "marshal_values = json_object json_array"

lemmas json_defs [go_defs] = hex_digit_def json_ascii_def utf8_cont_def rune_length_def
  json_rune_def json_string_def sorted_keys_def json_object_def json_array_def
  marshal_flat_def marshal_values_def

text \<open>The text depends on the map alone, not on the order of its entries.\<close>

lemma sorted_keys_cong: "map_of m = map_of m' \<Longrightarrow> sorted_keys m = sorted_keys m'"
  unfolding sorted_keys_def
  by (metis dom_map_of_conv_image_fst list.set_map sorted_list_of_set_sort_remdups)

lemma json_object_cong: "map_of m = map_of m' \<Longrightarrow> json_object f m = json_object f m'"
  by (simp add: json_object_def sorted_keys_cong [of m m'])

subsection \<open>No line breaks\<close>

text \<open>A marshalled value has no line feed, so a record written with one after it is one line.\<close>

lemma hex_digit_no_newline: "n < 16 \<Longrightarrow> hex_digit n \<noteq> newline"
proof -
  assume "n < 16"
  then have "(of_char (hex_digit n) :: nat) = (if n < 10 then 48 + n else 87 + n)"
    by (simp add: hex_digit_def)
  then have "(of_char (hex_digit n) :: nat) \<noteq> 10" by simp
  then show ?thesis by auto
qed

lemma json_ascii_no_newline: "newline \<notin> set (json_ascii c)"
proof -
  have "(of_char c :: nat) div 16 < 16"
    using nat_of_char_less_256 [of c] by (simp add: less_mult_imp_div_less)
  then have "hex_digit ((of_char c :: nat) div 16) \<noteq> newline"
    "hex_digit ((of_char c :: nat) mod 16) \<noteq> newline"
    by (auto intro!: hex_digit_no_newline)
  then have "newline \<notin> set (CHR 0x5C # ''u00'' @ [hex_digit (of_char c div 16), hex_digit (of_char c mod 16)])" by simp
  moreover have "newline \<notin> set [c]" if "\<not> (of_char c :: nat) < 32" using that by auto
  moreover have "newline \<notin> set [CHR 0x5C, c]" if "c = CHR 0x22 \<or> c = CHR 0x5C" using that by auto
  moreover have "newline \<notin> set [CHR 0x5C, CHR ''n'']" "newline \<notin> set [CHR 0x5C, CHR ''r'']" "newline \<notin> set [CHR 0x5C, CHR ''t'']"
    by simp_all
  ultimately show ?thesis
    unfolding json_ascii_def Let_def by (simp only: split: if_split) blast
qed

lemma rune_bytes_high:
  assumes "(of_char c :: nat) \<ge> 128" and "x \<in> set (take (rune_length (c # cs)) (c # cs))"
  shows "(of_char x :: nat) \<ge> 128"
proof -
  have "x = c \<or> (\<exists>i < rune_length (c # cs) - 1. i < length cs \<and> x = cs ! i)"
    using assms(2) by (cases "rune_length (c # cs)") (auto simp: in_set_conv_nth)
  moreover have "(of_char (cs ! i) :: nat) \<ge> 128" if "i < rune_length (c # cs) - 1" for i
  proof -
    have "rune_length (c # cs) \<le> 4" unfolding rune_length_def Let_def by simp
    with that consider "i = 0" | "i = 1" | "i = 2" by linarith
    then show ?thesis
      using that unfolding rune_length_def Let_def utf8_cont_def by cases (simp_all split: if_splits)
  qed
  ultimately show ?thesis using assms(1) by auto
qed

lemma json_rune_no_newline:
  assumes "\<And>x. x \<in> set r \<Longrightarrow> (of_char x :: nat) \<ge> 128"
  shows "newline \<notin> set (json_rune r)"
proof -
  have "newline \<notin> set r" using assms [of newline] by auto
  then show ?thesis by (simp add: json_rune_def)
qed

lemma json_body_no_newline: "newline \<notin> set (json_body s)"
proof (induction s rule: json_body.induct)
  case 1
  then show ?case by simp
next
  case (2 c cs)
  have "newline \<notin> set (json_rune (take (rune_length (c # cs)) (c # cs)))"
    if "\<not> (of_char c :: nat) < 128"
    using that rune_bytes_high [of c _ cs] by (intro json_rune_no_newline) auto
  with 2 show ?case
    by (auto simp: json_ascii_no_newline)
qed

lemma json_string_no_newline: "newline \<notin> set (json_string s)"
  by (simp add: json_string_def json_body_no_newline)

lemma json_object_no_newline:
  assumes "\<And>x. newline \<notin> set (f x)"
  shows "newline \<notin> set (json_object f m)"
proof -
  let ?ps = "map (\<lambda>k. json_string k @ '':'' @ f (the (map_of m k))) (sorted_keys m)"
  have "set (join_with '','' ?ps) \<subseteq> {CHR '',''} \<union> \<Union> (set ` set ?ps)"
    using set_join_with [of "'',''" ?ps] by simp
  then have "newline \<notin> set (join_with '','' ?ps)"
    using assms json_string_no_newline by (auto split: if_splits)
  then show ?thesis by (simp add: json_object_def)
qed

lemma marshal_flat_no_newline: "newline \<notin> set (marshal_flat m)"
  unfolding marshal_flat_def by (rule json_object_no_newline) (rule json_string_no_newline)

end
