(* ===== verification/Dao.thy ===== *)
theory Dao
  imports Rum_Event Go_Json
begin

text \<open>
  The interface of a database (\<open>dao/adapter.go\<close>, \<open>dao/factory.go\<close>) and the calls it is made of. A
  method of a stateful object is a \<open>call\<close>: it takes the state, may panic, and returns a result with the
  new state. The Go pattern \<open>if err := m(); err != nil { return err }\<close> is \<open>attempt\<close>.
\<close>

section \<open>Calls\<close>

type_synonym ('s, 'a) call = "'s \<Rightarrow> ('a \<times> 's) run"

definition call_ret :: "'a \<Rightarrow> ('s, 'a) call" where
  "call_ret x s = Value (x, s)"

definition call_bind :: "('s, 'a) call \<Rightarrow> ('a \<Rightarrow> ('s, 'b) call) \<Rightarrow> ('s, 'b) call" where
  "call_bind m k s = run_bind (m s) (\<lambda>(x, s). k x s)"

definition attempt :: "('s, go_error option) call \<Rightarrow> ('s, go_error option) call
    \<Rightarrow> ('s, go_error option) call" where
  "attempt m k = call_bind m (\<lambda>err. case err of None \<Rightarrow> k | Some e \<Rightarrow> call_ret (Some e))"

fun attempt_all :: "('s, go_error option) call list \<Rightarrow> ('s, go_error option) call" where
  "attempt_all [] = call_ret None"
| "attempt_all (m # ms) = attempt m (attempt_all ms)"

lemmas call_defs [go_defs] = call_ret_def call_bind_def attempt_def

lemma attempt_ok: "attempt m k s = Value (None, s')
    \<longleftrightarrow> (\<exists>s1. m s = Value (None, s1) \<and> k s1 = Value (None, s'))"
  by (auto simp: call_defs run_bind_Value_iff split: option.splits)

lemma attempt_step:
  "m s = Value (None, s') \<Longrightarrow> attempt m k s = k s'"
  "m s = Value (Some e, s') \<Longrightarrow> attempt m k s = Value (Some e, s')"
  "m s = Panic p \<Longrightarrow> attempt m k s = Panic p"
  by (simp_all add: call_defs)

lemma call_bind_step:
  "m s = Value (x, s') \<Longrightarrow> call_bind m k s = k x s'"
  "m s = Panic p \<Longrightarrow> call_bind m k s = Panic p"
  by (simp_all add: call_defs)

lemma call_cases:
  fixes m :: "('s, go_error option) call"
  obtains (ok) s' where "m s = Value (None, s')" | (err) e s' where "m s = Value (Some e, s')"
    | (panic) p where "m s = Panic p"
  by (cases "m s") (auto, metis option.exhaust)

lemma attempt_assoc: "attempt (attempt a b) c = attempt a (attempt b c)"
proof
  fix s
  show "attempt (attempt a b) c s = attempt a (attempt b c) s"
    by (cases rule: call_cases [of a s]) (simp_all add: attempt_step attempt_def [of "attempt a b"] attempt_def [of b] call_bind_def call_ret_def)
qed

lemma attempt_ret [simp]: "attempt (call_ret None) k = k" "attempt m (call_ret None) = m"
proof -
  show "attempt m (call_ret None) = m"
  proof
    fix s show "attempt m (call_ret None) s = m s"
      by (cases rule: call_cases [of m s]) (simp_all add: attempt_step call_ret_def)
  qed
qed (simp add: fun_eq_iff call_defs)

lemma attempt_all_append: "attempt_all (ms @ ms') = attempt (attempt_all ms) (attempt_all ms')"
  by (induction ms) (simp_all add: attempt_assoc)

text \<open>A property of the state that every call keeps is kept by their sequence.\<close>

definition keeps :: "('s \<Rightarrow> bool) \<Rightarrow> ('s, 'a) call \<Rightarrow> bool" where
  "keeps P m \<longleftrightarrow> (\<forall>s x s'. P s \<longrightarrow> m s = Value (x, s') \<longrightarrow> P s')"

lemma keepsI: "(\<And>s x s'. P s \<Longrightarrow> m s = Value (x, s') \<Longrightarrow> P s') \<Longrightarrow> keeps P m"
  by (auto simp: keeps_def)

lemma keepsD: "keeps P m \<Longrightarrow> P s \<Longrightarrow> m s = Value (x, s') \<Longrightarrow> P s'"
  by (auto simp: keeps_def)

lemma keeps_ret [simp, intro]: "keeps P (call_ret x)"
  by (simp add: keeps_def call_ret_def)

lemma keeps_bind:
  assumes "keeps P m" and "\<And>x. keeps P (k x)"
  shows "keeps P (call_bind m k)"
proof (rule keepsI)
  fix s y s' assume "P s" and "call_bind m k s = Value (y, s')"
  then obtain x s1 where "m s = Value (x, s1)" "k x s1 = Value (y, s')"
    by (auto simp: call_bind_def run_bind_Value_iff)
  with \<open>P s\<close> assms show "P s'" by (blast dest: keepsD)
qed

lemma keeps_attempt: "keeps P m \<Longrightarrow> keeps P k \<Longrightarrow> keeps P (attempt m k)"
  unfolding attempt_def by (rule keeps_bind) (auto split: option.split)

lemma keeps_attempt_all: "list_all (keeps P) ms \<Longrightarrow> keeps P (attempt_all ms)"
  by (induction ms) (auto intro: keeps_attempt)

section \<open>Values of the database\<close>

text \<open>
  A row of events as \<open>encoding/json\<close> sees it: the fields of the anonymous struct, or the entries of a
  map in the order of their keys. A time is marshalled in UTC as RFC 3339 with nanoseconds, and its
  year has to have four digits.
\<close>

datatype json_value = JNull | JInt int | JText string | JTime time

type_synonym event_row = "(string \<times> json_value) list"

fun strip_zeros :: "string \<Rightarrow> string" where
  "strip_zeros [] = []"
| "strip_zeros (c # cs) = (if list_all (\<lambda>d. d = CHR ''0'') (c # cs) then [] else c # strip_zeros cs)"

definition format_nanos :: "time \<Rightarrow> string" where
  "format_nanos t = (let n = t mod time_second; ds = itoa n;
       frac = strip_zeros (replicate (9 - length ds) CHR ''0'' @ ds)
     in if frac = [] then [] else ''.'' @ frac)"

fun marshal_value :: "json_value \<Rightarrow> go_error + string" where
  "marshal_value JNull = Inr ''null''"
| "marshal_value (JInt i) = Inr (itoa i)"
| "marshal_value (JText s) = Inr (json_string s)"
| "marshal_value (JTime t) =
     (let (y, m, d) = civil_of_days (time_days t) in
      if y < 0 \<or> 9999 < y then Inl ''Time.MarshalJSON: year outside of range [0,9999]''
      else Inr (''\"'' @ format_date t @ ''T'' @ drop 11 (format_date_time t) @ format_nanos t @ ''Z'' @ ''\"''))"

fun marshal_fields :: "event_row \<Rightarrow> go_error + string list" where
  "marshal_fields [] = Inr []"
| "marshal_fields ((k, v) # r) =
     (case marshal_value v of Inl err \<Rightarrow> Inl err
      | Inr t \<Rightarrow> (case marshal_fields r of Inl err \<Rightarrow> Inl err
          | Inr ts \<Rightarrow> Inr ((json_string k @ '':'' @ t) # ts)))"

fun marshal_rows :: "event_row list \<Rightarrow> go_error + string list" where
  "marshal_rows [] = Inr []"
| "marshal_rows (r # rs) =
     (case marshal_fields r of Inl err \<Rightarrow> Inl err
      | Inr ts \<Rightarrow> (case marshal_rows rs of Inl err \<Rightarrow> Inl err
          | Inr us \<Rightarrow> Inr ((''{'' @ join_with '','' ts @ ''}'') # us)))"

text \<open>A nil slice is \<open>None\<close> and marshals as \<open>null\<close>.\<close>

type_synonym event_rows = "event_row list option"

definition marshal_event_rows :: "event_rows \<Rightarrow> go_error + string" where
  "marshal_event_rows d =
     (case d of None \<Rightarrow> Inr ''null''
      | Some rs \<Rightarrow> (case marshal_rows rs of Inl err \<Rightarrow> Inl err
          | Inr us \<Rightarrow> Inr (''['' @ join_with '','' us @ '']'')))"

lemmas marshal_defs [go_defs] = format_nanos_def marshal_event_rows_def

section \<open>dao/adapter.go\<close>

text \<open>
  The methods of an adapter on its state \<open>'d\<close>. A map of subscriptions may be nil, \<open>None\<close>; a nil pointer to
  a subscription is \<open>None\<close>. The statistics are an opaque text.
\<close>

type_synonym sub_map = "(string \<times> subscription_with_hostname) list option"

record 'd adapter =
  ad_Open :: "string \<Rightarrow> ('d, go_error option) call"
  ad_Close :: "('d, go_error option) call"
  ad_IsOpen :: "'d \<Rightarrow> bool"
  ad_GetDbVersion :: "('d, int \<times> go_error option) call"
  ad_CheckDbVersion :: "('d, go_error option) call"
  ad_GetName :: "'d \<Rightarrow> string"
  ad_SetMaxResults :: "int \<Rightarrow> ('d, go_error option) call"
  ad_CreateDb :: "bool \<Rightarrow> ('d, go_error option) call"
  ad_UpgradeDb :: "('d, go_error option) call"
  ad_Version :: "'d \<Rightarrow> int"
  ad_Stats :: "('d, string option) call"
  ad_Save :: "rum_event \<Rightarrow> ('d, go_error option) call"
  ad_SaveHost :: "hostname_event \<Rightarrow> ('d, go_error option) call"
  ad_InsertOwnerHostname :: "owner_hostname \<Rightarrow> ('d, go_error option) call"
  ad_DeleteOwnerHostname :: "string \<Rightarrow> string \<Rightarrow> ('d, go_error option) call"
  ad_GetSubscriptions :: "('d, sub_map \<times> go_error option) call"
  ad_GetSubscription :: "string \<Rightarrow> ('d, subscription_with_hostname option \<times> go_error option) call"
  ad_GetEvents :: "('d, event_rows \<times> go_error option) call"

section \<open>dao/factory.go\<close>

record db_server =
  srv_host :: string
  srv_port :: "16 word"
  srv_db :: string

record db_auth =
  auth_user :: string
  auth_pwd :: string

record db_opts =
  opts_prefix :: string

definition server_addr :: "db_server \<Rightarrow> string" where
  "server_addr s = srv_host s @ '':'' @ itoa (sint (srv_port s))"

definition make_server :: "string \<Rightarrow> 16 word \<Rightarrow> string \<Rightarrow> db_server" where
  "make_server host port db = \<lparr>srv_host = host, srv_port = port, srv_db = db\<rparr>"

definition make_auth :: "string \<Rightarrow> string \<Rightarrow> db_auth" where
  "make_auth user pwd = \<lparr>auth_user = user, auth_pwd = pwd\<rparr>"

definition make_opts :: "string \<Rightarrow> db_opts" where
  "make_opts prefix = \<lparr>opts_prefix = prefix\<rparr>"

text \<open>Ports above 32767 do not fit the \<open>int16\<close> and come out negative.\<close>

lemma server_addr_high_port: "server_addr (make_server ''h'' (of_int 50000) ''d'') = ''h:-15536''"
  by (simp add: server_addr_def make_server_def signed_of_int signed_take_bit_int_eq_self_iff
      format_defs char_of_def bit_Suc_0_iff)

end
