(* ===== verification/Store.thy ===== *)
theory Store
  imports Dao
begin

text \<open>
  The registry of adapters (\<open>store/store.go\<close>). The package variable \<open>adp\<close> points to one of the registered
  adapters: it is the name under which the adapter is registered, and the registry holds the state of
  each. The methods of the adapters are the argument \<open>A\<close>; \<open>json.Unmarshal\<close> of the configuration is one too.
\<close>

section \<open>store/store.go\<close>

record store_config =
  st_UidKey :: string
  st_MaxResults :: int
  st_UseAdapter :: string
  st_Adapters :: "(string \<times> string) list option"

record 'a store =
  adp :: "string option"
  availableAdapters :: "(string \<times> 'a) list"

definition init_store :: "'a store" where
  "init_store = \<lparr>adp = None, availableAdapters = []\<rparr>"

text \<open>A method call on \<open>adp\<close>; on the nil interface it panics.\<close>

definition adp_state :: "'a store \<Rightarrow> 'a option" where
  "adp_state st = (case adp st of None \<Rightarrow> None | Some n \<Rightarrow> map_of (availableAdapters st) n)"

definition on_adp :: "('a, 'b) call \<Rightarrow> ('a store, 'b) call" where
  "on_adp m st =
     (case (adp st, adp_state st) of
        (Some n, Some a) \<Rightarrow> run_bind (m a) (\<lambda>(x, a').
          Value (x, st\<lparr>availableAdapters := AList.update n a' (availableAdapters st)\<rparr>))
      | _ \<Rightarrow> Panic ''nil pointer dereference'')"

definition choose_adapter :: "store_config \<Rightarrow> 'a store \<Rightarrow> go_error + 'a store" where
  "choose_adapter config st =
     (if adp st \<noteq> None then Inr st
      else if length (st_UseAdapter config) > 0 then
        (case map_of (availableAdapters st) (st_UseAdapter config) of
           Some ad \<Rightarrow> Inr (st\<lparr>adp := Some (st_UseAdapter config)\<rparr>)
         | None \<Rightarrow> Inl (''store: '' @ st_UseAdapter config @ '' adapter is not available in this binary''))
      else (case availableAdapters st of
          [(n, v)] \<Rightarrow> Inr (st\<lparr>adp := Some n\<rparr>)
        | _ \<Rightarrow> Inl ''store: db adapter is not specified. Please set `store_config.use_adapter` in `front_basicrum_config.conf`''))"

definition adapter_config :: "store_config \<Rightarrow> string \<Rightarrow> string" where
  "adapter_config config name =
     (case st_Adapters config of None \<Rightarrow> []
      | Some m \<Rightarrow> (case map_of m name of None \<Rightarrow> [] | Some c \<Rightarrow> c))"

definition adp_is_open :: "'a adapter \<Rightarrow> 'a store \<Rightarrow> bool" where
  "adp_is_open A st = (case adp_state st of None \<Rightarrow> False | Some a \<Rightarrow> ad_IsOpen A a)"

definition open_adapter :: "'a adapter \<Rightarrow> (string \<Rightarrow> go_error + store_config) \<Rightarrow> int \<Rightarrow> string
    \<Rightarrow> ('a store, go_error option) call" where
  "open_adapter A unmarshal workerId jsonconf st =
     (case unmarshal jsonconf of
        Inl err \<Rightarrow> Value (Some (''store: failed to parse config: '' @ err @ ''('' @ jsonconf @ '')''), st)
      | Inr config \<Rightarrow>
          (case choose_adapter config st of
             Inl err \<Rightarrow> Value (Some err, st)
           | Inr st \<Rightarrow>
               if adp_is_open A st then Value (Some ''store: connection is already opened'', st)
               else if workerId < 0 \<or> workerId > 1023 then Value (Some ''store: invalid worker ID'', st)
               else attempt (on_adp (ad_SetMaxResults A (st_MaxResults config)))
                 (\<lambda>st. on_adp (\<lambda>a. ad_Open A (adapter_config config (ad_GetName A a)) a) st) st))"

definition store_open :: "'a adapter \<Rightarrow> (string \<Rightarrow> go_error + store_config) \<Rightarrow> int \<Rightarrow> string
    \<Rightarrow> ('a store, go_error option) call" where
  "store_open A unmarshal workerId jsonconf =
     attempt (open_adapter A unmarshal workerId jsonconf) (on_adp (ad_CheckDbVersion A))"

text \<open>\<open>Close\<close> asks \<open>adp\<close> without looking whether it is nil.\<close>

definition store_close :: "'a adapter \<Rightarrow> ('a store, go_error option) call" where
  "store_close A st =
     (if adp st = None then Panic ''nil pointer dereference''
      else if adp_is_open A st then on_adp (ad_Close A) st
      else Value (None, st))"

definition store_is_open :: "'a adapter \<Rightarrow> 'a store \<Rightarrow> bool" where
  "store_is_open A st = (if adp st \<noteq> None then adp_is_open A st else False)"

definition get_adapter :: "'a store \<Rightarrow> 'a option" where
  "get_adapter st = adp_state st"

definition get_adapter_name :: "'a adapter \<Rightarrow> 'a store \<Rightarrow> string" where
  "get_adapter_name A st = (case adp_state st of None \<Rightarrow> [] | Some a \<Rightarrow> ad_GetName A a)"

definition get_adapter_version :: "'a adapter \<Rightarrow> 'a store \<Rightarrow> int" where
  "get_adapter_version A st = (case adp_state st of None \<Rightarrow> -1 | Some a \<Rightarrow> ad_Version A a)"

definition store_db_version :: "'a adapter \<Rightarrow> ('a store, int) call" where
  "store_db_version A st =
     (if adp st = None then Value (-1, st)
      else call_bind (on_adp (ad_GetDbVersion A)) (\<lambda>(vers, err). call_ret vers) st)"

definition init_db :: "'a adapter \<Rightarrow> (string \<Rightarrow> go_error + store_config) \<Rightarrow> string \<Rightarrow> bool
    \<Rightarrow> ('a store, go_error option) call" where
  "init_db A unmarshal jsonconf reset st =
     (if \<not> store_is_open A st
      then attempt (open_adapter A unmarshal 1 jsonconf) (on_adp (ad_CreateDb A reset)) st
      else on_adp (ad_CreateDb A reset) st)"

definition upgrade_db :: "'a adapter \<Rightarrow> (string \<Rightarrow> go_error + store_config) \<Rightarrow> string
    \<Rightarrow> ('a store, go_error option) call" where
  "upgrade_db A unmarshal jsonconf st =
     (if \<not> store_is_open A st
      then attempt (open_adapter A unmarshal 1 jsonconf) (on_adp (ad_UpgradeDb A)) st
      else on_adp (ad_UpgradeDb A) st)"

definition register_adapter :: "'a adapter \<Rightarrow> 'a option \<Rightarrow> 'a store \<Rightarrow> 'a store run" where
  "register_adapter A a st =
     (case a of
        None \<Rightarrow> Panic ''store: Register adapter is nil''
      | Some a \<Rightarrow>
          let adapterName = ad_GetName A a in
          if map_of (availableAdapters st) adapterName \<noteq> None
          then Panic (''store: adapter '' @ [CHR 0x27] @ adapterName @ [CHR 0x27] @ '' is already registered'')
          else Value (st\<lparr>availableAdapters := AList.update adapterName a (availableAdapters st)\<rparr>))"

definition db_stats :: "'a adapter \<Rightarrow> 'a store \<Rightarrow> ('a store, string option) call option" where
  "db_stats A st = (if \<not> store_is_open A st then None else Some (on_adp (ad_Stats A)))"

lemmas store_defs [go_defs] = init_store_def adp_state_def on_adp_def choose_adapter_def adapter_config_def
  adp_is_open_def open_adapter_def store_open_def store_close_def store_is_open_def get_adapter_def
  get_adapter_name_def get_adapter_version_def store_db_version_def init_db_def upgrade_db_def
  register_adapter_def db_stats_def

section \<open>A well-formed registry\<close>

text \<open>
  Every adapter is registered under its own name, \<open>adp\<close> is one of them, and no other one is open: the
  program has at most one open database.
\<close>

definition store_wf :: "'a adapter \<Rightarrow> 'a store \<Rightarrow> bool" where
  "store_wf A st =
     (distinct (map fst (availableAdapters st)) \<and>
      list_all (\<lambda>(n, a). ad_GetName A a = n \<and> (ad_IsOpen A a \<longrightarrow> adp st = Some n)) (availableAdapters st) \<and>
      (case adp st of None \<Rightarrow> True | Some n \<Rightarrow> n \<in> set (map fst (availableAdapters st))))"

lemma store_wf_iff:
  "store_wf A st \<longleftrightarrow> distinct (map fst (availableAdapters st)) \<and>
     (\<forall>n a. map_of (availableAdapters st) n = Some a \<longrightarrow>
        ad_GetName A a = n \<and> (ad_IsOpen A a \<longrightarrow> adp st = Some n)) \<and>
     (\<forall>n. adp st = Some n \<longrightarrow> map_of (availableAdapters st) n \<noteq> None)"
proof (cases "distinct (map fst (availableAdapters st))")
  case True
  then have *: "(n, a) \<in> set (availableAdapters st) \<longleftrightarrow> map_of (availableAdapters st) n = Some a" for n a
    by (metis map_of_SomeD map_of_is_SomeI)
  have "map_of (availableAdapters st) n \<noteq> None \<longleftrightarrow> n \<in> set (map fst (availableAdapters st))" for n
    by (simp add: map_of_eq_None_iff)
  with True * show ?thesis
    unfolding store_wf_def list_all_iff by (auto split: option.splits)
qed (simp add: store_wf_def)

lemma adp_state_wf: "store_wf A st \<Longrightarrow> adp st = Some n \<Longrightarrow> \<exists>a. adp_state st = Some a \<and> map_of (availableAdapters st) n = Some a"
  by (auto simp: store_wf_iff adp_state_def)

lemma on_adp_cases:
  assumes "on_adp m st = Value (x, st')"
  obtains n a a' where "adp st = Some n" "map_of (availableAdapters st) n = Some a" "m a = Value (x, a')"
    "st' = st\<lparr>availableAdapters := AList.update n a' (availableAdapters st)\<rparr>"
  using assms by (auto simp: on_adp_def adp_state_def run_bind_Value_iff split: option.splits)

lemma on_adp_step:
  assumes "adp st = Some n" and "map_of (availableAdapters st) n = Some a" and "m a = Value (x, a')"
  shows "on_adp m st = Value (x, st\<lparr>availableAdapters := AList.update n a' (availableAdapters st)\<rparr>)"
  using assms by (simp add: on_adp_def adp_state_def)

definition keeps_name :: "'a adapter \<Rightarrow> ('a, 'b) call \<Rightarrow> bool" where
  "keeps_name A m \<longleftrightarrow> (\<forall>a x a'. m a = Value (x, a') \<longrightarrow> ad_GetName A a' = ad_GetName A a)"

lemma keeps_nameD: "keeps_name A m \<Longrightarrow> m a = Value (x, a') \<Longrightarrow> ad_GetName A a' = ad_GetName A a"
  by (auto simp: keeps_name_def)

lemma on_adp_wf:
  assumes "store_wf A st" and "keeps_name A m" and "on_adp m st = Value (x, st')"
  shows "store_wf A st' \<and> adp st' = adp st"
  using assms(3)
proof (cases rule: on_adp_cases)
  case (1 n a a')
  have "ad_GetName A a' = n" using keeps_nameD [OF assms(2) 1(3)] assms(1) 1(2) by (simp add: store_wf_iff)
  with 1 assms(1) show ?thesis by (auto simp: store_wf_iff distinct_update)
qed

lemma choose_adapter_wf:
  assumes "store_wf A st" and "choose_adapter config st = Inr st'"
  shows "store_wf A st' \<and> adp st' \<noteq> None \<and> availableAdapters st' = availableAdapters st
    \<and> (adp st \<noteq> None \<longrightarrow> st' = st)"
  using assms by (auto simp: choose_adapter_def store_wf_iff split: if_splits option.splits list.splits)

section \<open>The contract of an adapter\<close>

text \<open>
  What the registry and the program rely on: opening succeeds only into an open state and is refused,
  without effect, in one; closing always closes; the other calls keep the adapter open or closed.
\<close>

locale db_adapter =
  fixes A :: "'a adapter"
  assumes open_ok: "ad_Open A c a = Value (None, a') \<Longrightarrow> ad_IsOpen A a'"
    and open_again: "ad_IsOpen A a \<Longrightarrow> \<exists>e. ad_Open A c a = Value (Some e, a)"
    and closes: "\<exists>err a'. ad_Close A a = Value (err, a') \<and> \<not> ad_IsOpen A a'"
    and set_max: "\<exists>a'. ad_SetMaxResults A n a = Value (None, a') \<and> ad_IsOpen A a' = ad_IsOpen A a"
    and version_open: "ad_GetDbVersion A a = Value (r, a') \<Longrightarrow> ad_IsOpen A a' = ad_IsOpen A a"
    and check_open: "ad_CheckDbVersion A a = Value (err, a') \<Longrightarrow> ad_IsOpen A a' = ad_IsOpen A a"
    and upgrade_open: "ad_UpgradeDb A a = Value (err, a') \<Longrightarrow> ad_IsOpen A a' = ad_IsOpen A a"
    and subs_open: "ad_GetSubscriptions A a = Value (m, a') \<Longrightarrow> ad_IsOpen A a' = ad_IsOpen A a"
    and create_open: "ad_CreateDb A reset a = Value (None, a') \<Longrightarrow> ad_IsOpen A a'"
    and names: "keeps_name A (ad_Open A c)" "keeps_name A (ad_Close A)" "keeps_name A (ad_SetMaxResults A n)"
      "keeps_name A (ad_GetDbVersion A)" "keeps_name A (ad_CheckDbVersion A)" "keeps_name A (ad_UpgradeDb A)"
      "keeps_name A (ad_CreateDb A reset)" "keeps_name A (ad_GetSubscriptions A)"
begin

lemma close_ok: "ad_Close A a = Value (err, a') \<Longrightarrow> \<not> ad_IsOpen A a'"
  using closes [of a] by auto

lemma open_adapter_wf:
  assumes wf: "store_wf A st" and o: "open_adapter A unmarshal w json st = Value (err, st')"
  shows "store_wf A st' \<and> (adp st \<noteq> None \<longrightarrow> adp st' = adp st)
    \<and> (err = None \<longrightarrow> adp st' \<noteq> None \<and> adp_is_open A st')"
proof -
  consider (same) "st' = st" "err \<noteq> None"
    | (chosen) config st1 where "choose_adapter config st = Inr st1" "st' = st1" "err \<noteq> None"
    | (opened) config st1 where "choose_adapter config st = Inr st1"
        "attempt (on_adp (ad_SetMaxResults A (st_MaxResults config)))
           (on_adp (\<lambda>a. ad_Open A (adapter_config config (ad_GetName A a)) a)) st1 = Value (err, st')"
    using o by (auto simp: open_adapter_def split: sum.splits if_splits)
  then show ?thesis
  proof cases
    case same
    with wf show ?thesis by auto
  next
    case chosen
    with choose_adapter_wf [OF wf chosen(1)] show ?thesis by auto
  next
    case opened
    let ?open = "\<lambda>a. ad_Open A (adapter_config config (ad_GetName A a)) a"
    note c = choose_adapter_wf [OF wf opened(1)]
    then obtain n a where n: "adp st1 = Some n" "map_of (availableAdapters st1) n = Some a"
      using adp_state_wf by fastforce
    obtain a1 where a1: "ad_SetMaxResults A (st_MaxResults config) a = Value (None, a1)" using set_max by blast
    obtain st2 where st2: "on_adp (ad_SetMaxResults A (st_MaxResults config)) st1 = Value (None, st2)"
      using on_adp_step [where m = "ad_SetMaxResults A (st_MaxResults config)", OF n a1] by blast
    with opened(2) have o2: "on_adp ?open st2 = Value (err, st')" by (simp add: attempt_step)
    have wf2: "store_wf A st2 \<and> adp st2 = adp st1" using on_adp_wf [OF _ names(3) st2] c by blast
    have "keeps_name A ?open" using names(1) by (auto simp: keeps_name_def)
    from on_adp_wf [OF _ this o2] wf2 have wf': "store_wf A st' \<and> adp st' = adp st1" by simp
    moreover have "adp_is_open A st'" if "err = None"
      using o2 open_ok that by (cases rule: on_adp_cases) (auto simp: adp_is_open_def adp_state_def)
    ultimately show ?thesis using c by auto
  qed
qed

lemma on_adp_open_kept:
  assumes "\<And>a x a'. m a = Value (x, a') \<Longrightarrow> ad_IsOpen A a' = ad_IsOpen A a" and "on_adp m st = Value (x, st')"
  shows "adp_is_open A st' = adp_is_open A st"
  using assms(2) by (cases rule: on_adp_cases) (use assms(1) in \<open>auto simp: adp_is_open_def adp_state_def\<close>)

lemma store_open_wf:
  assumes wf: "store_wf A st" and o: "store_open A unmarshal w json st = Value (err, st')"
  shows "store_wf A st' \<and> (adp st \<noteq> None \<longrightarrow> adp st' = adp st) \<and> (err = None \<longrightarrow> store_is_open A st')"
proof (cases rule: call_cases [of "open_adapter A unmarshal w json" st])
  case (ok st1)
  with o have c: "on_adp (ad_CheckDbVersion A) st1 = Value (err, st')" by (simp add: store_open_def attempt_step)
  show ?thesis
    using open_adapter_wf [OF wf ok] on_adp_wf [OF _ names(5) c] on_adp_open_kept [OF check_open c]
    by (auto simp: store_is_open_def)
next
  case (err e st1)
  with o open_adapter_wf [OF wf err] show ?thesis by (auto simp: store_open_def attempt_step)
qed (use o in \<open>simp add: store_open_def attempt_step\<close>)

text \<open>An open store refuses to be opened again and stays as it is.\<close>

lemma store_open_again:
  assumes "store_is_open A st" and "unmarshal json = Inr config"
  shows "store_open A unmarshal w json st = Value (Some ''store: connection is already opened'', st)"
proof -
  from assms(1) have "adp st \<noteq> None" "adp_is_open A st" by (auto simp: store_is_open_def split: if_splits)
  with assms(2) have "open_adapter A unmarshal w json st = Value (Some ''store: connection is already opened'', st)"
    by (simp add: open_adapter_def choose_adapter_def)
  then show ?thesis by (simp add: store_open_def attempt_step)
qed

lemma store_close_wf:
  assumes wf: "store_wf A st" and c: "store_close A st = Value (err, st')"
  shows "store_wf A st' \<and> adp st' = adp st \<and> \<not> store_is_open A st'"
proof (cases "adp_is_open A st")
  case True
  with c have c: "on_adp (ad_Close A) st = Value (err, st')" by (simp add: store_close_def split: if_splits)
  moreover have "\<not> adp_is_open A st'"
    using c close_ok by (cases rule: on_adp_cases) (auto simp: adp_is_open_def adp_state_def)
  ultimately show ?thesis using on_adp_wf [OF wf names(2)] by (auto simp: store_is_open_def)
qed (use c wf in \<open>auto simp: store_close_def store_is_open_def split: if_splits\<close>)

text \<open>With an adapter chosen, closing does not panic.\<close>

lemma store_close_returns:
  assumes wf: "store_wf A st" and "adp st \<noteq> None"
  shows "\<exists>err st'. store_close A st = Value (err, st') \<and> store_wf A st' \<and> adp st' = adp st \<and> \<not> store_is_open A st'"
proof -
  obtain n a where n: "adp st = Some n" "map_of (availableAdapters st) n = Some a"
    using assms adp_state_wf by fastforce
  obtain err a' where "ad_Close A a = Value (err, a')" using closes by blast
  from on_adp_step [where m = "ad_Close A", OF n this] n(1) obtain r where "store_close A st = Value r"
    by (cases "adp_is_open A st") (auto simp: store_close_def)
  with store_close_wf [OF wf] show ?thesis by (cases r) auto
qed

lemma create_upgrade_wf:
  assumes wf: "store_wf A st" and k: "keeps_name A m"
    and i: "(if \<not> store_is_open A st then attempt (open_adapter A unmarshal 1 json) (on_adp m) st else on_adp m st) = Value (err, st')"
  shows "store_wf A st' \<and> (adp st \<noteq> None \<longrightarrow> adp st' = adp st)"
proof (cases "store_is_open A st")
  case True
  with i on_adp_wf [OF wf k] show ?thesis by simp
next
  case closed: False
  show ?thesis
  proof (cases rule: call_cases [of "open_adapter A unmarshal 1 json" st])
    case (ok st1)
    with i closed have "on_adp m st1 = Value (err, st')" by (simp add: attempt_step)
    with open_adapter_wf [OF wf ok] on_adp_wf [OF _ k] show ?thesis by metis
  next
    case (err e st1)
    with i closed open_adapter_wf [OF wf err] show ?thesis by (simp add: attempt_step)
  qed (use i closed in \<open>simp add: attempt_step\<close>)
qed

lemma init_db_wf:
  "store_wf A st \<Longrightarrow> init_db A unmarshal json reset st = Value (err, st') \<Longrightarrow>
   store_wf A st' \<and> (adp st \<noteq> None \<longrightarrow> adp st' = adp st)"
  unfolding init_db_def by (rule create_upgrade_wf [OF _ names(7)])

lemma upgrade_db_wf:
  "store_wf A st \<Longrightarrow> upgrade_db A unmarshal json st = Value (err, st') \<Longrightarrow>
   store_wf A st' \<and> (adp st \<noteq> None \<longrightarrow> adp st' = adp st)"
  unfolding upgrade_db_def by (rule create_upgrade_wf [OF _ names(6)])

lemma store_db_version_wf:
  assumes wf: "store_wf A st" and v: "store_db_version A st = Value (x, st')"
  shows "store_wf A st' \<and> adp st' = adp st \<and> (adp_is_open A st' \<longleftrightarrow> adp_is_open A st)"
proof (cases "adp st")
  case (Some n)
  with v obtain r where r: "on_adp (ad_GetDbVersion A) st = Value (r, st')"
    by (auto simp: store_db_version_def call_bind_def call_ret_def run_bind_Value_iff)
  show ?thesis using on_adp_wf [OF wf names(4) r] on_adp_open_kept [OF version_open r] by simp
qed (use v wf in \<open>simp add: store_db_version_def\<close>)

end

lemma register_adapter_wf:
  assumes "store_wf A st" and "register_adapter A (Some a) st = Value st'" and "\<not> ad_IsOpen A a"
  shows "store_wf A st' \<and> adp st' = adp st"
proof -
  from assms(2) have "map_of (availableAdapters st) (ad_GetName A a) = None"
    and st': "st' = st\<lparr>availableAdapters := AList.update (ad_GetName A a) a (availableAdapters st)\<rparr>"
    by (auto simp: register_adapter_def Let_def split: if_splits)
  with assms(1,3) show ?thesis by (auto simp: store_wf_iff distinct_update)
qed

lemma init_store_wf: "store_wf A init_store"
  by (simp add: store_wf_def init_store_def)

section \<open>The registry as a state machine\<close>

inductive store_step :: "'a adapter \<Rightarrow> (string \<Rightarrow> go_error + store_config) \<Rightarrow> 'a store \<Rightarrow> 'a store \<Rightarrow> bool"
  for A unmarshal where
  "register_adapter A (Some a) st = Value st' \<Longrightarrow> \<not> ad_IsOpen A a \<Longrightarrow> store_step A unmarshal st st'"
| "store_open A unmarshal w json st = Value (err, st') \<Longrightarrow> store_step A unmarshal st st'"
| "store_close A st = Value (err, st') \<Longrightarrow> store_step A unmarshal st st'"
| "init_db A unmarshal json reset st = Value (err, st') \<Longrightarrow> store_step A unmarshal st st'"
| "upgrade_db A unmarshal json st = Value (err, st') \<Longrightarrow> store_step A unmarshal st st'"
| "store_db_version A st = Value (v, st') \<Longrightarrow> store_step A unmarshal st st'"

context db_adapter
begin

lemma store_step_wf:
  assumes "store_step A unmarshal st st'" and "store_wf A st"
  shows "store_wf A st' \<and> (adp st \<noteq> None \<longrightarrow> adp st' = adp st)"
  using assms(1)
proof cases
  case 1
  with register_adapter_wf [OF assms(2)] show ?thesis by blast
next
  case 2
  with store_open_wf [OF assms(2)] show ?thesis by blast
next
  case 3
  with store_close_wf [OF assms(2)] show ?thesis by blast
next
  case 4
  with init_db_wf [OF assms(2)] show ?thesis by blast
next
  case 5
  with upgrade_db_wf [OF assms(2)] show ?thesis by blast
next
  case 6
  with store_db_version_wf [OF assms(2)] show ?thesis by blast
qed

lemma store_steps_wf:
  assumes "(store_step A unmarshal)\<^sup>*\<^sup>* st st'" and "store_wf A st"
  shows "store_wf A st' \<and> (adp st \<noteq> None \<longrightarrow> adp st' = adp st)"
  using assms(1)
proof (induction rule: rtranclp_induct)
  case (step st1 st2)
  with store_step_wf [OF step.hyps(2)] show ?case by auto
qed (use assms(2) in simp)

end

end
