(* ===== verification/Sql.thy ===== *)
theory Sql
  imports Store
begin

text \<open>
  What the adapters share. The database drivers are third-party: each is a record of functions on an
  opaque state, an argument of the adapter that uses it. A driver call takes that state and returns
  its result with the new state; it is lifted to the adapter, a pair of the struct and the driver state.
\<close>

section \<open>Statements and rows\<close>

datatype sql_value = SqlNull | SqlInt int | SqlText string | SqlTime time

type_synonym sql_row = "sql_value list"

text \<open>A text of several lines; each line is indented by a number of tabs.\<close>

definition sql_text :: "(nat \<times> string) list \<Rightarrow> string" where
  "sql_text ls = join_with [newline] (map (\<lambda>(n, t). replicate n CHR 0x09 @ t) ls)"

text \<open>
  The rows of an answer and the error that ends them, if any. Scanning a row into the variables of the
  program is a function of the driver.
\<close>

type_synonym sql_rows = "sql_row list \<times> go_error option"

text \<open>
  \<open>for rows.Next() { var item; if err := rows.Scan(...); err != nil { return result, err };
  result[item.Subscription.ID] = &item }; return result, rows.Err()\<close>, with a new \<open>item\<close> in each round.
\<close>

type_synonym scan_sub = "sql_row \<Rightarrow> go_error + (string \<times> time \<times> string)"

definition sub_item :: "string \<times> time \<times> string \<Rightarrow> subscription_with_hostname" where
  "sub_item r = (case r of (i, t, h) \<Rightarrow> \<lparr>swh_Subscription = \<lparr>sub_ID = i, ExpiresAt = t\<rparr>, swh_Hostname = h\<rparr>)"

fun scan_subs :: "scan_sub \<Rightarrow> sql_row list \<Rightarrow> (string \<times> subscription_with_hostname) list
    \<Rightarrow> (string \<times> subscription_with_hostname) list \<times> go_error option" where
  "scan_subs scan [] result = (result, None)"
| "scan_subs scan (row # rows) result =
     (case scan row of
        Inl err \<Rightarrow> (result, Some err)
      | Inr r \<Rightarrow> scan_subs scan rows (AList.update (fst r) (sub_item r) result))"

text \<open>The columns of the table \<open>latency\<close> as JSON fields, and the loop that reads it.\<close>

definition latency_fields :: "string list" where
  "latency_fields = [''id'', ''cdir'', ''server_id'', ''ans'', ''up'', ''status_code'', ''created_at'', ''latency'', ''country'']"

definition latency_row :: "json_value list \<Rightarrow> event_row" where
  "latency_row vs = zip latency_fields vs"

definition append_row :: "event_rows \<Rightarrow> event_row \<Rightarrow> event_rows" where
  "append_row subs r = (case subs of None \<Rightarrow> Some [r] | Some rs \<Rightarrow> Some (rs @ [r]))"

fun scan_events :: "(sql_row \<Rightarrow> go_error + json_value list) \<Rightarrow> sql_row list \<Rightarrow> event_rows
    \<Rightarrow> event_rows \<times> go_error option" where
  "scan_events scan [] subs = (subs, None)"
| "scan_events scan (row # rows) subs =
     (case scan row of
        Inl err \<Rightarrow> (subs, Some err)
      | Inr vs \<Rightarrow> scan_events scan rows (append_row subs (latency_row vs)))"

section \<open>A value of any JSON type\<close>

text \<open>
  What a field of type \<open>interface{}\<close> holds after decoding, as far as the adapters tell values apart, and the loop
  that wants a list of non-empty strings.
\<close>

datatype json_any = AnyNull | AnyString string | AnyList "json_any list" | AnyOther

fun collect_hosts :: "json_any list \<Rightarrow> string list option" where
  "collect_hosts [] = Some []"
| "collect_hosts (AnyString h # ihs) =
     (if h = [] then None else map_option (Cons h) (collect_hosts ihs))"
| "collect_hosts (ih # ihs) = None"

definition seconds :: "int \<Rightarrow> 64 word" where
  "seconds n = of_int (n * time_second)"

section \<open>Calls of a driver\<close>

definition drv :: "('w \<Rightarrow> 'x \<times> 'w) \<Rightarrow> ('a \<times> 'w, 'x) call" where
  "drv f = (\<lambda>(a, w). case f w of (x, w) \<Rightarrow> Value (x, (a, w)))"

definition nil_pointer :: "('s, 'x) call" where
  "nil_pointer s = Panic ''nil pointer dereference''"

lemmas sql_defs [go_defs] = sql_text_def sub_item_def latency_fields_def latency_row_def append_row_def
  drv_def nil_pointer_def

lemma drv_cases:
  assumes "drv f (a, w) = Value (x, s)"
  obtains w' where "f w = (x, w')" "s = (a, w')"
  using assms by (auto simp: drv_def split: prod.splits)

text \<open>Reading the subscriptions: the last row of an id counts; without scan errors all rows are read.\<close>

lemma scan_subs_ok:
  assumes "list_all (\<lambda>row. \<exists>r. scan row = Inr r) rows"
  shows "\<exists>m. scan_subs scan rows result = (m, None)
    \<and> map_of m i = (case filter (\<lambda>r. fst r = i) (map (\<lambda>row. projr (scan row)) rows) of
         [] \<Rightarrow> map_of result i | rs \<Rightarrow> Some (sub_item (last rs)))"
  using assms
proof (induction rows arbitrary: result)
  case (Cons row rows)
  then obtain r where r: "scan row = Inr r" by auto
  with Cons.prems obtain m where m: "scan_subs scan rows (AList.update (fst r) (sub_item r) result) = (m, None)"
    "map_of m i = (case filter (\<lambda>r. fst r = i) (map (\<lambda>row. projr (scan row)) rows) of
         [] \<Rightarrow> map_of (AList.update (fst r) (sub_item r) result) i | rs \<Rightarrow> Some (sub_item (last rs)))"
    using Cons.IH [of "AList.update (fst r) (sub_item r) result"] by auto
  with r show ?case by (cases "filter (\<lambda>r. fst r = i) (map (\<lambda>row. projr (scan row)) rows)") auto
qed simp

end
