(* ===== verification/Mysql.thy ===== *)
theory Mysql
  imports Sql
begin

text \<open>
  The MySQL adapter (\<open>dao/mysql/mysql.go\<close>). The driver, \<open>sqlx\<close> and \<open>json.Unmarshal\<close> into the driver's
  configuration are the argument \<open>D\<close>. A \<open>*sqlx.DB\<close> is the DSN it was opened with. A context is its
  timeout, if it has one.
\<close>

section \<open>The driver\<close>

text \<open>An error of the server has its number; each error has the text its method \<open>Error\<close> returns.\<close>

datatype my_error = MySQLError nat string | ErrNoRows | OtherError string

fun my_message :: "my_error \<Rightarrow> go_error" where
  "my_message (MySQLError n m) = m"
| "my_message ErrNoRows = ''sql: no rows in result set''"
| "my_message (OtherError m) = m"

text \<open>
  The configuration: \<open>mc_FormatDSN\<close> and \<open>mc_DBName\<close> are what the embedded driver configuration says.
\<close>

record my_config =
  mc_FormatDSN :: string
  mc_DBName :: string
  mc_DSN :: string
  mc_MaxOpenConns :: int
  mc_MaxIdleConns :: int
  mc_ConnMaxLifetime :: int
  mc_SqlTimeout :: int

record 'w my_driver =
  my_unmarshal :: "string \<Rightarrow> go_error + my_config"
  my_default_format_dsn :: string
  my_clear_db_name :: "string \<Rightarrow> string option"
  my_sqlx_open :: "string \<Rightarrow> 'w \<Rightarrow> my_error option \<times> 'w"
  my_ping :: "string \<Rightarrow> 'w \<Rightarrow> my_error option \<times> 'w"
  my_set_pool :: "string \<Rightarrow> int \<Rightarrow> 'w \<Rightarrow> 'w"
  my_db_close :: "string \<Rightarrow> 'w \<Rightarrow> my_error option \<times> 'w"
  my_get_int :: "string \<Rightarrow> int option \<Rightarrow> string \<Rightarrow> 'w \<Rightarrow> (my_error + int) \<times> 'w"
  my_db_exec :: "string \<Rightarrow> int option \<Rightarrow> string \<Rightarrow> sql_value list \<Rightarrow> 'w \<Rightarrow> my_error option \<times> 'w"
  my_begin :: "string \<Rightarrow> 'w \<Rightarrow> my_error option \<times> 'w"
  my_exec :: "string \<Rightarrow> sql_value list \<Rightarrow> 'w \<Rightarrow> my_error option \<times> 'w"
  my_commit :: "'w \<Rightarrow> my_error option \<times> 'w"
  my_rollback :: "'w \<Rightarrow> my_error option \<times> 'w"
  my_query :: "string \<Rightarrow> int option \<Rightarrow> string \<Rightarrow> sql_value list \<Rightarrow> 'w \<Rightarrow> (my_error + sql_rows) \<times> 'w"
  my_scan_sub :: scan_sub
  my_scan_event :: "sql_row \<Rightarrow> go_error + json_value list"
  my_db_stats :: "string \<Rightarrow> 'w \<Rightarrow> string"

section \<open>The adapter\<close>

record my_adapter =
  my_db :: "string option"
  my_dsn :: string
  my_dbName :: string
  my_maxResults :: int
  my_version :: int
  my_sqlTimeout :: "64 word"
  my_txTimeout :: "64 word"
  my_prefix :: string

definition new_my_adapter :: my_adapter where
  "new_my_adapter = \<lparr>my_db = None, my_dsn = [], my_dbName = [], my_maxResults = 0, my_version = 0,
     my_sqlTimeout = 0, my_txTimeout = 0, my_prefix = []\<rparr>"

definition my_default_dsn :: string where
  "my_default_dsn = ''root:@tcp(localhost:3306)/rum?parseTime=true''"

definition my_default_database :: string where "my_default_database = ''rum''"
definition my_adp_version :: int where "my_adp_version = 1"
definition my_adapter_name :: string where "my_adapter_name = ''mysql''"
definition my_default_max_results :: int where "my_default_max_results = 1024"
definition my_hosts_table :: string where "my_hosts_table = ''webperf_rum_hostnames''"
definition my_owner_hosts_table :: string where "my_owner_hosts_table = ''webperf_rum_own_hostnames''"

type_synonym ('w, 'x) my_call = "(my_adapter \<times> 'w, 'x) call"

definition my_context :: "my_adapter \<Rightarrow> int option" where
  "my_context a = (if 0 < sint (my_sqlTimeout a) then Some (sint (my_sqlTimeout a)) else None)"

definition my_context_for_tx :: "my_adapter \<Rightarrow> int option" where
  "my_context_for_tx a = (if 0 < sint (my_txTimeout a) then Some (sint (my_txTimeout a)) else None)"

fun is_missing_table :: "my_error option \<Rightarrow> bool" where
  "is_missing_table (Some (MySQLError n m)) = (n = 1146)"
| "is_missing_table _ = False"

fun is_missing_db :: "my_error option \<Rightarrow> bool" where
  "is_missing_db (Some (MySQLError n m)) = (n = 1049)"
| "is_missing_db _ = False"

section \<open>Open and Close\<close>

text \<open>\<open>URL.Path\<close> of a URL that \<open>url.Parse\<close> accepts, with its percent-escapes decoded.\<close>

fun path_unescape :: "string \<Rightarrow> string" where
  "path_unescape [] = []"
| "path_unescape (c # cs) =
     (if c = CHR ''%'' then
        (case cs of a # b # rest \<Rightarrow> char_of (16 * unhex a + unhex b) # path_unescape rest | _ \<Rightarrow> c # cs)
      else c # path_unescape cs)"

definition url_path :: "string \<Rightarrow> string" where
  "url_path raw =
     (let u = fst (str_cut CHR ''#'' raw) in
      case get_scheme u of
        Inl e \<Rightarrow> []
      | Inr (scheme, rest0) \<Rightarrow>
          let rest = fst (str_cut CHR ''?'' rest0) in
          if \<not> has_prefix rest ''/'' \<and> scheme \<noteq> [] then []
          else if (scheme \<noteq> [] \<or> \<not> has_prefix rest ''///'') \<and> has_prefix rest ''//'' then
            path_unescape (dropWhile (\<lambda>c. c \<noteq> CHR ''/'') (drop 2 rest))
          else path_unescape rest)"

text \<open>The choice of the DSN and of the database name; the struct keeps them on an error.\<close>

definition my_choose_dsn :: "'w my_driver \<Rightarrow> my_config \<Rightarrow> my_adapter \<Rightarrow> go_error option \<times> my_adapter" where
  "my_choose_dsn D config a =
     (let dsn = mc_FormatDSN config in
      if dsn \<noteq> my_default_format_dsn D then
        (let a = a\<lparr>my_dbName := mc_DBName config, my_dsn := dsn\<rparr> in
         if mc_DSN config \<noteq> [] then (Some ''mysql config: conflicting config and DSN are provided'', a)
         else (None, a))
      else
        (let a = (if mc_DSN config \<noteq> [] then a\<lparr>my_dsn := trim_prefix (mc_DSN config) ''mysql://''\<rparr>
                  else a\<lparr>my_dsn := my_default_dsn\<rparr>) in
         case url_parse (''mysql://'' @ my_dsn a) of
           Inr uri \<Rightarrow> (None, a\<lparr>my_dbName := trim_prefix (url_path (''mysql://'' @ my_dsn a)) ''/''\<rparr>)
         | Inl err \<Rightarrow> (Some err, a)))"

text \<open>The product of a duration in seconds wraps; \<open>1.5 * n\<close> is exact for \<open>n\<close> below \<open>2^52\<close>.\<close>

definition my_configure :: "'w my_driver \<Rightarrow> my_config \<Rightarrow> string \<Rightarrow> my_adapter \<times> 'w \<Rightarrow> my_adapter \<times> 'w" where
  "my_configure D config h s =
     (let (a, w) = s;
          w = (if 0 < mc_MaxOpenConns config then my_set_pool D ''SetMaxOpenConns'' (mc_MaxOpenConns config) w else w);
          w = (if 0 < mc_MaxIdleConns config then my_set_pool D ''SetMaxIdleConns'' (mc_MaxIdleConns config) w else w);
          w = (if 0 < mc_ConnMaxLifetime config
               then my_set_pool D ''SetConnMaxLifetime'' (sint (of_int (mc_ConnMaxLifetime config * time_second) :: 64 word)) w
               else w);
          a = (if 0 < mc_SqlTimeout config
               then a\<lparr>my_sqlTimeout := of_int (mc_SqlTimeout config * time_second),
                      my_txTimeout := of_int (3 * mc_SqlTimeout config div 2 * time_second)\<rparr>
               else a)
      in (a, w))"

definition my_open :: "'w my_driver \<Rightarrow> string \<Rightarrow> ('w, go_error option) my_call" where
  "my_open D jsonconfig = (\<lambda>(a, w).
     if my_db a \<noteq> None then Value (Some ''mysql adapter is already connected'', (a, w))
     else if length jsonconfig < 2 then Value (Some ''adapter mysql missing config'', (a, w))
     else case my_unmarshal D jsonconfig of
       Inl err \<Rightarrow> Value (Some (''mysql adapter failed to parse config: '' @ err), (a, w))
     | Inr config \<Rightarrow>
         (case my_choose_dsn D config a of
            (Some err, a) \<Rightarrow> Value (Some err, (a, w))
          | (None, a) \<Rightarrow>
              let a = (if my_dbName a = [] then a\<lparr>my_dbName := my_default_database\<rparr> else a);
                  a = (if my_maxResults a \<le> 0 then a\<lparr>my_maxResults := my_default_max_results\<rparr> else a)
              in (case my_sqlx_open D (my_dsn a) w of
                    (Some err, w) \<Rightarrow> Value (Some (my_message err), (a, w))
                  | (None, w) \<Rightarrow>
                      let a = a\<lparr>my_db := Some (my_dsn a)\<rparr>;
                          (err, w) = my_ping D (my_dsn a) w;
                          err = (if is_missing_db err then None else err)
                      in (case err of
                            None \<Rightarrow> Value (None, my_configure D config (my_dsn a) (a, w))
                          | Some err \<Rightarrow> Value (Some (my_message err), (a, w))))))"

definition my_close :: "'w my_driver \<Rightarrow> ('w, go_error option) my_call" where
  "my_close D = (\<lambda>(a, w).
     case my_db a of
       None \<Rightarrow> Value (None, (a, w))
     | Some h \<Rightarrow> let (err, w) = my_db_close D h w
         in Value (map_option my_message err, (a\<lparr>my_db := None, my_version := -1\<rparr>, w)))"

definition my_is_open :: "my_adapter \<times> 'w \<Rightarrow> bool" where
  "my_is_open s = (my_db (fst s) \<noteq> None)"

section \<open>The version\<close>

definition my_get_db_version :: "'w my_driver \<Rightarrow> ('w, int \<times> go_error option) my_call" where
  "my_get_db_version D = (\<lambda>(a, w).
     if 0 < my_version a then Value ((my_version a, None), (a, w))
     else case my_db a of
       None \<Rightarrow> nil_pointer (a, w)
     | Some h \<Rightarrow>
         (case my_get_int D h (my_context a)
                 (''SELECT `value` FROM kvmeta WHERE `key`='' @ [CHR 0x27] @ ''version'' @ [CHR 0x27]) w of
            (Inl err, w) \<Rightarrow>
              let msg = (if is_missing_db (Some err) \<or> is_missing_table (Some err) \<or> err = ErrNoRows
                         then ''Database not initialized'' else my_message err)
              in Value ((-1, Some msg), (a, w))
          | (Inr vers, w) \<Rightarrow> Value ((vers, None), (a\<lparr>my_version := vers\<rparr>, w))))"

definition my_check_db_version :: "'w my_driver \<Rightarrow> ('w, go_error option) my_call" where
  "my_check_db_version D = call_bind (my_get_db_version D) (\<lambda>(version, err).
     case err of Some err \<Rightarrow> call_ret (Some err)
     | None \<Rightarrow>
         if version \<noteq> my_adp_version
         then call_ret (Some (''Invalid database version '' @ itoa version @ ''. Expected '' @ itoa my_adp_version))
         else call_ret None)"

definition my_adapter_version :: "my_adapter \<times> 'w \<Rightarrow> int" where "my_adapter_version s = my_adp_version"
definition my_get_name :: "my_adapter \<times> 'w \<Rightarrow> string" where "my_get_name s = my_adapter_name"

definition my_set_max_results :: "int \<Rightarrow> ('w, go_error option) my_call" where
  "my_set_max_results val = (\<lambda>(a, w).
     Value (None, (if val \<le> 0 then a\<lparr>my_maxResults := my_default_max_results\<rparr> else a\<lparr>my_maxResults := val\<rparr>, w)))"

definition my_stats :: "'w my_driver \<Rightarrow> ('w, string option) my_call" where
  "my_stats D = (\<lambda>(a, w). Value (map_option (\<lambda>h. my_db_stats D h w) (my_db a), (a, w)))"

definition my_upgrade_db :: "('w, go_error option) my_call" where
  "my_upgrade_db = call_ret None"

definition my_update_db_version :: "'w my_driver \<Rightarrow> int \<Rightarrow> ('w, go_error option) my_call" where
  "my_update_db_version D v = (\<lambda>(a, w).
     case my_db a of
       None \<Rightarrow> nil_pointer (a, w)
     | Some h \<Rightarrow>
         let (err, w) = my_db_exec D h (my_context a)
               (''UPDATE kvmeta SET `value`=? WHERE `key`='' @ [CHR 0x27] @ ''version'' @ [CHR 0x27]) [SqlInt v] w
         in Value (map_option my_message err, (a\<lparr>my_version := -1\<rparr>, w)))"

lemmas mysql_defs [go_defs] = new_my_adapter_def my_default_dsn_def my_default_database_def my_adp_version_def
  my_adapter_name_def my_default_max_results_def my_hosts_table_def my_owner_hosts_table_def my_context_def
  my_context_for_tx_def url_path_def my_choose_dsn_def my_configure_def my_open_def my_close_def my_is_open_def
  my_get_db_version_def my_check_db_version_def my_adapter_version_def my_get_name_def my_set_max_results_def
  my_stats_def my_upgrade_db_def my_update_db_version_def

section \<open>CreateDb\<close>

text \<open>
  A statement, its arguments, and whether the error of its execution reaches the variable that the
  deferred function reads: the three \<open>if _, err := ...\<close> declare a variable of their own.
\<close>

type_synonym my_statement = "bool \<times> string \<times> sql_value list"

definition my_create_latency :: string where
  "my_create_latency = sql_text [(0, ''CREATE TABLE latency(''),
     (3, ''id     INT NOT NULL AUTO_INCREMENT,''), (3, ''cdir TEXT NOT NULL,''), (3, ''server_id INT,''),
     (3, ''ans INT NOT NULL,''), (3, ''up INT NOT NULL,''), (3, ''status_code INT NOT NULL,''),
     (3, ''created_at DATETIME NOT NULL DEFAULT NOW(),''), (3, ''latency INT NOT NULL,''),
     (3, ''country TEXT NOT NULL,''), (3, ''PRIMARY KEY (id)''), (3, '')'')]"

definition my_create_hostnames :: "string \<Rightarrow> string" where
  "my_create_hostnames prefix = sql_text [(0, ''CREATE TABLE IF NOT EXISTS '' @ prefix @ ''webperf_rum_hostnames (''),
     (3, ''hostname                        TEXT,''), (3, ''updated_at                      DATETIME DEFAULT NOW()''),
     (2, '')''), (2, [])]"

definition my_create_own_hostnames :: "string \<Rightarrow> string" where
  "my_create_own_hostnames prefix = sql_text [(0, ''CREATE TABLE IF NOT EXISTS '' @ prefix @ ''webperf_rum_own_hostnames (''),
     (2, ''username                        TEXT,''), (2, ''hostname                        TEXT,''),
     (2, ''subscription_id                 TEXT,''), (2, ''subscription_expire_at          DATETIME NOT NULL,''),
     (2, ''updated_at                      DateTime DEFAULT NOW()''), (1, '')'')]"

definition my_create_grant_hostnames :: "string \<Rightarrow> string" where
  "my_create_grant_hostnames prefix = sql_text [(0, ''CREATE TABLE IF NOT EXISTS '' @ prefix @ ''webperf_rum_grant_hostnames (''),
     (2, ''username                        TEXT,''), (2, ''hostname                        TEXT,''),
     (2, ''owner_username                  TEXT,''), (2, ''updated_at                      DATETIME DEFAULT NOW()''),
     (1, '')'')]"

definition my_create_kvmeta :: string where
  "my_create_kvmeta = ''CREATE TABLE kvmeta('' @ ''`key`       VARCHAR(64) NOT NULL,'' @ ''createdat   DATETIME(3),''
     @ ''`value`     TEXT,'' @ ''PRIMARY KEY(`key`),'' @ ''INDEX kvmeta_createdat_key(createdat, `key`)'' @ '')''"

definition my_create_statements :: "bool \<Rightarrow> string \<Rightarrow> string \<Rightarrow> my_statement list" where
  "my_create_statements reset dbName prefix =
     (if reset then [(True, ''DROP DATABASE IF EXISTS '' @ dbName, [])] else []) @
     [(True, ''CREATE DATABASE '' @ dbName @ '' CHARACTER SET utf8mb4 COLLATE utf8mb4_unicode_ci'', []),
      (True, ''USE '' @ dbName, []),
      (True, my_create_latency, []),
      (False, my_create_hostnames prefix, []),
      (False, my_create_own_hostnames prefix, []),
      (False, my_create_grant_hostnames prefix, []),
      (True, my_create_kvmeta, []),
      (True, ''INSERT INTO kvmeta(`key`, `value`) VALUES('' @ [CHR 0x27] @ ''version'' @ [CHR 0x27] @ '',?)'',
        [SqlInt my_adp_version])]"

fun my_exec_all :: "'w my_driver \<Rightarrow> my_statement list \<Rightarrow> 'w \<Rightarrow> my_error option \<times> 'w" where
  "my_exec_all D [] w = my_commit D w"
| "my_exec_all D ((outer, query, args) # stmts) w =
     (case my_exec D query args w of
        (Some err, w) \<Rightarrow> (Some err, if outer then snd (my_rollback D w) else w)
      | (None, w) \<Rightarrow> my_exec_all D stmts w)"

definition my_create_db :: "'w my_driver \<Rightarrow> bool \<Rightarrow> ('w, go_error option) my_call" where
  "my_create_db D reset = (\<lambda>(a, w).
     case my_db a of
       None \<Rightarrow> nil_pointer (a, w)
     | Some h \<Rightarrow>
         let (ignored, w) = my_db_close D h w in
         (case my_clear_db_name D (my_dsn a) of
            None \<Rightarrow> nil_pointer (a, w)
          | Some dsn \<Rightarrow>
              (case my_sqlx_open D dsn w of
                 (Some err, w) \<Rightarrow> Value (Some (my_message err), (a\<lparr>my_db := None\<rparr>, w))
               | (None, w) \<Rightarrow>
                   let a = a\<lparr>my_db := Some dsn\<rparr> in
                   (case my_begin D dsn w of
                      (Some err, w) \<Rightarrow> Value (Some (my_message err), (a, w))
                    | (None, w) \<Rightarrow>
                        let (err, w) = my_exec_all D (my_create_statements reset (my_dbName a) (my_prefix a)) w
                        in Value (map_option my_message err, (a, w))))))"

section \<open>Writing\<close>

text \<open>
  The frame of the four writing methods: begin, one statement, commit. The deferred function rolls back
  when the statement fails; an error of the commit is returned without reaching it.
\<close>

definition my_write :: "'w my_driver \<Rightarrow> string \<Rightarrow> sql_value list \<Rightarrow> ('w, go_error option) my_call" where
  "my_write D query args = (\<lambda>(a, w).
     case my_db a of
       None \<Rightarrow> nil_pointer (a, w)
     | Some h \<Rightarrow>
         (case my_begin D h w of
            (Some err, w) \<Rightarrow> Value (Some (my_message err), (a, w))
          | (None, w) \<Rightarrow>
              let (err, w) = my_exec_all D [(True, query, args)] w
              in Value (map_option my_message err, (a, w))))"

definition my_save :: "'w my_driver \<Rightarrow> rum_event \<Rightarrow> ('w, go_error option) my_call" where
  "my_save D e = my_write D ''INSERT INTO latency(cdir,ans,up,status_code,created_at,country, latency) VALUES(?,?,?,?,?,?,?)''
     [SqlText (re_Cdir e), SqlText (re_Ans e), SqlText (re_Up e), SqlText (re_StatusCode e),
      SqlText (re_Created_At e), SqlText (re_Country e), SqlText (re_Latency e)]"

definition my_save_host :: "'w my_driver \<Rightarrow> hostname_event \<Rightarrow> ('w, go_error option) my_call" where
  "my_save_host D e = (\<lambda>(a, w).
     my_write D (''INSERT INTO '' @ my_prefix a @ my_hosts_table @ ''(hostname, updated_at) VALUES(?,?)'')
       [SqlText (he_Hostname e), SqlText (he_UpdatedAt e)] (a, w))"

definition my_insert_owner_hostname :: "'w my_driver \<Rightarrow> owner_hostname \<Rightarrow> ('w, go_error option) my_call" where
  "my_insert_owner_hostname D item = (\<lambda>(a, w).
     my_write D (''INSERT INTO '' @ my_prefix a @ my_owner_hosts_table
         @ ''(username, hostname, subscription_id, subscription_expire_at) VALUES(?,?,?,?)'')
       [SqlText (oh_Username item), SqlText (oh_Hostname item), SqlText (sub_ID (oh_Subscription item)),
        SqlTime (ExpiresAt (oh_Subscription item))] (a, w))"

definition my_delete_owner_hostname :: "'w my_driver \<Rightarrow> string \<Rightarrow> string \<Rightarrow> ('w, go_error option) my_call" where
  "my_delete_owner_hostname D hostname username = (\<lambda>(a, w).
     my_write D (''DELETE FROM '' @ my_prefix a @ my_owner_hosts_table @ '' WHERE hostname = ? AND username = ?'')
       [SqlText hostname, SqlText username] (a, w))"

section \<open>Reading\<close>

definition my_get_subscriptions :: "'w my_driver \<Rightarrow> ('w, sub_map \<times> go_error option) my_call" where
  "my_get_subscriptions D = (\<lambda>(a, w).
     case my_db a of
       None \<Rightarrow> nil_pointer (a, w)
     | Some h \<Rightarrow>
         let query = ''SELECT subscription_id, subscription_expire_at, hostname FROM '' @ my_prefix a
               @ my_owner_hosts_table @ '' FINAL''
         in (case my_query D h (my_context a) query [] w of
               (Inl err, w) \<Rightarrow> Value ((None, Some (''get subscriptions failed: '' @ my_message err)), (a, w))
             | (Inr (rows, rows_err), w) \<Rightarrow>
                 (case scan_subs (my_scan_sub D) rows [] of
                    (result, Some err) \<Rightarrow> Value ((Some result, Some err), (a, w))
                  | (result, None) \<Rightarrow> Value ((Some result, rows_err), (a, w)))))"

text \<open>
  The row is scanned without a call of \<open>Next\<close>, which \<open>database/sql\<close> answers with an error of its own.
\<close>

definition scan_before_next :: "sql_rows \<Rightarrow> go_error + (string \<times> time \<times> string)" where
  "scan_before_next rows = Inl ''sql: Scan called without calling Next''"

definition my_get_subscription :: "'w my_driver \<Rightarrow> string \<Rightarrow> ('w, subscription_with_hostname option \<times> go_error option) my_call" where
  "my_get_subscription D i = (\<lambda>(a, w).
     case my_db a of
       None \<Rightarrow> nil_pointer (a, w)
     | Some h \<Rightarrow>
         let query = sql_text [(0, []), (1, ''SELECT subscription_id, subscription_expire_at, hostname''),
               (1, ''FROM '' @ my_prefix a @ my_owner_hosts_table @ '' FINAL''), (1, ''WHERE subscription_id = ?''), (1, [])]
         in (case my_query D h (my_context a) query [SqlText i] w of
               (Inl err, w) \<Rightarrow> Value ((None, Some (''get subscription failed: '' @ my_message err)), (a, w))
             | (Inr rows, w) \<Rightarrow>
                 (case scan_before_next rows of
                    Inl err \<Rightarrow> Value ((None, Some (''get subscription failed: '' @ err)), (a, w))
                  | Inr r \<Rightarrow> Value ((Some (sub_item r), None), (a, w)))))"

definition my_get_events :: "'w my_driver \<Rightarrow> ('w, event_rows \<times> go_error option) my_call" where
  "my_get_events D = (\<lambda>(a, w).
     case my_db a of
       None \<Rightarrow> nil_pointer (a, w)
     | Some h \<Rightarrow>
         (case my_query D h (my_context a) ''SELECT * FROM latency'' [] w of
            (Inl err, w) \<Rightarrow> Value ((None, Some (my_message err)), (a, w))
          | (Inr (rows, rows_err), w) \<Rightarrow>
              (case scan_events (my_scan_event D) rows None of
                 (subs, Some err) \<Rightarrow> Value ((subs, Some err), (a, w))
               | (subs, None) \<Rightarrow> Value ((subs, rows_err), (a, w)))))"

definition mysql_adapter :: "'w my_driver \<Rightarrow> (my_adapter \<times> 'w) adapter" where
  "mysql_adapter D = \<lparr>ad_Open = my_open D, ad_Close = my_close D, ad_IsOpen = my_is_open,
     ad_GetDbVersion = my_get_db_version D, ad_CheckDbVersion = my_check_db_version D, ad_GetName = my_get_name,
     ad_SetMaxResults = my_set_max_results, ad_CreateDb = my_create_db D, ad_UpgradeDb = my_upgrade_db,
     ad_Version = my_adapter_version, ad_Stats = my_stats D, ad_Save = my_save D, ad_SaveHost = my_save_host D,
     ad_InsertOwnerHostname = my_insert_owner_hostname D, ad_DeleteOwnerHostname = my_delete_owner_hostname D,
     ad_GetSubscriptions = my_get_subscriptions D, ad_GetSubscription = my_get_subscription D,
     ad_GetEvents = my_get_events D\<rparr>"

lemmas mysql_data_defs [go_defs] = my_create_latency_def my_create_hostnames_def my_create_own_hostnames_def
  my_create_grant_hostnames_def my_create_kvmeta_def my_create_statements_def my_create_db_def my_write_def
  my_save_def my_save_host_def my_insert_owner_hostname_def my_delete_owner_hostname_def
  my_get_subscriptions_def scan_before_next_def my_get_subscription_def my_get_events_def mysql_adapter_def

section \<open>The contract of an adapter\<close>

lemma my_configure_db: "my_configure D config h (a, w) = (a', w') \<Longrightarrow> my_db a' = my_db a"
  by (auto simp: my_configure_def Let_def)

lemma my_open_ok: "my_open D c s = Value (None, s') \<Longrightarrow> my_is_open s'"
  by (cases s; cases s')
    (auto simp: my_open_def my_is_open_def Let_def dest: my_configure_db split: if_splits sum.splits prod.splits option.splits)

lemma my_open_again: "my_is_open s \<Longrightarrow> \<exists>e. my_open D c s = Value (Some e, s)"
  by (cases s) (auto simp: my_open_def my_is_open_def)

lemma my_close_closes: "\<exists>err s'. my_close D s = Value (err, s') \<and> \<not> my_is_open s'"
  by (cases s) (auto simp: my_close_def my_is_open_def Let_def split: option.splits prod.splits)

lemma my_get_subscriptions_open: "my_get_subscriptions D s = Value (r, s') \<Longrightarrow> my_is_open s' = my_is_open s"
  by (cases s) (auto simp: my_get_subscriptions_def my_is_open_def nil_pointer_def Let_def
      split: option.splits sum.splits prod.splits if_splits)

lemma my_create_db_open: "my_create_db D reset s = Value (None, s') \<Longrightarrow> my_is_open s'"
  by (cases s) (auto simp: my_create_db_def my_is_open_def nil_pointer_def Let_def split: option.splits prod.splits)

lemma my_get_db_version_db: "my_get_db_version D s = Value (r, s') \<Longrightarrow> my_is_open s' = my_is_open s"
  by (cases s) (auto simp: my_get_db_version_def my_is_open_def nil_pointer_def Let_def
      split: option.splits sum.splits prod.splits if_splits)

lemma my_check_db_version_db: "my_check_db_version D s = Value (r, s') \<Longrightarrow> my_is_open s' = my_is_open s"
  unfolding my_check_db_version_def call_bind_def run_bind_Value_iff
  by (auto simp: call_ret_def simp del: split_paired_Ex dest: my_get_db_version_db split: option.splits if_splits)

lemma my_set_max_ok: "\<exists>s'. my_set_max_results n s = Value (None, s') \<and> my_is_open s' = my_is_open s"
  by (cases s) (simp add: my_set_max_results_def my_is_open_def)

lemma my_upgrade_db_open: "my_upgrade_db s = Value (err, s') \<Longrightarrow> my_is_open s' = my_is_open s"
  by (simp add: my_upgrade_db_def call_ret_def)

lemma mysql_adapter_simps:
  "ad_GetSubscriptions (mysql_adapter D) = my_get_subscriptions D"
  "ad_Open (mysql_adapter D) = my_open D" "ad_Close (mysql_adapter D) = my_close D"
  "ad_IsOpen (mysql_adapter D) = my_is_open" "ad_GetDbVersion (mysql_adapter D) = my_get_db_version D"
  "ad_CheckDbVersion (mysql_adapter D) = my_check_db_version D" "ad_SetMaxResults (mysql_adapter D) = my_set_max_results"
  "ad_CreateDb (mysql_adapter D) = my_create_db D" "ad_UpgradeDb (mysql_adapter D) = my_upgrade_db"
  by (simp_all add: mysql_adapter_def)

lemma mysql_keeps_name: "keeps_name (mysql_adapter D) m"
  by (simp add: keeps_name_def mysql_adapter_def my_get_name_def)

interpretation my: db_adapter "mysql_adapter D" for D
  by (rule db_adapter.intro, unfold mysql_adapter_simps)
    (assumption | erule my_open_ok my_open_again my_get_subscriptions_open my_get_db_version_db my_check_db_version_db
      my_upgrade_db_open my_create_db_open | rule my_set_max_ok my_close_closes mysql_keeps_name)+

section \<open>A driver for the examples\<close>

text \<open>It knows whether a transaction is open and the statements it was given; those of \<open>bad\<close> fail.\<close>

type_synonym my_log = "bool \<times> string list"

definition my_log_driver :: "(string \<Rightarrow> bool) \<Rightarrow> my_log my_driver" where
  "my_log_driver bad =
     (let logged = (\<lambda>q (t, l). (if bad q then Some (OtherError ''refused'') else None, (t, l @ [q])))
      in \<lparr>my_unmarshal = (\<lambda>j. Inr \<lparr>mc_FormatDSN = j, mc_DBName = ''rum'', mc_DSN = [], mc_MaxOpenConns = 0,
             mc_MaxIdleConns = 0, mc_ConnMaxLifetime = 0, mc_SqlTimeout = 0\<rparr>),
          my_default_format_dsn = ''tcp'', my_clear_db_name = Some,
          my_sqlx_open = (\<lambda>d w. (None, w)), my_ping = (\<lambda>d w. (None, w)), my_set_pool = (\<lambda>f n w. w),
          my_db_close = (\<lambda>d w. (None, w)), my_get_int = (\<lambda>d t q w. (Inr 1, w)),
          my_db_exec = (\<lambda>d t q args. logged q), my_begin = (\<lambda>d (t, l). (None, (True, l))),
          my_exec = (\<lambda>q args. logged q), my_commit = (\<lambda>(t, l). (None, (False, l))),
          my_rollback = (\<lambda>(t, l). (None, (False, l))), my_query = (\<lambda>d t q args w. (Inr ([], None), w)),
          my_scan_sub = (\<lambda>r. Inr ([], 0, [])), my_scan_event = (\<lambda>r. Inr []), my_db_stats = (\<lambda>d w. [])\<rparr>)"

definition my_opened :: my_adapter where
  "my_opened = new_my_adapter\<lparr>my_db := Some ''d'', my_dsn := ''d'', my_dbName := ''rum''\<rparr>"

section \<open>The default DSN\<close>

lemma my_default_url: "url_parse (''mysql://'' @ my_default_dsn) = Inl ''invalid port after host''"
  unfolding my_default_dsn_def by code_simp

text \<open>
  A DSN of the default's form, with the address in parentheses, is no URL: what follows the last colon of
  the host is not a port. The default names such an address, so without a configured one \<open>Open\<close> always fails.
\<close>

theorem my_default_dsn_never_opens:
  assumes "my_unmarshal D json = Inr config" and "mc_FormatDSN config = my_default_format_dsn D"
    and "mc_DSN config = [] \<or> trim_prefix (mc_DSN config) ''mysql://'' = my_default_dsn"
  shows "\<exists>err a'. my_open D json (a, w) = Value (Some err, (a', w)) \<and> my_db a' = my_db a"
proof -
  have "\<exists>e a'. my_choose_dsn D config a = (Some e, a') \<and> my_db a' = my_db a"
    using assms(2,3) my_default_url by (auto simp: my_choose_dsn_def Let_def)
  with assms(1) show ?thesis by (auto simp: my_open_def)
qed

lemma my_default_dsn_never_opens_witness:
  "\<exists>err a'. my_open (my_log_driver (\<lambda>q. False)) ''tcp'' (new_my_adapter, (False, [])) = Value (Some err, (a', (False, [])))
    \<and> my_db a' = None"
proof -
  have "\<exists>c. my_unmarshal (my_log_driver (\<lambda>q. False)) ''tcp'' = Inr c
      \<and> mc_FormatDSN c = my_default_format_dsn (my_log_driver (\<lambda>q. False)) \<and> mc_DSN c = []"
    by (simp add: my_log_driver_def)
  then show ?thesis
    using my_default_dsn_never_opens [of "my_log_driver (\<lambda>q. False)" "''tcp''" _ new_my_adapter "(False, [])"]
    by (fastforce simp: new_my_adapter_def)
qed

section \<open>Reading one subscription\<close>

text \<open>\<open>GetSubscription\<close> never returns a subscription, whatever the database holds: always an error.\<close>

theorem my_get_subscription_fails:
  assumes "my_get_subscription D i s = Value ((found, err), s')"
  shows "found = None \<and> err \<noteq> None"
  using assms
  by (cases s) (auto simp: my_get_subscription_def scan_before_next_def nil_pointer_def Let_def
      split: option.splits sum.splits prod.splits)

lemma my_get_subscription_fails_witness:
  "\<exists>err s'. my_get_subscription (my_log_driver (\<lambda>q. False)) ''a'' (my_opened, (False, [])) = Value ((None, err), s')
    \<and> err \<noteq> None"
proof -
  obtain r s' where r: "my_get_subscription (my_log_driver (\<lambda>q. False)) ''a'' (my_opened, (False, [])) = Value (r, s')"
    by (simp add: my_get_subscription_def my_opened_def my_log_driver_def scan_before_next_def Let_def)
  obtain found err where "r = (found, err)" by fastforce
  with r my_get_subscription_fails [of "my_log_driver (\<lambda>q. False)" "''a''" "(my_opened, (False, []))" found err s']
  show ?thesis by (cases s') auto
qed

section \<open>Transactions\<close>

text \<open>
  \<open>tx\<close> tells whether a transaction is open, as \<open>database/sql\<close> documents it: \<open>Begin\<close> opens one unless it
  fails, \<open>Commit\<close> and \<open>Rollback\<close> end it whatever they return, and nothing else changes it.
\<close>

definition my_tx_laws :: "'w my_driver \<Rightarrow> ('w \<Rightarrow> bool) \<Rightarrow> bool" where
  "my_tx_laws D tx \<longleftrightarrow>
     (\<forall>h w. tx (snd (my_begin D h w)) = (fst (my_begin D h w) = None \<or> tx w)) \<and>
     (\<forall>q args w. tx (snd (my_exec D q args w)) = tx w) \<and>
     (\<forall>w. \<not> tx (snd (my_commit D w))) \<and> (\<forall>w. \<not> tx (snd (my_rollback D w))) \<and>
     (\<forall>h w. tx (snd (my_db_close D h w)) = tx w) \<and> (\<forall>h w. tx (snd (my_sqlx_open D h w)) = tx w)"

lemma my_tx_lawsD:
  assumes "my_tx_laws D tx"
  shows "my_begin D h w = (err, w') \<Longrightarrow> tx w' = (err = None \<or> tx w)"
    and "my_exec D q args w = (err, w') \<Longrightarrow> tx w' = tx w"
    and "my_commit D w = (err, w') \<Longrightarrow> \<not> tx w'" and "\<not> tx (snd (my_rollback D w))"
    and "my_db_close D h w = (err, w') \<Longrightarrow> tx w' = tx w" and "my_sqlx_open D h w = (err, w') \<Longrightarrow> tx w' = tx w"
  using assms unfolding my_tx_laws_def by (metis fst_conv snd_conv)+

text \<open>The statement at which the execution stops, if any.\<close>

fun my_failing :: "'w my_driver \<Rightarrow> my_statement list \<Rightarrow> 'w \<Rightarrow> my_statement option" where
  "my_failing D [] w = None"
| "my_failing D ((outer, query, args) # stmts) w =
     (case my_exec D query args w of
        (Some err, w) \<Rightarrow> Some (outer, query, args)
      | (None, w) \<Rightarrow> my_failing D stmts w)"

lemma my_exec_all_tx:
  assumes "my_tx_laws D tx" and "my_exec_all D stmts w = (err, w')" and "tx w"
  shows "tx w' \<longleftrightarrow> (\<exists>q args. my_failing D stmts w = Some (False, q, args))"
  using assms(2,3)
proof (induction stmts arbitrary: w)
  case Nil
  then show ?case using my_tx_lawsD(3) [OF assms(1)] by simp
next
  case (Cons st stmts)
  obtain outer query args where st: "st = (outer, query, args)" by (cases st) auto
  obtain e w1 where w1: "my_exec D query args w = (e, w1)" by fastforce
  have tx1: "tx w1" using my_tx_lawsD(2) [OF assms(1) w1] Cons.prems(2) by simp
  show ?case
  proof (cases e)
    case None
    with Cons w1 tx1 show ?thesis by (simp add: st)
  next
    case (Some m)
    with Cons.prems w1 tx1 my_tx_lawsD(4) [OF assms(1), of w1] show ?thesis
      by (cases outer) (auto simp: st)
  qed
qed

lemma my_write_tx:
  assumes laws: "my_tx_laws D tx" and "\<not> tx w" and "my_write D q args (a, w) = Value (err, (a', w'))"
  shows "\<not> tx w'"
proof -
  from assms(3) obtain h e w1 where h: "my_db a = Some h" and b: "my_begin D h w = (e, w1)"
    by (auto simp: my_write_def nil_pointer_def split: option.splits prod.splits)
  show ?thesis
  proof (cases e)
    case None
    with assms(3) h b obtain e' where x: "my_exec_all D [(True, q, args)] w1 = (e', w')"
      by (cases "my_exec_all D [(True, q, args)] w1") (auto simp: my_write_def simp del: my_exec_all.simps)
    have "tx w1" using my_tx_lawsD(1) [OF laws b] None by simp
    from my_exec_all_tx [OF laws x this] show ?thesis by (auto split: prod.splits option.splits)
  next
    case (Some m)
    with assms h b my_tx_lawsD(1) [OF laws b] show ?thesis by (auto simp: my_write_def)
  qed
qed

text \<open>
  C15: Each of the four writing methods ends the transaction it begins, on every path: with a commit, or after a failed
  statement with a rollback.
\<close>

theorem my_writes_end_transactions:
  assumes "my_tx_laws D tx" and "\<not> tx w"
    and "m \<in> {my_save D e, my_save_host D hn, my_insert_owner_hostname D item, my_delete_owner_hostname D h u}"
    and "m (a, w) = Value (err, (a', w'))"
  shows "\<not> tx w'"
proof -
  obtain q args where "m (a, w) = my_write D q args (a, w)"
    using assms(3) by (auto simp: my_save_def my_save_host_def my_insert_owner_hostname_def my_delete_owner_hostname_def)
  with assms(4) show ?thesis using my_write_tx [OF assms(1,2)] by simp
qed

definition my_own_tables :: "string \<Rightarrow> my_statement list" where
  "my_own_tables prefix = [(False, my_create_hostnames prefix, []), (False, my_create_own_hostnames prefix, []),
     (False, my_create_grant_hostnames prefix, [])]"

lemma my_failing_member: "my_failing D stmts w = Some st \<Longrightarrow> st \<in> set stmts"
  by (induction D stmts w rule: my_failing.induct) (auto split: prod.splits option.splits)

lemma my_failing_error: "my_failing D stmts w = Some st \<Longrightarrow> my_exec_all D stmts w = (err, w') \<Longrightarrow> err \<noteq> None"
  by (induction D stmts w rule: my_failing.induct) (auto split: prod.splits option.splits)


lemma my_log_driver_laws: "my_tx_laws (my_log_driver bad) fst"
  by (auto simp: my_tx_laws_def my_log_driver_def Let_def)

lemma my_writes_end_transactions_witness:
  "\<exists>err a' w'. my_delete_owner_hostname (my_log_driver (\<lambda>q. True)) ''h'' ''u'' (my_opened, (False, [])) = Value (err, (a', w'))
    \<and> err \<noteq> None \<and> \<not> fst w'"
proof -
  let ?D = "my_log_driver (\<lambda>q. True)"
  obtain a' w' where r: "my_delete_owner_hostname ?D ''h'' ''u'' (my_opened, (False, [])) = Value (Some ''refused'', (a', w'))"
    by (simp add: my_delete_owner_hostname_def my_write_def my_log_driver_def my_opened_def Let_def)
  have "\<not> fst w'"
    by (rule my_writes_end_transactions [OF my_log_driver_laws [of "\<lambda>q. True"], where w = "(False, [])"
          and m = "my_delete_owner_hostname ?D ''h'' ''u''"]) (use r in auto)
  with r show ?thesis by blast
qed


end
