(* ===== verification/Subscriptions.thy ===== *)
theory Subscriptions
  imports Dao
begin

text \<open>
  The subscription services (\<open>service/subscription.go\<close>, \<open>service/subscription/\<close>): is an event of a
  subscription and a host to be stored? The database is an argument: its methods \<open>GetSubscriptions\<close> and
  \<open>GetSubscription\<close>, calls on its state. A nil map is \<open>None\<close>; writing to it panics.
\<close>

section \<open>service/subscription.go\<close>

type_synonym lookup = string

definition found_lookup :: lookup where "found_lookup = ''FOUND''"
definition not_found_lookup :: lookup where "not_found_lookup = ''NOT_FOUND''"
definition expired_lookup :: lookup where "expired_lookup = ''EXPIRED''"

type_synonym sub_answer = "lookup \<times> go_error option"

section \<open>service/subscription/disabled\<close>

definition disabled_load :: "go_error option" where
  "disabled_load = None"

definition disabled_get_subscription :: "string \<Rightarrow> string \<Rightarrow> sub_answer" where
  "disabled_get_subscription subscriptionID hostname = (found_lookup, None)"

section \<open>service/subscription/caching\<close>

type_synonym sub_cache = sub_map

type_synonym 'd dao_subscription = "string \<Rightarrow> ('d, subscription_with_hostname option \<times> go_error option) call"

definition new_caching :: sub_cache where
  "new_caching = Some []"

definition caching_load :: "('d, sub_map \<times> go_error option) call \<Rightarrow> (sub_cache \<times> 'd, go_error option) call" where
  "caching_load getSubscriptions = (\<lambda>(cache, d).
     run_bind (getSubscriptions d) (\<lambda>((cache, err), d). Value (err, (cache, d))))"

definition make_lookup_result :: "time \<Rightarrow> subscription_with_hostname \<Rightarrow> string \<Rightarrow> sub_answer" where
  "make_lookup_result now item hostname =
     (if subscription_expired now (swh_Subscription item) then (expired_lookup, None)
      else if swh_Hostname item \<noteq> hostname then (not_found_lookup, None)
      else (found_lookup, None))"

definition cache_get :: "sub_cache \<Rightarrow> string \<Rightarrow> subscription_with_hostname option" where
  "cache_get cache k = (case cache of None \<Rightarrow> None | Some m \<Rightarrow> map_of m k)"

definition caching_get_subscription :: "'d dao_subscription \<Rightarrow> time \<Rightarrow> string \<Rightarrow> string
    \<Rightarrow> (sub_cache \<times> 'd, sub_answer) call" where
  "caching_get_subscription getSubscription now subscriptionID hostname = (\<lambda>(cache, d).
     case cache_get cache subscriptionID of
       Some item \<Rightarrow> Value (make_lookup_result now item hostname, (cache, d))
     | None \<Rightarrow> run_bind (getSubscription subscriptionID d) (\<lambda>((found, err), d).
         case err of
           Some err \<Rightarrow> Value ((not_found_lookup, Some err), (cache, d))
         | None \<Rightarrow>
             (case found of
                None \<Rightarrow> Value ((not_found_lookup, None), (cache, d))
              | Some item \<Rightarrow>
                  (case cache of
                     None \<Rightarrow> Panic ''assignment to entry in nil map''
                   | Some m \<Rightarrow> Value (make_lookup_result now item hostname,
                       (Some (AList.update subscriptionID item m), d))))))"

lemmas subscription_defs [go_defs] = found_lookup_def not_found_lookup_def expired_lookup_def
  disabled_load_def disabled_get_subscription_def new_caching_def caching_load_def
  make_lookup_result_def cache_get_def caching_get_subscription_def

lemma lookups_differ [simp]:
  "found_lookup \<noteq> not_found_lookup" "not_found_lookup \<noteq> found_lookup"
  "found_lookup \<noteq> expired_lookup" "expired_lookup \<noteq> found_lookup"
  "not_found_lookup \<noteq> expired_lookup" "expired_lookup \<noteq> not_found_lookup"
  by (simp_all add: found_lookup_def not_found_lookup_def expired_lookup_def)

section \<open>The contract\<close>

text \<open>What the event processing relies on: the answers are the three lookups, an error is "not found".\<close>

locale subscription_service =
  fixes get :: "time \<Rightarrow> string \<Rightarrow> string \<Rightarrow> ('s, sub_answer) call"
  assumes answer: "get now i h s = Value ((l, err), s') \<Longrightarrow>
      l = found_lookup \<or> l = not_found_lookup \<or> l = expired_lookup"
    and error: "get now i h s = Value ((l, Some e), s') \<Longrightarrow> l = not_found_lookup"
begin

lemma found_no_error: "get now i h s = Value ((found_lookup, err), s') \<Longrightarrow> err = None"
  using error [of now i h s found_lookup _ s'] by (cases err) auto

lemma answer_cases:
  assumes "get now i h s = Value ((l, None), s')"
  obtains "l = found_lookup" | "l = not_found_lookup" | "l = expired_lookup"
  using answer [OF assms] by blast

end

definition disabled_get :: "time \<Rightarrow> string \<Rightarrow> string \<Rightarrow> ('s, sub_answer) call" where
  "disabled_get now i h s = Value (disabled_get_subscription i h, s)"

interpretation dis: subscription_service disabled_get
  by unfold_locales (auto simp: disabled_get_def disabled_get_subscription_def)

lemma caching_get_cases:
  assumes "caching_get_subscription q now i h (cache, d) = Value (a, st)"
  obtains (hit) item where "cache_get cache i = Some item" "a = make_lookup_result now item h" "st = (cache, d)"
    | (error) found e d' where "cache_get cache i = None" "q i d = Value ((found, Some e), d')"
        "a = (not_found_lookup, Some e)" "st = (cache, d')"
    | (absent) d' where "cache_get cache i = None" "q i d = Value ((None, None), d')"
        "a = (not_found_lookup, None)" "st = (cache, d')"
    | (fetched) item d' m where "map_of m i = None" "cache = Some m" "q i d = Value ((Some item, None), d')"
        "a = make_lookup_result now item h" "st = (Some (AList.update i item m), d')"
proof (cases "cache_get cache i")
  case (Some item)
  with assms show ?thesis by (intro hit) (auto simp: caching_get_subscription_def)
next
  case None
  with assms obtain found err d' where q: "q i d = Value ((found, err), d')"
    by (auto simp: caching_get_subscription_def run_bind_Value_iff)
  show ?thesis
  proof (cases err)
    case (Some e)
    with assms None q show ?thesis by (intro error) (auto simp: caching_get_subscription_def)
  next
    case no_err: None
    show ?thesis
    proof (cases found)
      case None
      with assms \<open>cache_get cache i = None\<close> no_err q show ?thesis
        by (intro absent) (auto simp: caching_get_subscription_def)
    next
      case (Some item)
      with assms None no_err q show ?thesis
        by (cases cache) (auto simp: caching_get_subscription_def cache_get_def intro: fetched)
    qed
  qed
qed

lemma make_lookup_result_cases:
  "make_lookup_result now item h = (l, err) \<Longrightarrow>
     err = None \<and> (l = found_lookup \<or> l = not_found_lookup \<or> l = expired_lookup)"
  by (auto simp: make_lookup_result_def split: if_splits)

interpretation cch: subscription_service "caching_get_subscription getSubscription" for getSubscription
proof
  fix now i h l err s s'
  assume "caching_get_subscription getSubscription now i h s = Value ((l, err), s')"
  then show "l = found_lookup \<or> l = not_found_lookup \<or> l = expired_lookup"
    by (cases s, simp only:, elim caching_get_cases)
      (auto dest: make_lookup_result_cases [OF sym])
next
  fix now i h l e s s'
  assume "caching_get_subscription getSubscription now i h s = Value ((l, Some e), s')"
  then show "l = not_found_lookup"
    by (cases s, simp only:, elim caching_get_cases)
      (auto dest: make_lookup_result_cases [OF sym])
qed

section \<open>The cache and the database\<close>

text \<open>
  A database whose answers are those of \<open>f\<close> as long as its state satisfies \<open>I\<close>; what asking it
  directly answers; and when a cache agrees with it.
\<close>

definition db_answers :: "'d dao_subscription \<Rightarrow> (string \<Rightarrow> subscription_with_hostname option \<times> go_error option)
    \<Rightarrow> ('d \<Rightarrow> bool) \<Rightarrow> bool" where
  "db_answers q f I \<longleftrightarrow> (\<forall>k d. I d \<longrightarrow> (\<exists>d'. q k d = Value (f k, d') \<and> I d'))"

definition direct_lookup :: "(subscription_with_hostname option \<times> go_error option) \<Rightarrow> time \<Rightarrow> string \<Rightarrow> sub_answer" where
  "direct_lookup r now h =
     (case r of
        (found, Some err) \<Rightarrow> (not_found_lookup, Some err)
      | (None, None) \<Rightarrow> (not_found_lookup, None)
      | (Some item, None) \<Rightarrow> make_lookup_result now item h)"

definition cache_agrees :: "(string \<Rightarrow> subscription_with_hostname option \<times> go_error option) \<Rightarrow> sub_cache \<Rightarrow> bool" where
  "cache_agrees f cache =
     (case cache of None \<Rightarrow> False
      | Some m \<Rightarrow> list_all (\<lambda>k. f k = (map_of m k, None)) (map fst m))"

lemma cache_agreesD:
  assumes "cache_agrees f (Some m)" and "map_of m i = Some item"
  shows "f i = (Some item, None)"
proof -
  have "i \<in> set (map fst m)" using assms(2) by (force dest: map_of_SomeD)
  with assms show ?thesis by (auto simp: cache_agrees_def list_all_iff)
qed

lemma cache_agrees_update:
  assumes "cache_agrees f (Some m)" and "f i = (Some item, None)"
  shows "cache_agrees f (Some (AList.update i item m))"
proof -
  have "f k = (map_of (AList.update i item m) k, None)"
    if "k \<in> set (map fst (AList.update i item m))" for k
  proof (cases "k = i")
    case False
    with that have "k \<in> set (map fst m)" using fst_set_update [of i item m] by auto
    with assms(1) False show ?thesis by (auto simp: cache_agrees_def list_all_iff)
  qed (use assms(2) in simp)
  then show ?thesis by (simp add: cache_agrees_def list_all_iff)
qed

lemma caching_transparent:
  assumes "db_answers q f I" and "I d" and "cache_agrees f cache"
  shows "\<exists>cache' d'. caching_get_subscription q now i h (cache, d) =
      Value (direct_lookup (f i) now h, (cache', d')) \<and> cache_agrees f cache' \<and> I d'"
proof -
  obtain m where m: "cache = Some m" using assms(3) by (cases cache) (auto simp: cache_agrees_def)
  obtain d' where d': "q i d = Value (f i, d')" "I d'" using assms(1,2) by (auto simp: db_answers_def)
  obtain found err where f: "f i = (found, err)" by fastforce
  show ?thesis
  proof (cases "map_of m i")
    case (Some item)
    then show ?thesis
      using assms(2,3) cache_agreesD [of f m i item] m
      by (simp add: caching_get_subscription_def cache_get_def direct_lookup_def)
  next
    case None
    then show ?thesis
      using assms(3) cache_agrees_update [of f m i] m d' f
      by (cases err; cases found)
        (simp_all add: caching_get_subscription_def cache_get_def direct_lookup_def)
  qed
qed

text \<open>
  C8: A cache that agrees with the database is transparent: a lookup through it answers what asking the
  database answers, never panics, and leaves a cache that still agrees.
\<close>

theorem caching_refines_database:
  assumes "db_answers q f I" and "I d" and "cache_agrees f cache"
  shows "\<exists>cache' d'. caching_get_subscription q now i h (cache, d) =
      Value (direct_lookup (f i) now h, (cache', d')) \<and> cache_agrees f cache' \<and> I d'"
  using assms by (rule caching_transparent)

definition sample_item :: "string \<Rightarrow> string \<Rightarrow> time \<Rightarrow> subscription_with_hostname" where
  "sample_item i h t = \<lparr>swh_Subscription = \<lparr>sub_ID = i, ExpiresAt = t\<rparr>, swh_Hostname = h\<rparr>"

lemma caching_refines_database_witness:
  "\<exists>cache' d'. caching_get_subscription (\<lambda>k d. Value ((if k = ''a'' then Some (sample_item ''a'' ''h'' 5) else None, None), Suc d))
      9 ''a'' ''h'' (new_caching, 0) = Value ((expired_lookup, None), (cache', d'))"
proof -
  let ?f = "\<lambda>k. (if k = ''a'' then Some (sample_item ''a'' ''h'' 5) else None, None)"
  have "db_answers (\<lambda>k d. Value (?f k, Suc d)) ?f (\<lambda>d. True)" by (simp add: db_answers_def)
  moreover have "cache_agrees ?f new_caching" by (simp add: cache_agrees_def new_caching_def)
  moreover have "direct_lookup (?f ''a'') 9 ''h'' = (expired_lookup, None)"
    by (simp add: direct_lookup_def make_lookup_result_def types_defs time_defs sample_item_def)
  ultimately show ?thesis
    using caching_refines_database [of "\<lambda>k d. Value (?f k, Suc d)" ?f "\<lambda>d. True" 0 new_caching 9 "''a''" "''h''"]
    by auto
qed

text \<open>
  An item once found is answered from the cache whatever the database says of it later: a deleted or
  renewed subscription is not seen until the program is started again.
\<close>

theorem cache_is_never_refreshed:
  assumes "caching_get_subscription q now i h (cache, d) = Value ((found_lookup, None), (cache', d'))"
  shows "caching_get_subscription q2 now i h (cache', d2) = Value ((found_lookup, None), (cache', d2))"
  using assms
  by (elim caching_get_cases) (auto simp: caching_get_subscription_def cache_get_def)

lemma cache_is_never_refreshed_witness:
  "caching_get_subscription (\<lambda>k d. Value ((None, None), d)) 0 ''a'' ''h''
     (Some [(''a'', sample_item ''a'' ''h'' 1)], ()) =
   Value ((found_lookup, None), (Some [(''a'', sample_item ''a'' ''h'' 1)], ()))"
proof (rule cache_is_never_refreshed)
  show "caching_get_subscription (\<lambda>k d. Value ((Some (sample_item ''a'' ''h'' 1), None), d)) 0 ''a'' ''h'' (new_caching, ()) =
      Value ((found_lookup, None), (Some [(''a'', sample_item ''a'' ''h'' 1)], ()))"
    by (simp add: subscription_defs subscription_expired_def time_after_def sample_item_def)
qed

end
