(* ===== verification/Clickhouse.thy ===== *)
theory Clickhouse
  imports Sql Subscriptions
begin

text \<open>
  The ClickHouse adapter (\<open>dao/clickhouse/clickhouse.go\<close>). The driver is the argument \<open>D\<close>; a connection is
  the options it was opened with.
\<close>

section \<open>The driver\<close>

datatype ch_error = ChNoRows | ChError string

fun ch_message :: "ch_error \<Rightarrow> go_error" where
  "ch_message ChNoRows = ''sql: no rows in result set''"
| "ch_message (ChError m) = m"

record ch_options =
  ch_Addr :: "string list"
  ch_Username :: string
  ch_Password :: string
  ch_DialTimeout :: "64 word"
  ch_ReadTimeout :: "64 word"
  ch_ConnMaxLifetime :: "64 word"
  ch_MaxOpenConns :: int

record ch_config =
  cc_Database :: string
  cc_Addresses :: json_any
  cc_Username :: string
  cc_Password :: string
  cc_Timeout :: int
  cc_ReadTimeout :: int
  cc_KeepAlivePeriod :: int
  cc_MaxOpen :: int

record 'w ch_driver =
  ch_unmarshal :: "string \<Rightarrow> go_error + ch_config"
  ch_connect :: "ch_options \<Rightarrow> 'w \<Rightarrow> go_error option \<times> 'w"
  ch_ping :: "ch_options \<Rightarrow> 'w \<Rightarrow> go_error option \<times> 'w"
  ch_disconnect :: "ch_options \<Rightarrow> 'w \<Rightarrow> go_error option \<times> 'w"
  ch_exec :: "string \<Rightarrow> sql_value list \<Rightarrow> 'w \<Rightarrow> go_error option \<times> 'w"
  ch_async_insert :: "string \<Rightarrow> bool \<Rightarrow> 'w \<Rightarrow> go_error option \<times> 'w"
  ch_query :: "string \<Rightarrow> sql_value list \<Rightarrow> 'w \<Rightarrow> (ch_error + sql_rows) \<times> 'w"
  ch_scan_value :: "sql_row \<Rightarrow> go_error + string"
  ch_scan_sub :: scan_sub
  ch_scan_event :: "sql_row \<Rightarrow> go_error + json_value list"

section \<open>The adapter\<close>

record ch_adapter =
  ch_conn :: "ch_options option"
  ch_dbName :: string
  ch_maxResults :: int
  ch_version :: int
  ch_prefix :: string

definition new_ch_adapter :: ch_adapter where
  "new_ch_adapter = \<lparr>ch_conn = None, ch_dbName = [], ch_maxResults = 0, ch_version = 0, ch_prefix = []\<rparr>"

definition ch_default_host :: string where "ch_default_host = ''localhost:9000''"
definition ch_default_database :: string where "ch_default_database = ''rum''"
definition ch_adp_version :: int where "ch_adp_version = 1"
definition ch_adapter_name :: string where "ch_adapter_name = ''clickhouse''"
definition ch_default_max_results :: int where "ch_default_max_results = 1024"
definition ch_hosts_table :: string where "ch_hosts_table = ''webperf_rum_hostnames''"
definition ch_owner_hosts_table :: string where "ch_owner_hosts_table = ''webperf_rum_own_hostnames''"

type_synonym ('w, 'x) ch_call = "(ch_adapter \<times> 'w, 'x) call"

definition ch_addresses :: "json_any \<Rightarrow> go_error + string list" where
  "ch_addresses addresses =
     (case addresses of
        AnyNull \<Rightarrow> Inr [ch_default_host]
      | AnyString host \<Rightarrow> Inr [host]
      | AnyList ihosts \<Rightarrow>
          if ihosts = [] then Inl ''adapter clickhouse failed to parse config.Addresses''
          else (case collect_hosts ihosts of
                  None \<Rightarrow> Inl ''adapter clickhouse invalid config.Addresses value''
                | Some hosts \<Rightarrow> Inr hosts)
      | AnyOther \<Rightarrow> Inl ''adapter clickhouse failed to parse config.Addresses'')"

text \<open>The connection is kept when the ping that follows fails.\<close>

definition ch_open :: "'w ch_driver \<Rightarrow> string \<Rightarrow> ('w, go_error option) ch_call" where
  "ch_open D jsonconfig = (\<lambda>(a, w).
     if ch_conn a \<noteq> None then Value (Some ''adapter clickhouse is already connected'', (a, w))
     else if length jsonconfig < 2 then Value (Some ''adapter clickhousedb missing config'', (a, w))
     else case ch_unmarshal D jsonconfig of
       Inl err \<Rightarrow> Value (Some (''adapter clickhouse failed to parse config: '' @ err), (a, w))
     | Inr config \<Rightarrow>
         (case ch_addresses (cc_Addresses config) of
            Inl err \<Rightarrow> Value (Some err, (a, w))
          | Inr addr \<Rightarrow>
              let a = (if cc_Database config = [] then a\<lparr>ch_dbName := ch_default_database\<rparr>
                       else a\<lparr>ch_dbName := cc_Database config\<rparr>);
                  a = (if ch_maxResults a \<le> 0 then a\<lparr>ch_maxResults := ch_default_max_results\<rparr> else a);
                  opts = \<lparr>ch_Addr = addr, ch_Username = cc_Username config, ch_Password = cc_Password config,
                          ch_DialTimeout = seconds (cc_Timeout config), ch_ReadTimeout = seconds (cc_ReadTimeout config),
                          ch_ConnMaxLifetime = seconds (cc_KeepAlivePeriod config), ch_MaxOpenConns = cc_MaxOpen config\<rparr>
              in (case ch_connect D opts w of
                    (Some err, w) \<Rightarrow> Value (Some err, (a, w))
                  | (None, w) \<Rightarrow>
                      let a = a\<lparr>ch_conn := Some opts, ch_version := -1\<rparr>;
                          (err, w) = ch_ping D opts w
                      in Value (err, (a, w)))))"

definition ch_close :: "'w ch_driver \<Rightarrow> ('w, go_error option) ch_call" where
  "ch_close D = (\<lambda>(a, w).
     case ch_conn a of
       None \<Rightarrow> Value (None, (a, w))
     | Some h \<Rightarrow> let (err, w) = ch_disconnect D h w
         in Value (err, (a\<lparr>ch_conn := None, ch_version := -1\<rparr>, w)))"

definition ch_is_open :: "ch_adapter \<times> 'w \<Rightarrow> bool" where
  "ch_is_open s = (ch_conn (fst s) \<noteq> None)"

definition ch_is_missing_table :: "ch_error \<Rightarrow> bool" where
  "ch_is_missing_table err = str_contains (ch_message err) ''Table''"

definition ch_is_missing_db :: "ch_adapter \<Rightarrow> ch_error \<Rightarrow> bool" where
  "ch_is_missing_db a err = str_contains (ch_message err) ('' Database '' @ ch_dbName a @ '' does not exist'')"

text \<open>The text that is not a number is logged; the version is then 0.\<close>

definition ch_get_db_version :: "'w ch_driver \<Rightarrow> ('w, int \<times> go_error option) ch_call" where
  "ch_get_db_version D = (\<lambda>(a, w).
     if 0 < ch_version a then Value ((ch_version a, None), (a, w))
     else if ch_conn a = None then nil_pointer (a, w)
     else (case ch_query D (''SELECT `value` FROM rum.kvmeta WHERE `key`='' @ [CHR 0x27] @ ''version'' @ [CHR 0x27]) [] w of
       (Inl err, w) \<Rightarrow>
         let msg = (if ch_is_missing_db a err \<or> ch_is_missing_table err \<or> err = ChNoRows
                    then ''Database not initialized'' else ch_message err)
         in Value ((-1, Some msg), (a, w))
     | (Inr ([], rows_err), w) \<Rightarrow> Value ((-1, Some ''Database not initialized''), (a, w))
     | (Inr (row # rows, rows_err), w) \<Rightarrow>
         (case ch_scan_value D row of
            Inl err \<Rightarrow> Value ((-1, Some (''get subscription failed: '' @ err)), (a, w))
          | Inr result \<Rightarrow>
              let vers = fst (atoi result)
              in Value ((vers, None), (a\<lparr>ch_version := vers\<rparr>, w)))))"

definition ch_check_db_version :: "'w ch_driver \<Rightarrow> ('w, go_error option) ch_call" where
  "ch_check_db_version D = call_bind (ch_get_db_version D) (\<lambda>(version, err).
     case err of Some err \<Rightarrow> call_ret (Some err)
     | None \<Rightarrow>
         if version \<noteq> ch_adp_version
         then call_ret (Some (''Invalid database version '' @ itoa version @ ''. Expected '' @ itoa ch_adp_version))
         else call_ret None)"

definition ch_adapter_version :: "ch_adapter \<times> 'w \<Rightarrow> int" where "ch_adapter_version s = ch_adp_version"
definition ch_get_name :: "ch_adapter \<times> 'w \<Rightarrow> string" where "ch_get_name s = ch_adapter_name"

definition ch_set_max_results :: "int \<Rightarrow> ('w, go_error option) ch_call" where
  "ch_set_max_results val = (\<lambda>(a, w).
     Value (None, (if val \<le> 0 then a\<lparr>ch_maxResults := ch_default_max_results\<rparr> else a\<lparr>ch_maxResults := val\<rparr>, w)))"

definition ch_stats :: "('w, string option) ch_call" where
  "ch_stats = (\<lambda>(a, w). if ch_conn a = None then Value (None, (a, w)) else Value (None, (a, w)))"

definition ch_upgrade_db :: "('w, go_error option) ch_call" where
  "ch_upgrade_db = call_ret None"

lemmas clickhouse_defs [go_defs] = new_ch_adapter_def ch_default_host_def ch_default_database_def ch_adp_version_def
  ch_adapter_name_def ch_default_max_results_def ch_hosts_table_def ch_owner_hosts_table_def ch_addresses_def
  ch_open_def ch_close_def ch_is_open_def ch_is_missing_table_def ch_is_missing_db_def ch_get_db_version_def
  ch_check_db_version_def ch_adapter_version_def ch_get_name_def ch_set_max_results_def ch_stats_def ch_upgrade_db_def

section \<open>CreateDb\<close>

definition quoted :: "string \<Rightarrow> string" where
  "quoted s = [CHR 0x27] @ s @ [CHR 0x27]"

definition ch_create_kvmeta :: string where
  "ch_create_kvmeta = ''CREATE TABLE kvmeta(`key`  VARCHAR(64) NOT NULL,createdat   DateTime DEFAULT now(), ''
     @ ''`value`     TEXT,  PRIMARY KEY(`key`))'' @ ''ENGINE = MergeTree;''"

definition ch_create_hostnames :: "string \<Rightarrow> string" where
  "ch_create_hostnames prefix = sql_text [(0, ''CREATE TABLE IF NOT EXISTS '' @ prefix @ ''webperf_rum_hostnames (''),
     (2, ''hostname                        LowCardinality(String),''),
     (2, ''updated_at                      DateTime64(3) DEFAULT now()''), (1, '')''),
     (1, ''ENGINE = ReplacingMergeTree''), (1, ''PARTITION BY hostname''), (1, ''ORDER BY hostname''),
     (1, ''SETTINGS index_granularity = 8192'')]"

definition ch_create_latency :: string where
  "ch_create_latency = sql_text [(0, ''CREATE TABLE latency(''),
     (2, ''id     INT NOT NULL,''), (2, ''cdir TEXT NOT NULL,''), (2, ''server_id INT,''), (2, ''ans INT NOT NULL,''),
     (2, ''up INT NOT NULL,''), (2, ''status_code INT NOT NULL,''), (2, ''created_at DATETIME NOT NULL DEFAULT NOW(),''),
     (2, ''latency INT NOT NULL,''), (2, ''country TEXT NOT NULL,''), (2, ''PRIMARY KEY (id)''), (2, '')''),
     (1, ''ENGINE = MergeTree''), (1, ''SETTINGS index_granularity = 8192'')]"

definition ch_create_own_hostnames :: "string \<Rightarrow> string" where
  "ch_create_own_hostnames prefix = sql_text [(0, ''CREATE TABLE IF NOT EXISTS '' @ prefix @ ''webperf_rum_own_hostnames (''),
     (2, ''username                        LowCardinality(String),''),
     (2, ''hostname                        LowCardinality(String),''),
     (2, ''subscription_id                 String,''),
     (2, ''subscription_expire_at          DateTime64(3) NOT NULL,''),
     (2, ''updated_at                      DateTime64(3) DEFAULT now(),''),
     (2, ''INDEX index_username username TYPE bloom_filter GRANULARITY 1''), (1, '')''),
     (1, ''ENGINE = ReplacingMergeTree(updated_at)''), (1, ''ORDER BY hostname''), (1, ''PARTITION BY hostname''),
     (1, ''PRIMARY KEY hostname''), (1, [])]"

definition ch_create_grant_hostnames :: "string \<Rightarrow> string" where
  "ch_create_grant_hostnames prefix = sql_text [(0, ''CREATE TABLE IF NOT EXISTS '' @ prefix @ ''webperf_rum_grant_hostnames (''),
     (2, ''username                        LowCardinality(String),''),
     (2, ''hostname                        LowCardinality(String),''),
     (2, ''owner_username                  LowCardinality(String),''),
     (2, ''updated_at                      DateTime64(3) DEFAULT now(),''),
     (2, ''INDEX index_owner owner_username TYPE bloom_filter GRANULARITY 1''), (1, '')''),
     (1, ''ENGINE = ReplacingMergeTree(updated_at)''), (1, ''ORDER BY (username, hostname)''), (1, ''PARTITION BY username''),
     (1, ''PRIMARY KEY (username, hostname)'')]"

definition ch_create_view :: "string \<Rightarrow> string" where
  "ch_create_view prefix = sql_text [(0, ''CREATE OR REPLACE VIEW '' @ prefix @ ''webperf_rum_view_hostnames AS ''),
     (1, ''SELECT username, hostname, '' @ quoted ''owner'' @ '' as role_name''),
     (1, ''FROM '' @ prefix @ ''webperf_rum_own_hostnames FINAL''), (1, ''UNION ALL''),
     (1, ''SELECT username, hostname, '' @ quoted ''granted'' @ '' as role_name''),
     (1, ''FROM '' @ prefix @ ''webperf_rum_grant_hostnames FINAL'')]"

text \<open>The last statement names the database \<open>rum\<close>, whatever the configured one is.\<close>

definition ch_create_statements :: "bool \<Rightarrow> string \<Rightarrow> string \<Rightarrow> (string \<times> sql_value list) list" where
  "ch_create_statements reset dbName prefix =
     (if reset then [(''DROP DATABASE IF EXISTS '' @ dbName @ '';'', [])] else []) @
     [(''CREATE DATABASE '' @ dbName @ '' ENGINE = Memory COMMENT '' @ quoted ''The rum database'' @ '';'', []),
      (''USE '' @ dbName, []),
      (ch_create_kvmeta, []),
      (ch_create_hostnames prefix, []),
      (ch_create_latency, []),
      (ch_create_own_hostnames prefix, []),
      (ch_create_grant_hostnames prefix, []),
      (ch_create_view prefix, []),
      (''INSERT INTO rum.kvmeta(`key`, `value`) VALUES('' @ quoted ''version'' @ '',?)'', [SqlInt ch_adp_version])]"

definition ch_exec_one :: "'w ch_driver \<Rightarrow> string \<times> sql_value list \<Rightarrow> ('w, go_error option) ch_call" where
  "ch_exec_one D stmt = (\<lambda>(a, w).
     if ch_conn a = None then nil_pointer (a, w)
     else let (err, w) = ch_exec D (fst stmt) (snd stmt) w in Value (err, (a, w)))"

definition ch_create_db :: "'w ch_driver \<Rightarrow> bool \<Rightarrow> ('w, go_error option) ch_call" where
  "ch_create_db D reset = (\<lambda>(a, w).
     attempt_all (map (ch_exec_one D) (ch_create_statements reset (ch_dbName a) (ch_prefix a))) (a, w))"

section \<open>Writing\<close>

definition ch_save :: "'w ch_driver \<Rightarrow> rum_event \<Rightarrow> ('w, go_error option) ch_call" where
  "ch_save D e = call_bind
     (ch_exec_one D (''INSERT INTO rum.latency(cdir,ans,up,status_code,created_at,country, latency) VALUES(?,?,?,?,?,?,?)'',
       [SqlText (re_Cdir e), SqlText (re_Ans e), SqlText (re_Up e), SqlText (re_StatusCode e),
        SqlText (re_Created_At e), SqlText (re_Country e), SqlText (re_Latency e)]))
     (\<lambda>err. call_ret (map_option (\<lambda>m. ''clickhouse insert failed: '' @ m) err))"

definition marshal_hostname_event :: "hostname_event \<Rightarrow> string" where
  "marshal_hostname_event e = ''{'' @ json_string ''hostname'' @ '':'' @ json_string (he_Hostname e) @ '',''
     @ json_string ''updated_at'' @ '':'' @ json_string (he_UpdatedAt e) @ ''}''"

definition ch_save_host :: "'w ch_driver \<Rightarrow> hostname_event \<Rightarrow> ('w, go_error option) ch_call" where
  "ch_save_host D e = (\<lambda>(a, w).
     let query = ''INSERT INTO rum.'' @ ch_prefix a @ ch_hosts_table
           @ '' SETTINGS input_format_skip_unknown_fields = true FORMAT JSONEachRow '' @ marshal_hostname_event e
     in if ch_conn a = None then nil_pointer (a, w)
        else let (err, w) = ch_async_insert D query False w
             in Value (map_option (\<lambda>m. ''clickhouse insert failed: '' @ m) err, (a, w)))"

definition ch_insert_owner_hostname :: "'w ch_driver \<Rightarrow> owner_hostname \<Rightarrow> ('w, go_error option) ch_call" where
  "ch_insert_owner_hostname D item = (\<lambda>(a, w).
     ch_exec_one D (''INSERT INTO rum.'' @ ch_prefix a @ ch_owner_hosts_table
         @ ''(username, hostname, subscription_id, subscription_expire_at) VALUES(?,?,?,?)'',
       [SqlText (oh_Username item), SqlText (oh_Hostname item), SqlText (sub_ID (oh_Subscription item)),
        SqlTime (ExpiresAt (oh_Subscription item))]) (a, w))"

definition ch_delete_owner_hostname :: "'w ch_driver \<Rightarrow> string \<Rightarrow> string \<Rightarrow> ('w, go_error option) ch_call" where
  "ch_delete_owner_hostname D hostname username = (\<lambda>(a, w).
     ch_exec_one D (''DELETE FROM rum.'' @ ch_prefix a @ ch_owner_hosts_table @ '' WHERE hostname = ? AND username = ?'',
       [SqlText hostname, SqlText username]) (a, w))"

section \<open>Reading\<close>

definition ch_subscriptions_query :: "ch_adapter \<Rightarrow> string" where
  "ch_subscriptions_query a = ''SELECT subscription_id, subscription_expire_at, hostname FROM rum.'' @ ch_prefix a
     @ ch_owner_hosts_table @ '' FINAL''"

definition ch_get_subscriptions :: "'w ch_driver \<Rightarrow> ('w, sub_map \<times> go_error option) ch_call" where
  "ch_get_subscriptions D = (\<lambda>(a, w).
     if ch_conn a = None then nil_pointer (a, w)
     else (case ch_query D (ch_subscriptions_query a) [] w of
       (Inl err, w) \<Rightarrow> Value ((None, Some (''get subscriptions failed: '' @ ch_message err)), (a, w))
     | (Inr (rows, rows_err), w) \<Rightarrow>
         (case scan_subs (ch_scan_sub D) rows [] of
            (result, Some err) \<Rightarrow> Value ((Some result, Some err), (a, w))
          | (result, None) \<Rightarrow> Value ((Some result, rows_err), (a, w)))))"

definition ch_subscription_query :: "ch_adapter \<Rightarrow> string" where
  "ch_subscription_query a = sql_text [(0, []), (1, ''SELECT subscription_id, subscription_expire_at, hostname''),
     (1, ''FROM rum.'' @ ch_prefix a @ ch_owner_hosts_table @ '' FINAL''), (1, ''WHERE subscription_id = ?''), (1, [])]"

definition ch_get_subscription :: "'w ch_driver \<Rightarrow> string
    \<Rightarrow> ('w, subscription_with_hostname option \<times> go_error option) ch_call" where
  "ch_get_subscription D i = (\<lambda>(a, w).
     if ch_conn a = None then nil_pointer (a, w)
     else (case ch_query D (ch_subscription_query a) [SqlText i] w of
       (Inl err, w) \<Rightarrow> Value ((None, Some (''get subscription failed: '' @ ch_message err)), (a, w))
     | (Inr ([], rows_err), w) \<Rightarrow> Value ((None, None), (a, w))
     | (Inr (row # rows, rows_err), w) \<Rightarrow>
         (case ch_scan_sub D row of
            Inl err \<Rightarrow> Value ((None, Some (''get subscription failed: '' @ err)), (a, w))
          | Inr r \<Rightarrow> Value ((Some (sub_item r), None), (a, w)))))"

definition ch_get_events :: "'w ch_driver \<Rightarrow> ('w, event_rows \<times> go_error option) ch_call" where
  "ch_get_events D = (\<lambda>(a, w).
     if ch_conn a = None then nil_pointer (a, w)
     else (case ch_query D ''SELECT * FROM rum.latency'' [] w of
       (Inl err, w) \<Rightarrow> Value ((None, Some (''get subscription failed: '' @ ch_message err)), (a, w))
     | (Inr (rows, rows_err), w) \<Rightarrow>
         (case scan_events (ch_scan_event D) rows None of
            (subs, Some err) \<Rightarrow> Value ((subs, Some err), (a, w))
          | (subs, None) \<Rightarrow> Value ((subs, rows_err), (a, w)))))"

definition clickhouse_adapter :: "'w ch_driver \<Rightarrow> (ch_adapter \<times> 'w) adapter" where
  "clickhouse_adapter D = \<lparr>ad_Open = ch_open D, ad_Close = ch_close D, ad_IsOpen = ch_is_open,
     ad_GetDbVersion = ch_get_db_version D, ad_CheckDbVersion = ch_check_db_version D, ad_GetName = ch_get_name,
     ad_SetMaxResults = ch_set_max_results, ad_CreateDb = ch_create_db D, ad_UpgradeDb = ch_upgrade_db,
     ad_Version = ch_adapter_version, ad_Stats = ch_stats, ad_Save = ch_save D, ad_SaveHost = ch_save_host D,
     ad_InsertOwnerHostname = ch_insert_owner_hostname D, ad_DeleteOwnerHostname = ch_delete_owner_hostname D,
     ad_GetSubscriptions = ch_get_subscriptions D, ad_GetSubscription = ch_get_subscription D,
     ad_GetEvents = ch_get_events D\<rparr>"

lemmas clickhouse_data_defs [go_defs] = quoted_def ch_create_kvmeta_def ch_create_hostnames_def ch_create_latency_def
  ch_create_own_hostnames_def ch_create_grant_hostnames_def ch_create_view_def ch_create_statements_def ch_exec_one_def
  ch_create_db_def ch_save_def marshal_hostname_event_def ch_save_host_def ch_insert_owner_hostname_def
  ch_delete_owner_hostname_def ch_subscriptions_query_def ch_get_subscriptions_def ch_subscription_query_def
  ch_get_subscription_def ch_get_events_def clickhouse_adapter_def

section \<open>The contract of an adapter\<close>

lemma ch_open_ok: "ch_open D c s = Value (None, s') \<Longrightarrow> ch_is_open s'"
  by (cases s) (auto simp: ch_open_def ch_is_open_def Let_def split: if_splits sum.splits prod.splits option.splits)

lemma ch_open_again: "ch_is_open s \<Longrightarrow> \<exists>e. ch_open D c s = Value (Some e, s)"
  by (cases s) (auto simp: ch_open_def ch_is_open_def)

lemma ch_close_closes: "\<exists>err s'. ch_close D s = Value (err, s') \<and> \<not> ch_is_open s'"
  by (cases s) (auto simp: ch_close_def ch_is_open_def Let_def split: option.splits prod.splits)

lemma ch_get_subscriptions_open: "ch_get_subscriptions D s = Value (r, s') \<Longrightarrow> ch_is_open s' = ch_is_open s"
  by (cases s) (auto simp: ch_get_subscriptions_def ch_is_open_def nil_pointer_def Let_def
      split: option.splits sum.splits prod.splits if_splits)

lemma ch_exec_one_keeps: "keeps (\<lambda>s. fst s = a \<and> ch_conn a \<noteq> None) (ch_exec_one D q)"
  by (auto simp: keeps_def ch_exec_one_def nil_pointer_def split: prod.splits)

lemma ch_create_db_keeps:
  assumes "ch_create_db D reset (a, w) = Value (err, s')"
  shows "fst s' = a \<and> ch_conn a \<noteq> None"
proof (cases "ch_conn a")
  case None
  have "ch_create_statements reset (ch_dbName a) (ch_prefix a) \<noteq> []" by (simp add: ch_create_statements_def)
  then obtain q qs where "ch_create_statements reset (ch_dbName a) (ch_prefix a) = q # qs"
    by (cases "ch_create_statements reset (ch_dbName a) (ch_prefix a)") auto
  moreover have "ch_exec_one D q (a, w) = Panic ''nil pointer dereference''"
    using None by (simp add: ch_exec_one_def nil_pointer_def)
  ultimately show ?thesis using assms by (simp add: ch_create_db_def attempt_step)
next
  case (Some h)
  have "keeps (\<lambda>s. fst s = a \<and> ch_conn a \<noteq> None)
      (attempt_all (map (ch_exec_one D) (ch_create_statements reset (ch_dbName a) (ch_prefix a))))"
    by (rule keeps_attempt_all) (use ch_exec_one_keeps in \<open>auto simp: list_all_iff\<close>)
  from keepsD [OF this, of "(a, w)"] assms Some show ?thesis by (simp add: ch_create_db_def)
qed

lemma ch_create_db_open: "ch_create_db D reset s = Value (None, s') \<Longrightarrow> ch_is_open s'"
  using ch_create_db_keeps [of D reset "fst s" "snd s" None s'] by (simp add: ch_is_open_def)

lemma ch_get_db_version_db: "ch_get_db_version D s = Value (r, s') \<Longrightarrow> ch_is_open s' = ch_is_open s"
  by (cases s) (auto simp: ch_get_db_version_def ch_is_open_def nil_pointer_def Let_def
      split: option.splits sum.splits prod.splits if_splits list.splits)

lemma ch_check_db_version_db: "ch_check_db_version D s = Value (r, s') \<Longrightarrow> ch_is_open s' = ch_is_open s"
  unfolding ch_check_db_version_def call_bind_def run_bind_Value_iff
  by (auto simp: call_ret_def simp del: split_paired_Ex dest: ch_get_db_version_db split: option.splits if_splits)

lemma ch_set_max_ok: "\<exists>s'. ch_set_max_results n s = Value (None, s') \<and> ch_is_open s' = ch_is_open s"
  by (cases s) (simp add: ch_set_max_results_def ch_is_open_def)

lemma ch_upgrade_db_open: "ch_upgrade_db s = Value (err, s') \<Longrightarrow> ch_is_open s' = ch_is_open s"
  by (simp add: ch_upgrade_db_def call_ret_def)

lemma clickhouse_adapter_simps:
  "ad_GetSubscriptions (clickhouse_adapter D) = ch_get_subscriptions D"
  "ad_Open (clickhouse_adapter D) = ch_open D" "ad_Close (clickhouse_adapter D) = ch_close D"
  "ad_IsOpen (clickhouse_adapter D) = ch_is_open" "ad_GetDbVersion (clickhouse_adapter D) = ch_get_db_version D"
  "ad_CheckDbVersion (clickhouse_adapter D) = ch_check_db_version D" "ad_SetMaxResults (clickhouse_adapter D) = ch_set_max_results"
  "ad_CreateDb (clickhouse_adapter D) = ch_create_db D" "ad_UpgradeDb (clickhouse_adapter D) = ch_upgrade_db"
  by (simp_all add: clickhouse_adapter_def)

lemma clickhouse_keeps_name: "keeps_name (clickhouse_adapter D) m"
  by (simp add: keeps_name_def clickhouse_adapter_def ch_get_name_def)

interpretation ch: db_adapter "clickhouse_adapter D" for D
  by (rule db_adapter.intro, unfold clickhouse_adapter_simps)
    (assumption | erule ch_open_ok ch_open_again ch_get_subscriptions_open ch_get_db_version_db ch_check_db_version_db
      ch_upgrade_db_open ch_create_db_open | rule ch_set_max_ok ch_close_closes clickhouse_keeps_name)+

section \<open>A failed ping\<close>

text \<open>
  C36: When the connection is made but does not answer, \<open>Open\<close> fails and leaves the adapter open: each further
  \<open>Open\<close> fails too, with another error, until it is closed.
\<close>

theorem ch_failed_ping_stays_open:
  assumes "ch_conn a = None" and "2 \<le> length json" and "ch_unmarshal D json = Inr config"
    and "ch_addresses (cc_Addresses config) = Inr addr"
    and "\<And>opts w. fst (ch_connect D opts w) = None" and "\<And>opts w. fst (ch_ping D opts w) = Some e"
  shows "\<exists>s'. ch_open D json (a, w) = Value (Some e, s') \<and> ch_is_open s'
    \<and> (\<forall>json'. ch_open D json' s' = Value (Some ''adapter clickhouse is already connected'', s'))"
proof -
  have "\<exists>a' w'. ch_open D json (a, w) = Value (Some e, (a', w')) \<and> ch_conn a' \<noteq> None"
    using assms(1-4) by (simp add: ch_open_def Let_def case_prod_unfold assms(5,6))
  then obtain a' w' where s': "ch_open D json (a, w) = Value (Some e, (a', w'))" "ch_conn a' \<noteq> None" by blast
  then show ?thesis by (intro exI [of _ "(a', w')"]) (simp add: ch_is_open_def ch_open_def)
qed

section \<open>Loading the cache from ClickHouse\<close>

text \<open>
  The table of owners does not change: its query returns \<open>rows\<close>, which scan to \<open>rs\<close>, and the query by id
  those rows that have it, in any state that satisfies \<open>I\<close>.
\<close>

definition ch_table :: "'w ch_driver \<Rightarrow> ch_adapter \<Rightarrow> (string \<times> time \<times> string \<Rightarrow> sql_row)
    \<Rightarrow> (string \<times> time \<times> string) list \<Rightarrow> ('w \<Rightarrow> bool) \<Rightarrow> bool" where
  "ch_table D a row rs I \<longleftrightarrow> ch_conn a \<noteq> None \<and> (\<forall>r. ch_scan_sub D (row r) = Inr r) \<and>
     (\<forall>w. I w \<longrightarrow> (\<exists>w'. ch_query D (ch_subscriptions_query a) [] w = (Inr (map row rs, None), w') \<and> I w')) \<and>
     (\<forall>i w. I w \<longrightarrow> (\<exists>w'. ch_query D (ch_subscription_query a) [SqlText i] w =
        (Inr (map row (filter (\<lambda>r. fst r = i) rs), None), w') \<and> I w'))"

definition table_lookup :: "(string \<times> time \<times> string) list \<Rightarrow> string \<Rightarrow> subscription_with_hostname option \<times> go_error option" where
  "table_lookup rs i = (map_option sub_item (List.find (\<lambda>r. fst r = i) rs), None)"

lemma find_filter: "List.find P xs = (case filter P xs of [] \<Rightarrow> None | x # _ \<Rightarrow> Some x)"
  by (induction xs) auto

lemma ch_get_subscription_table:
  assumes "ch_table D a row rs I"
  shows "db_answers (ch_get_subscription D) (table_lookup rs) (\<lambda>(a', w). a' = a \<and> I w)"
proof -
  have "\<exists>w'. ch_get_subscription D i (a, w) = Value (table_lookup rs i, (a, w')) \<and> I w'" if "I w" for i w
  proof -
    from assms that obtain w' where q: "ch_query D (ch_subscription_query a) [SqlText i] w =
        (Inr (map row (filter (\<lambda>r. fst r = i) rs), None), w')" "I w'" unfolding ch_table_def by blast
    obtain h where h: "ch_conn a = Some h" using assms by (auto simp: ch_table_def)
    have scan: "ch_scan_sub D (row r) = Inr r" for r using assms unfolding ch_table_def by blast
    from q h scan show ?thesis
      by (cases "filter (\<lambda>r. fst r = i) rs") (simp_all add: ch_get_subscription_def table_lookup_def find_filter)
  qed
  then show ?thesis by (auto simp: db_answers_def)
qed

lemma filter_key_distinct:
  "distinct (map fst rs) \<Longrightarrow> filter (\<lambda>r. fst r = i) rs = (case List.find (\<lambda>r. fst r = i) rs of None \<Rightarrow> [] | Some r \<Rightarrow> [r])"
proof (induction rs)
  case (Cons r rs)
  show ?case
  proof (cases "fst r = i")
    case True
    with Cons.prems have "filter (\<lambda>r. fst r = i) rs = []" by (auto simp: filter_empty_conv image_iff)
    with True show ?thesis by simp
  qed (use Cons in auto)
qed simp

lemma ch_load_agrees:
  assumes t: "ch_table D a row rs I" and "I w" and "distinct (map fst rs)"
  shows "\<exists>cache w'. caching_load (ch_get_subscriptions D) (cache0, (a, w)) = Value (None, (cache, (a, w')))
    \<and> I w' \<and> cache_agrees (table_lookup rs) cache"
proof -
  from t assms(2) obtain w' where q: "ch_query D (ch_subscriptions_query a) [] w = (Inr (map row rs, None), w')" "I w'"
    unfolding ch_table_def by blast
  have scan: "ch_scan_sub D (row r) = Inr r" for r using t unfolding ch_table_def by blast
  have ok: "list_all (\<lambda>rw. \<exists>r. ch_scan_sub D rw = Inr r) (map row rs)" by (auto simp: list_all_iff scan)
  obtain m where m: "scan_subs (ch_scan_sub D) (map row rs) [] = (m, None)" using scan_subs_ok [OF ok] by blast
  have m_i: "table_lookup rs i = (map_of m i, None)" for i
    using scan_subs_ok [OF ok, of "[]" i] m filter_key_distinct [OF assms(3), of i]
    by (auto simp: scan comp_def table_lookup_def split: option.splits)
  then have "cache_agrees (table_lookup rs) (Some m)" by (simp add: cache_agrees_def list_all_iff)
  moreover have "ch_conn a \<noteq> None" using t by (simp add: ch_table_def)
  ultimately show ?thesis
    using q m by (auto simp: caching_load_def ch_get_subscriptions_def)
qed

text \<open>
  C23: With ClickHouse, a table that does not change and ids that are distinct, loading the cache and then looking
  up through it answers, for every id, host and time, what the table says.
\<close>

theorem ch_cached_lookups:
  assumes "ch_table D a row rs I" and "I w" and "distinct (map fst rs)"
  shows "\<exists>cache w'. caching_load (ch_get_subscriptions D) (cache0, (a, w)) = Value (None, (cache, (a, w')))
    \<and> (\<forall>now i h. \<exists>st. caching_get_subscription (ch_get_subscription D) now i h (cache, (a, w')) =
          Value (direct_lookup (table_lookup rs i) now h, st))"
proof -
  from ch_load_agrees [OF assms, of cache0] obtain cache w'
    where l: "caching_load (ch_get_subscriptions D) (cache0, (a, w)) = Value (None, (cache, (a, w')))"
      "I w'" "cache_agrees (table_lookup rs) cache" by blast
  have "\<exists>st. caching_get_subscription (ch_get_subscription D) now i h (cache, (a, w')) =
      Value (direct_lookup (table_lookup rs i) now h, st)" for now i h
    using caching_transparent [OF ch_get_subscription_table [OF assms(1)] _ l(3), of "(a, w')" now i h] l(2) by auto
  with l(1) show ?thesis by blast
qed

text \<open>A driver for the examples: its state is the table of owners; it fails to ping when it is empty.\<close>

type_synonym owner_rows = "(string \<times> time \<times> string) list"

definition ch_owner_row :: "string \<times> time \<times> string \<Rightarrow> sql_row" where
  "ch_owner_row r = (case r of (i, t, h) \<Rightarrow> [SqlText i, SqlTime t, SqlText h])"

definition ch_list_driver :: "owner_rows ch_driver" where
  "ch_list_driver = \<lparr>ch_unmarshal = (\<lambda>j. Inr \<lparr>cc_Database = [], cc_Addresses = AnyString j, cc_Username = [],
       cc_Password = [], cc_Timeout = 0, cc_ReadTimeout = 0, cc_KeepAlivePeriod = 0, cc_MaxOpen = 0\<rparr>),
     ch_connect = (\<lambda>opts w. (None, w)), ch_ping = (\<lambda>opts w. (Some ''refused'', w)), ch_disconnect = (\<lambda>opts w. (None, w)),
     ch_exec = (\<lambda>q args w. (None, w)), ch_async_insert = (\<lambda>q b w. (None, w)),
     ch_query = (\<lambda>q args w. case args of
         [SqlText i] \<Rightarrow> (Inr (map ch_owner_row (filter (\<lambda>r. fst r = i) w), None), w)
       | _ \<Rightarrow> (Inr (map ch_owner_row w, None), w)),
     ch_scan_value = (\<lambda>r. Inr ''1''),
     ch_scan_sub = (\<lambda>r. case r of [SqlText i, SqlTime t, SqlText h] \<Rightarrow> Inr (i, t, h) | _ \<Rightarrow> Inl ''scan''),
     ch_scan_event = (\<lambda>r. Inr [])\<rparr>"

definition ch_opened :: ch_adapter where
  "ch_opened = new_ch_adapter\<lparr>ch_conn := Some \<lparr>ch_Addr = [], ch_Username = [], ch_Password = [], ch_DialTimeout = 0,
     ch_ReadTimeout = 0, ch_ConnMaxLifetime = 0, ch_MaxOpenConns = 0\<rparr>\<rparr>"

lemma ch_failed_ping_stays_open_witness:
  "\<exists>s'. ch_open ch_list_driver ''{}'' (new_ch_adapter, []) = Value (Some ''refused'', s') \<and> ch_is_open s'"
proof -
  let ?c = "\<lparr>cc_Database = [], cc_Addresses = AnyString ''{}'', cc_Username = [],
       cc_Password = [], cc_Timeout = 0, cc_ReadTimeout = 0, cc_KeepAlivePeriod = 0, cc_MaxOpen = 0\<rparr>"
  have "ch_conn new_ch_adapter = None" "2 \<le> length ''{}''" "ch_unmarshal ch_list_driver ''{}'' = Inr ?c"
    "ch_addresses (cc_Addresses ?c) = Inr [''{}'']"
    "fst (ch_connect ch_list_driver opts w) = None" "fst (ch_ping ch_list_driver opts w) = Some ''refused''" for opts w
    by (simp_all add: new_ch_adapter_def ch_list_driver_def ch_addresses_def)
  from ch_failed_ping_stays_open [OF this, of "[]"] show ?thesis by blast
qed

lemma ch_cached_lookups_witness:
  "\<exists>cache w'. caching_load (ch_get_subscriptions ch_list_driver) (new_caching, (ch_opened, [(''a'', 5, ''h''), (''b'', 7, ''g'')]))
      = Value (None, (cache, (ch_opened, w')))
    \<and> (\<exists>st. caching_get_subscription (ch_get_subscription ch_list_driver) 6 ''b'' ''g'' (cache, (ch_opened, w'))
      = Value ((found_lookup, None), st))"
proof -
  let ?rs = "[(''a'', 5, ''h''), (''b'', 7, ''g'')] :: owner_rows"
  have "ch_table ch_list_driver ch_opened ch_owner_row ?rs (\<lambda>w. w = ?rs)"
    by (simp add: ch_table_def ch_list_driver_def ch_opened_def new_ch_adapter_def ch_owner_row_def)
  from ch_cached_lookups [OF this, of ?rs new_caching] obtain cache w' where
    l: "caching_load (ch_get_subscriptions ch_list_driver) (new_caching, (ch_opened, ?rs)) = Value (None, (cache, (ch_opened, w')))"
    "\<And>now i h. \<exists>st. caching_get_subscription (ch_get_subscription ch_list_driver) now i h (cache, (ch_opened, w')) =
       Value (direct_lookup (table_lookup ?rs i) now h, st)"
    by auto
  have "direct_lookup (table_lookup ?rs ''b'') 6 ''g'' = (found_lookup, None)"
    by (simp add: direct_lookup_def table_lookup_def sub_item_def make_lookup_result_def subscription_expired_def time_after_def)
  with l show ?thesis by metis
qed

end
