(* ===== verification/Redis.thy ===== *)
theory Redis
  imports Sql Subscriptions
begin

text \<open>
  The Redis adapter (\<open>dao/redis/redis.go\<close>). The client library is the argument \<open>D\<close>: a value of a hash is
  turned into text by the library when it is written and is a text when it is read.
\<close>

section \<open>The client library\<close>

record rd_tls =
  rt_InsecureSkipVerify :: bool
  rt_Certificates :: "(string \<times> string) list"

record rd_options =
  ro_Addrs :: "string list"
  ro_ClientName :: string
  ro_MaxRedirects :: int
  ro_Protocol :: int
  ro_Username :: string
  ro_Password :: string
  ro_MaxRetries :: int
  ro_MinRetryBackoff :: "64 word"
  ro_MaxRetryBackoff :: "64 word"
  ro_DialTimeout :: "64 word"
  ro_ReadTimeout :: "64 word"
  ro_WriteTimeout :: "64 word"
  ro_ContextTimeoutEnabled :: bool
  ro_PoolFIFO :: bool
  ro_PoolSize :: int
  ro_PoolTimeout :: "64 word"
  ro_MinIdleConns :: int
  ro_MaxIdleConns :: int
  ro_MaxActiveConns :: int
  ro_ConnMaxIdleTime :: "64 word"
  ro_ConnMaxLifetime :: "64 word"
  ro_TLSConfig :: "rd_tls option"
  ro_DisableIndentity :: bool

definition rd_no_options :: rd_options where
  "rd_no_options = \<lparr>ro_Addrs = [], ro_ClientName = [], ro_MaxRedirects = 0, ro_Protocol = 0, ro_Username = [],
     ro_Password = [], ro_MaxRetries = 0, ro_MinRetryBackoff = 0, ro_MaxRetryBackoff = 0, ro_DialTimeout = 0,
     ro_ReadTimeout = 0, ro_WriteTimeout = 0, ro_ContextTimeoutEnabled = False, ro_PoolFIFO = False, ro_PoolSize = 0,
     ro_PoolTimeout = 0, ro_MinIdleConns = 0, ro_MaxIdleConns = 0, ro_MaxActiveConns = 0, ro_ConnMaxIdleTime = 0,
     ro_ConnMaxLifetime = 0, ro_TLSConfig = None, ro_DisableIndentity = False\<rparr>"

text \<open>
  What the two URL parsers of the library return: options for one server, or for a cluster; of the fields of
  these types, those that are read and the TLS configuration.
\<close>

datatype rd_parsed = Options string rd_options | ClusterOptions rd_options

record rd_config =
  rc_Uri :: string
  rc_Addresses :: json_any
  rc_ClientName :: string
  rc_Protocol :: int
  rc_Username :: string
  rc_Password :: string
  rc_MaxRetries :: int
  rc_MinRetryBackoff :: int
  rc_MaxRetryBackoff :: int
  rc_DialTimeout :: int
  rc_ReadTimeout :: int
  rc_WriteTimeout :: int
  rc_ContextTimeoutEnabled :: bool
  rc_PoolFIFO :: bool
  rc_PoolSize :: int
  rc_PoolTimeout :: int
  rc_MinIdleConns :: int
  rc_MaxIdleConns :: int
  rc_MaxActiveConns :: int
  rc_ConnMaxIdleTime :: int
  rc_ConnMaxLifetime :: int
  rc_DisableIndentity :: bool
  rc_ConnectCluster :: bool
  rc_UseTLS :: bool
  rc_TlsCertFile :: string
  rc_TlsPrivateKey :: string
  rc_InsecureSkipVerify :: bool

type_synonym hash = "(string \<times> string) list"

record 'w rd_driver =
  rd_unmarshal :: "string \<Rightarrow> go_error + rd_config"
  rd_load_key_pair :: "string \<Rightarrow> string \<Rightarrow> go_error option"
  rd_parse_url :: "string \<Rightarrow> go_error + rd_parsed"
  rd_parse_cluster_url :: "string \<Rightarrow> go_error + rd_parsed"
  rd_ping :: "rd_options \<Rightarrow> 'w \<Rightarrow> go_error option \<times> 'w"
  rd_disconnect :: "rd_options \<Rightarrow> 'w \<Rightarrow> go_error option \<times> 'w"
  rd_flush_db :: "'w \<Rightarrow> 'w"
  rd_hset :: "string \<Rightarrow> (string \<times> sql_value) list \<Rightarrow> 'w \<Rightarrow> go_error option \<times> 'w"
  rd_hget_all :: "string \<Rightarrow> 'w \<Rightarrow> (go_error + hash) \<times> 'w"
  rd_del :: "string \<Rightarrow> 'w \<Rightarrow> go_error option \<times> 'w"
  rd_scan :: "string \<Rightarrow> 'w \<Rightarrow> (go_error + string list) \<times> 'w"
  rd_hscan :: "string \<Rightarrow> 'w \<Rightarrow> (string list \<times> go_error option) \<times> 'w"
  rd_incr :: "string \<Rightarrow> 'w \<Rightarrow> 'w"
  rd_get_int :: "string \<Rightarrow> 'w \<Rightarrow> int \<times> 'w"
  rd_info :: "'w \<Rightarrow> string \<times> 'w"
  rd_parse_layout :: "string \<Rightarrow> time"

section \<open>The adapter\<close>

record rd_adapter =
  rd_conn :: "rd_options option"
  rd_maxResults :: int
  rd_version :: int
  rd_prefix :: string

definition new_rd_adapter :: rd_adapter where
  "new_rd_adapter = \<lparr>rd_conn = None, rd_maxResults = 0, rd_version = 0, rd_prefix = []\<rparr>"

definition rd_default_host :: string where "rd_default_host = ''localhost:6379''"
definition rd_adp_version :: int where "rd_adp_version = 1"
definition rd_adapter_name :: string where "rd_adapter_name = ''redis''"
definition rd_default_max_results :: int where "rd_default_max_results = 1024"
definition rd_hosts_table :: string where "rd_hosts_table = ''webperf_rum_hostnames''"
definition rd_owner_hosts_table :: string where "rd_owner_hosts_table = ''webperf_rum_own_hostnames''"

type_synonym ('w, 'x) rd_call = "(rd_adapter \<times> 'w, 'x) call"

definition rd_addresses :: "json_any \<Rightarrow> go_error + string list" where
  "rd_addresses addresses =
     (case addresses of
        AnyNull \<Rightarrow> Inr [rd_default_host]
      | AnyString host \<Rightarrow> Inr [host]
      | AnyList ihosts \<Rightarrow>
          if ihosts = [] then Inl ''adapter redis failed to parse config.Addresses''
          else (case collect_hosts ihosts of
                  None \<Rightarrow> Inl ''adapter redis invalid config.Addresses value''
                | Some hosts \<Rightarrow> Inr hosts)
      | AnyOther \<Rightarrow> Inl ''adapter redis failed to parse config.Addresses'')"

text \<open>The fields that are copied from parsed options; the TLS configuration is not among them.\<close>

definition copy_options :: "string list \<Rightarrow> rd_options \<Rightarrow> rd_options" where
  "copy_options addrs v = rd_no_options\<lparr>ro_Addrs := addrs, ro_ClientName := ro_ClientName v, ro_Protocol := ro_Protocol v,
     ro_Username := ro_Username v, ro_Password := ro_Password v, ro_MaxRetries := ro_MaxRetries v,
     ro_MinRetryBackoff := ro_MinRetryBackoff v, ro_MaxRetryBackoff := ro_MaxRetryBackoff v,
     ro_DialTimeout := ro_DialTimeout v, ro_ReadTimeout := ro_ReadTimeout v, ro_WriteTimeout := ro_WriteTimeout v,
     ro_ContextTimeoutEnabled := ro_ContextTimeoutEnabled v, ro_PoolFIFO := ro_PoolFIFO v, ro_PoolSize := ro_PoolSize v,
     ro_PoolTimeout := ro_PoolTimeout v, ro_MinIdleConns := ro_MinIdleConns v, ro_MaxIdleConns := ro_MaxIdleConns v,
     ro_MaxActiveConns := ro_MaxActiveConns v, ro_ConnMaxIdleTime := ro_ConnMaxIdleTime v,
     ro_ConnMaxLifetime := ro_ConnMaxLifetime v\<rparr>"

fun cluster_options_to_universal :: "rd_parsed \<Rightarrow> rd_options" where
  "cluster_options_to_universal (Options addr v) = copy_options [addr] v"
| "cluster_options_to_universal (ClusterOptions v) = copy_options (ro_Addrs v) v"

text \<open>The options made of the fields of the configuration.\<close>

definition rd_options_of_config :: "'w rd_driver \<Rightarrow> rd_config \<Rightarrow> string list \<Rightarrow> go_error + rd_options" where
  "rd_options_of_config D config addrs =
     (let opts = rd_no_options\<lparr>ro_Addrs := addrs, ro_ClientName := rc_ClientName config,
            ro_MaxRedirects := rc_MaxRetries config, ro_Protocol := rc_Protocol config,
            ro_Username := rc_Username config, ro_Password := rc_Password config, ro_MaxRetries := rc_MaxRetries config,
            ro_MinRetryBackoff := seconds (rc_MinRetryBackoff config),
            ro_MaxRetryBackoff := seconds (rc_MaxRetryBackoff config),
            ro_DialTimeout := seconds (rc_DialTimeout config), ro_ReadTimeout := seconds (rc_ReadTimeout config),
            ro_WriteTimeout := seconds (rc_WriteTimeout config),
            ro_ContextTimeoutEnabled := rc_ContextTimeoutEnabled config, ro_PoolFIFO := rc_PoolFIFO config,
            ro_PoolSize := rc_PoolSize config, ro_PoolTimeout := seconds (rc_PoolTimeout config),
            ro_MinIdleConns := rc_MinIdleConns config, ro_MaxIdleConns := rc_MaxIdleConns config,
            ro_MaxActiveConns := rc_MaxActiveConns config, ro_ConnMaxIdleTime := seconds (rc_ConnMaxIdleTime config),
            ro_ConnMaxLifetime := seconds (rc_ConnMaxLifetime config)\<rparr>;
          tls = \<lparr>rt_InsecureSkipVerify = rc_InsecureSkipVerify config, rt_Certificates = []\<rparr>;
          withIdentity = (\<lambda>opts. Inr (opts\<lparr>ro_DisableIndentity := rc_DisableIndentity config\<rparr>))
      in if \<not> rc_UseTLS config then withIdentity opts
         else if rc_TlsCertFile config = [] then withIdentity (opts\<lparr>ro_TLSConfig := Some tls\<rparr>)
         else (case rd_load_key_pair D (rc_TlsCertFile config) (rc_TlsPrivateKey config) of
                 Some err \<Rightarrow> Inl err
               | None \<Rightarrow> withIdentity (opts\<lparr>ro_TLSConfig := Some
                   (tls\<lparr>rt_Certificates := rt_Certificates tls @ [(rc_TlsCertFile config, rc_TlsPrivateKey config)]\<rparr>)\<rparr>)))"

text \<open>A URI replaces all of them.\<close>

definition rd_make_options :: "'w rd_driver \<Rightarrow> rd_config \<Rightarrow> go_error + rd_options" where
  "rd_make_options D config =
     (case rd_addresses (rc_Addresses config) of
        Inl err \<Rightarrow> Inl err
      | Inr addrs \<Rightarrow>
          (case rd_options_of_config D config addrs of
             Inl err \<Rightarrow> Inl err
           | Inr opts \<Rightarrow>
               if rc_Uri config = [] then Inr opts
               else (case (if rc_ConnectCluster config then rd_parse_cluster_url D (rc_Uri config)
                           else rd_parse_url D (rc_Uri config)) of
                       Inl err \<Rightarrow> Inl err
                     | Inr optss \<Rightarrow> Inr (cluster_options_to_universal optss))))"

definition rd_open :: "'w rd_driver \<Rightarrow> string \<Rightarrow> ('w, go_error option) rd_call" where
  "rd_open D jsonconfig = (\<lambda>(a, w).
     if rd_conn a \<noteq> None then Value (Some ''adapter redis is already connected'', (a, w))
     else if length jsonconfig < 2 then Value (Some ''adapter redis missing config'', (a, w))
     else case rd_unmarshal D jsonconfig of
       Inl err \<Rightarrow> Value (Some (''adapter redis failed to parse config: '' @ err), (a, w))
     | Inr config \<Rightarrow>
         (case rd_make_options D config of
            Inl err \<Rightarrow> Value (Some err, (a, w))
          | Inr opts \<Rightarrow>
              let a = a\<lparr>rd_conn := Some opts\<rparr>;
                  (err, w) = rd_ping D opts w
              in (case err of
                    Some err \<Rightarrow> Value (Some err, (a, w))
                  | None \<Rightarrow> Value (None, (a\<lparr>rd_version := -1\<rparr>, w)))))"

definition rd_close :: "'w rd_driver \<Rightarrow> ('w, go_error option) rd_call" where
  "rd_close D = (\<lambda>(a, w).
     case rd_conn a of
       None \<Rightarrow> Value (None, (a, w))
     | Some h \<Rightarrow> let (err, w) = rd_disconnect D h w
         in Value (err, (a\<lparr>rd_conn := None, rd_version := -1\<rparr>, w)))"

definition rd_is_open :: "rd_adapter \<times> 'w \<Rightarrow> bool" where
  "rd_is_open s = (rd_conn (fst s) \<noteq> None)"

definition rd_check_db_version :: "('w, go_error option) rd_call" where
  "rd_check_db_version = call_ret None"

text \<open>The results of the two commands are not looked at.\<close>

definition rd_create_db :: "'w rd_driver \<Rightarrow> bool \<Rightarrow> ('w, go_error option) rd_call" where
  "rd_create_db D reset = (\<lambda>(a, w).
     if rd_conn a = None then nil_pointer (a, w)
     else let w = (if reset then rd_flush_db D w else w);
              (ignored, w) = rd_hset D ''kvmeta'' [(''`key`'', SqlText ''version''), (''`value`'', SqlInt rd_adp_version)] w
          in Value (None, (a, w)))"

definition rd_get_db_version :: "'w rd_driver \<Rightarrow> ('w, int \<times> go_error option) rd_call" where
  "rd_get_db_version D = (\<lambda>(a, w).
     if 0 < rd_version a then Value ((rd_version a, None), (a, w))
     else if rd_conn a = None then nil_pointer (a, w)
     else let ((vals, err), w) = rd_hscan D ''kvmeta'' w;
              t = (if vals = [] then [] else last vals)
          in (case err of
                Some err \<Rightarrow> Value ((-1, Some err), (a, w))
              | None \<Rightarrow> let vers = fst (atoi t) in Value ((vers, None), (a\<lparr>rd_version := vers\<rparr>, w))))"

definition rd_adapter_version :: "rd_adapter \<times> 'w \<Rightarrow> int" where "rd_adapter_version s = rd_adp_version"
definition rd_get_name :: "rd_adapter \<times> 'w \<Rightarrow> string" where "rd_get_name s = rd_adapter_name"

definition rd_set_max_results :: "int \<Rightarrow> ('w, go_error option) rd_call" where
  "rd_set_max_results val = (\<lambda>(a, w).
     Value (None, (if val \<le> 0 then a\<lparr>rd_maxResults := rd_default_max_results\<rparr> else a\<lparr>rd_maxResults := val\<rparr>, w)))"

definition rd_stats :: "'w rd_driver \<Rightarrow> ('w, string option) rd_call" where
  "rd_stats D = (\<lambda>(a, w).
     if rd_conn a = None then Value (None, (a, w))
     else let (info, w) = rd_info D w in Value (Some info, (a, w)))"

definition rd_upgrade_db :: "('w, go_error option) rd_call" where
  "rd_upgrade_db = call_ret None"

section \<open>Writing and reading\<close>

definition rd_save :: "'w rd_driver \<Rightarrow> time \<Rightarrow> rum_event \<Rightarrow> ('w, go_error option) rd_call" where
  "rd_save D now e = (\<lambda>(a, w).
     if rd_conn a = None then nil_pointer (a, w)
     else let w = rd_incr D ''latid'' w;
              (i, w) = rd_get_int D ''latid'' w;
              (err, w) = rd_hset D (''latency:'' @ itoa i)
                [(''created_at'', SqlTime now), (''id'', SqlInt i), (''ans'', SqlText (re_Ans e)),
                 (''latency'', SqlText (re_Latency e)), (''status_code'', SqlText (re_StatusCode e)),
                 (''up'', SqlText (re_Up e)), (''cdir'', SqlText (re_Cdir e)), (''server_id'', SqlInt i)] w
          in Value (err, (a, w)))"

definition rd_save_host :: "'w rd_driver \<Rightarrow> hostname_event \<Rightarrow> ('w, go_error option) rd_call" where
  "rd_save_host D e = (\<lambda>(a, w).
     if rd_conn a = None then nil_pointer (a, w)
     else let (err, w) = rd_hset D (rd_prefix a @ rd_hosts_table @ '':'' @ he_Hostname e)
                [(''hostname'', SqlText (he_Hostname e)), (''updated_at'', SqlText (he_UpdatedAt e))] w
          in Value (err, (a, w)))"

text \<open>The key of an owner: user and host with nothing between them.\<close>

definition rd_owner_key :: "string \<Rightarrow> string \<Rightarrow> string \<Rightarrow> string" where
  "rd_owner_key prefix username hostname = prefix @ rd_owner_hosts_table @ '':'' @ username @ hostname"

definition rd_insert_owner_hostname :: "'w rd_driver \<Rightarrow> owner_hostname \<Rightarrow> ('w, go_error option) rd_call" where
  "rd_insert_owner_hostname D item = (\<lambda>(a, w).
     if rd_conn a = None then nil_pointer (a, w)
     else let (err, w) = rd_hset D (rd_owner_key (rd_prefix a) (oh_Username item) (oh_Hostname item))
                [(''username'', SqlText (oh_Username item)), (''hostname'', SqlText (oh_Hostname item)),
                 (''subscription_id'', SqlText (sub_ID (oh_Subscription item))),
                 (''expires_at'', SqlTime (ExpiresAt (oh_Subscription item)))] w
          in Value (err, (a, w)))"

definition rd_delete_owner_hostname :: "'w rd_driver \<Rightarrow> string \<Rightarrow> string \<Rightarrow> ('w, go_error option) rd_call" where
  "rd_delete_owner_hostname D hostname username = (\<lambda>(a, w).
     if rd_conn a = None then nil_pointer (a, w)
     else let (err, w) = rd_del D (rd_owner_key (rd_prefix a) username hostname) w in Value (err, (a, w)))"

definition hash_get :: "hash \<Rightarrow> string \<Rightarrow> string" where
  "hash_get m k = (case map_of m k of None \<Rightarrow> [] | Some v \<Rightarrow> v)"

text \<open>
  \<open>time.Parse(time.Layout, s)\<close> with its error ignored. The layout \<open>01/02 03:04:05PM '06 -0700\<close> wants two
  digits and a slash first; what it makes of a text that has the slash is a function of the library.
\<close>

definition parse_layout :: "'w rd_driver \<Rightarrow> string \<Rightarrow> time" where
  "parse_layout D s = (if length s \<ge> 3 \<and> s ! 2 = CHR ''/'' then rd_parse_layout D s else zero_time)"

definition rd_item :: "'w rd_driver \<Rightarrow> hash \<Rightarrow> subscription_with_hostname" where
  "rd_item D val =
     (let expires_at = parse_layout D (hash_get val ''expires_at'')
      in \<lparr>swh_Subscription = \<lparr>sub_ID = hash_get val ''subscription_id'', ExpiresAt = expires_at\<rparr>,
          swh_Hostname = hash_get val ''hostname''\<rparr>)"

fun rd_read_all :: "'w rd_driver \<Rightarrow> string list \<Rightarrow> (string \<times> subscription_with_hostname) list \<Rightarrow> 'w
    \<Rightarrow> (string \<times> subscription_with_hostname) list \<times> 'w" where
  "rd_read_all D [] result w = (result, w)"
| "rd_read_all D (key # keys) result w =
     (case rd_hget_all D key w of
        (Inl err, w) \<Rightarrow> rd_read_all D keys result w
      | (Inr val, w) \<Rightarrow>
          let item = rd_item D val
          in rd_read_all D keys (AList.update (sub_ID (swh_Subscription item)) item result) w)"

text \<open>Only the first page of the scan is read: the cursor it returns is dropped.\<close>

definition rd_get_subscriptions :: "'w rd_driver \<Rightarrow> ('w, sub_map \<times> go_error option) rd_call" where
  "rd_get_subscriptions D = (\<lambda>(a, w).
     if rd_conn a = None then nil_pointer (a, w)
     else (case rd_scan D (rd_prefix a @ rd_owner_hosts_table @ ''*'') w of
       (Inl err, w) \<Rightarrow> Value ((None, Some (''get subscriptions failed: '' @ err)), (a, w))
     | (Inr keys, w) \<Rightarrow>
         let (result, w) = rd_read_all D keys [] w in Value ((Some result, None), (a, w))))"

fun rd_find :: "'w rd_driver \<Rightarrow> string \<Rightarrow> string list \<Rightarrow> 'w \<Rightarrow> subscription_with_hostname option \<times> 'w" where
  "rd_find D i [] w = (None, w)"
| "rd_find D i (key # keys) w =
     (case rd_hget_all D key w of
        (Inl err, w) \<Rightarrow> rd_find D i keys w
      | (Inr val, w) \<Rightarrow>
          if hash_get val ''subscription_id'' = i then (Some (rd_item D val), w) else rd_find D i keys w)"

text \<open>The pattern has no star.\<close>

definition rd_get_subscription :: "'w rd_driver \<Rightarrow> string
    \<Rightarrow> ('w, subscription_with_hostname option \<times> go_error option) rd_call" where
  "rd_get_subscription D i = (\<lambda>(a, w).
     if rd_conn a = None then nil_pointer (a, w)
     else (case rd_scan D (rd_prefix a @ rd_owner_hosts_table) w of
       (Inl err, w) \<Rightarrow> Value ((None, Some (''get subscriptions failed: '' @ err)), (a, w))
     | (Inr keys, w) \<Rightarrow>
         let (found, w) = rd_find D i keys w in Value ((found, None), (a, w))))"

fun rd_read_events :: "'w rd_driver \<Rightarrow> string list \<Rightarrow> event_rows \<Rightarrow> 'w \<Rightarrow> event_rows \<times> 'w" where
  "rd_read_events D [] results w = (results, w)"
| "rd_read_events D (key # keys) results w =
     (case rd_hget_all D key w of
        (Inl err, w) \<Rightarrow> rd_read_events D keys results w
      | (Inr val, w) \<Rightarrow>
          rd_read_events D keys (append_row results (map (\<lambda>k. (k, JText (hash_get val k))) (sorted_keys val))) w)"

definition rd_get_events :: "'w rd_driver \<Rightarrow> ('w, event_rows \<times> go_error option) rd_call" where
  "rd_get_events D = (\<lambda>(a, w).
     if rd_conn a = None then nil_pointer (a, w)
     else let (cmd, w) = rd_scan D ''latency*'' w;
              (results, w) = rd_read_events D (case cmd of Inl err \<Rightarrow> [] | Inr keys \<Rightarrow> keys) None w
          in Value ((results, None), (a, w)))"

definition redis_adapter :: "'w rd_driver \<Rightarrow> time \<Rightarrow> (rd_adapter \<times> 'w) adapter" where
  "redis_adapter D now = \<lparr>ad_Open = rd_open D, ad_Close = rd_close D, ad_IsOpen = rd_is_open,
     ad_GetDbVersion = rd_get_db_version D, ad_CheckDbVersion = rd_check_db_version, ad_GetName = rd_get_name,
     ad_SetMaxResults = rd_set_max_results, ad_CreateDb = rd_create_db D, ad_UpgradeDb = rd_upgrade_db,
     ad_Version = rd_adapter_version, ad_Stats = rd_stats D, ad_Save = rd_save D now, ad_SaveHost = rd_save_host D,
     ad_InsertOwnerHostname = rd_insert_owner_hostname D, ad_DeleteOwnerHostname = rd_delete_owner_hostname D,
     ad_GetSubscriptions = rd_get_subscriptions D, ad_GetSubscription = rd_get_subscription D,
     ad_GetEvents = rd_get_events D\<rparr>"

lemmas redis_defs [go_defs] = rd_no_options_def new_rd_adapter_def rd_default_host_def rd_adp_version_def
  rd_adapter_name_def rd_default_max_results_def rd_hosts_table_def rd_owner_hosts_table_def rd_addresses_def
  copy_options_def rd_options_of_config_def rd_make_options_def rd_open_def rd_close_def rd_is_open_def
  rd_check_db_version_def rd_create_db_def rd_get_db_version_def rd_adapter_version_def rd_get_name_def
  rd_set_max_results_def rd_stats_def rd_upgrade_db_def rd_save_def rd_save_host_def rd_owner_key_def
  rd_insert_owner_hostname_def rd_delete_owner_hostname_def hash_get_def parse_layout_def rd_item_def
  rd_get_subscriptions_def rd_get_subscription_def rd_get_events_def redis_adapter_def

section \<open>The contract of an adapter\<close>

lemma rd_open_ok: "rd_open D c s = Value (None, s') \<Longrightarrow> rd_is_open s'"
  by (cases s) (auto simp: rd_open_def rd_is_open_def Let_def split: if_splits sum.splits prod.splits option.splits)

lemma rd_open_again: "rd_is_open s \<Longrightarrow> \<exists>e. rd_open D c s = Value (Some e, s)"
  by (cases s) (auto simp: rd_open_def rd_is_open_def)

lemma rd_close_closes: "\<exists>err s'. rd_close D s = Value (err, s') \<and> \<not> rd_is_open s'"
  by (cases s) (auto simp: rd_close_def rd_is_open_def Let_def split: option.splits prod.splits)

lemma rd_get_subscriptions_open: "rd_get_subscriptions D s = Value (r, s') \<Longrightarrow> rd_is_open s' = rd_is_open s"
  by (cases s) (auto simp: rd_get_subscriptions_def rd_is_open_def nil_pointer_def Let_def
      split: option.splits sum.splits prod.splits if_splits)

lemma rd_create_db_open: "rd_create_db D reset s = Value (None, s') \<Longrightarrow> rd_is_open s'"
  by (cases s) (auto simp: rd_create_db_def rd_is_open_def nil_pointer_def Let_def split: prod.splits if_splits)

lemma rd_get_db_version_db: "rd_get_db_version D s = Value (r, s') \<Longrightarrow> rd_is_open s' = rd_is_open s"
  by (cases s) (auto simp: rd_get_db_version_def rd_is_open_def nil_pointer_def Let_def
      split: option.splits prod.splits if_splits)

lemma rd_check_db_version_db: "rd_check_db_version s = Value (r, s') \<Longrightarrow> rd_is_open s' = rd_is_open s"
  by (simp add: rd_check_db_version_def call_ret_def)

lemma rd_set_max_ok: "\<exists>s'. rd_set_max_results n s = Value (None, s') \<and> rd_is_open s' = rd_is_open s"
  by (cases s) (simp add: rd_set_max_results_def rd_is_open_def)

lemma rd_upgrade_db_open: "rd_upgrade_db s = Value (err, s') \<Longrightarrow> rd_is_open s' = rd_is_open s"
  by (simp add: rd_upgrade_db_def call_ret_def)

lemma redis_adapter_simps:
  "ad_GetSubscriptions (redis_adapter D now) = rd_get_subscriptions D"
  "ad_Open (redis_adapter D now) = rd_open D" "ad_Close (redis_adapter D now) = rd_close D"
  "ad_IsOpen (redis_adapter D now) = rd_is_open" "ad_GetDbVersion (redis_adapter D now) = rd_get_db_version D"
  "ad_CheckDbVersion (redis_adapter D now) = rd_check_db_version"
  "ad_SetMaxResults (redis_adapter D now) = rd_set_max_results"
  "ad_CreateDb (redis_adapter D now) = rd_create_db D" "ad_UpgradeDb (redis_adapter D now) = rd_upgrade_db"
  by (simp_all add: redis_adapter_def)

lemma redis_keeps_name: "keeps_name (redis_adapter D now) m"
  by (simp add: keeps_name_def redis_adapter_def rd_get_name_def)

interpretation rd: db_adapter "redis_adapter D now" for D now
  by (rule db_adapter.intro, unfold redis_adapter_simps)
    (assumption | erule rd_open_ok rd_open_again rd_get_subscriptions_open rd_get_db_version_db rd_check_db_version_db
      rd_upgrade_db_open rd_create_db_open | rule rd_set_max_ok rd_close_closes redis_keeps_name)+

section \<open>Subscriptions read from Redis\<close>

text \<open>
  The library writes a time as RFC 3339, whose third byte is a digit of the year, so reading it back
  with \<open>time.Layout\<close> fails and leaves the zero time: every subscription read is long expired.
\<close>

definition no_layout_times :: "'w rd_driver \<Rightarrow> bool" where
  "no_layout_times D \<longleftrightarrow> (\<forall>key w val w'. rd_hget_all D key w = (Inr val, w') \<longrightarrow>
     (case hash_get val ''expires_at'' of a # b # c # t \<Rightarrow> c \<noteq> CHR ''/'' | _ \<Rightarrow> True))"

lemma rd_item_expired:
  assumes "no_layout_times D" and "rd_hget_all D key w = (Inr val, w')"
  shows "ExpiresAt (swh_Subscription (rd_item D val)) = zero_time"
proof -
  have "case hash_get val ''expires_at'' of a # b # c # t \<Rightarrow> c \<noteq> CHR ''/'' | _ \<Rightarrow> True"
    using assms unfolding no_layout_times_def by blast
  then have "\<not> (length (hash_get val ''expires_at'') \<ge> 3 \<and> hash_get val ''expires_at'' ! 2 = CHR ''/'')"
    by (auto split: list.splits)
  then show ?thesis by (auto simp: rd_item_def parse_layout_def Let_def)
qed

definition all_expired :: "(string \<times> subscription_with_hostname) list \<Rightarrow> bool" where
  "all_expired m = list_all (\<lambda>(k, item). ExpiresAt (swh_Subscription item) = zero_time) m"

lemma set_update_subset: "set (AList.update k v m) \<subseteq> insert (k, v) (set m)"
  by (induction m) auto

lemma all_expired_update:
  "all_expired m \<Longrightarrow> ExpiresAt (swh_Subscription item) = zero_time \<Longrightarrow> all_expired (AList.update k item m)"
  using set_update_subset [of k item m] by (auto simp: all_expired_def list_all_iff)

lemma rd_read_all_expired:
  assumes "no_layout_times D" and "rd_read_all D keys result w = (m, w')" and "all_expired result"
  shows "all_expired m"
  using assms(2,3)
proof (induction keys arbitrary: result w)
  case (Cons key keys)
  obtain r w1 where r: "rd_hget_all D key w = (r, w1)" by fastforce
  then show ?case
    using Cons rd_item_expired [OF assms(1)] all_expired_update by (cases r) (auto simp: Let_def)
qed simp

lemma rd_find_expired:
  "no_layout_times D \<Longrightarrow> rd_find D i keys w = (Some item, w') \<Longrightarrow> ExpiresAt (swh_Subscription item) = zero_time"
proof (induction keys arbitrary: w)
  case (Cons key keys)
  obtain r w1 where r: "rd_hget_all D key w = (r, w1)" by fastforce
  then show ?case
    using Cons rd_item_expired [OF Cons.prems(1)] by (cases r) (auto split: if_splits)
qed simp

lemma lookup_expired:
  "ExpiresAt (swh_Subscription item) = zero_time \<Longrightarrow> zero_time < now \<Longrightarrow> make_lookup_result now item h = (expired_lookup, None)"
  by (simp add: make_lookup_result_def subscription_expired_def time_after_def)

lemma rd_load_expired:
  assumes "no_layout_times D" and "caching_load (rd_get_subscriptions D) (cache0, (a, w)) = Value (err, (cache, s1))"
  shows "cache = None \<or> (\<exists>m. cache = Some m \<and> all_expired m)"
  using assms
  by (auto simp: caching_load_def rd_get_subscriptions_def run_bind_Value_iff nil_pointer_def Let_def all_expired_def
      dest: rd_read_all_expired [OF assms(1)] split: if_splits prod.splits sum.splits)


text \<open>A driver for the examples: hashes by key; a pattern stands for the keys it is a prefix of.\<close>

type_synonym hash_db = "(string \<times> hash) list"

fun rd_text :: "sql_value \<Rightarrow> string" where
  "rd_text SqlNull = []"
| "rd_text (SqlInt i) = itoa i"
| "rd_text (SqlText t) = t"
| "rd_text (SqlTime t) = format_date_time t"

definition rd_map_driver :: "hash_db rd_driver" where
  "rd_map_driver = \<lparr>rd_unmarshal = (\<lambda>j. Inl j), rd_load_key_pair = (\<lambda>c k. None), rd_parse_url = (\<lambda>u. Inl u),
     rd_parse_cluster_url = (\<lambda>u. Inl u), rd_ping = (\<lambda>opts w. (None, w)), rd_disconnect = (\<lambda>opts w. (None, w)),
     rd_flush_db = (\<lambda>w. []),
     rd_hset = (\<lambda>k fs w. (None, AList.update k (map (\<lambda>(f, v). (f, rd_text v)) fs) w)),
     rd_hget_all = (\<lambda>k w. (case map_of w k of None \<Rightarrow> Inl ''no key''
        | Some val \<Rightarrow> if list_all (\<lambda>(f, v). f = ''expires_at'' \<longrightarrow> (case v of a # b # c # t \<Rightarrow> c \<noteq> CHR ''/'' | _ \<Rightarrow> True)) val
                      then Inr val else Inl ''time'', w)),
     rd_del = (\<lambda>k w. (None, filter (\<lambda>(k', v). k' \<noteq> k) w)),
     rd_scan = (\<lambda>p w. (Inr (filter (\<lambda>k. has_prefix k (trim_suffix p ''*'')) (map fst w)), w)),
     rd_hscan = (\<lambda>k w. (([], None), w)), rd_incr = (\<lambda>k w. w), rd_get_int = (\<lambda>k w. (0, w)), rd_info = (\<lambda>w. ([], w)),
     rd_parse_layout = (\<lambda>s. 0)\<rparr>"

definition rd_opened :: rd_adapter where
  "rd_opened = new_rd_adapter\<lparr>rd_conn := Some rd_no_options\<rparr>"

lemma rd_map_driver_times: "no_layout_times rd_map_driver"
  by (auto simp: no_layout_times_def rd_map_driver_def hash_get_def list_all_iff split: option.splits if_splits list.splits
      dest!: map_of_SomeD)

definition rd_sample_db :: hash_db where
  "rd_sample_db = [(''webperf_rum_own_hostnames:uh'', [(''username'', ''u''), (''hostname'', ''h''),
     (''subscription_id'', ''s''), (''expires_at'', ''2099-01-01'')])]"


section \<open>The keys of owners\<close>

lemma rd_owner_keys: "rd_owner_key prefix u h = rd_owner_key prefix u' h' \<longleftrightarrow> u @ h = u' @ h'"
  by (simp add: rd_owner_key_def)

text \<open>
  The key of an owner is the user and the host run together, so deleting the host of one user is the same
  call as deleting another host of another user when the two texts agree.
\<close>

theorem rd_delete_other_owner:
  assumes "u @ h = u' @ h'"
  shows "rd_delete_owner_hostname D h u s = rd_delete_owner_hostname D h' u' s"
  using rd_owner_keys [of _ u h u' h'] assms by (cases s) (simp add: rd_delete_owner_hostname_def)

lemma rd_delete_other_owner_witness:
  "rd_delete_owner_hostname rd_map_driver ''h'' ''u'' (rd_opened, rd_sample_db) = Value (None, (rd_opened, []))
   \<and> rd_delete_owner_hostname rd_map_driver ''uh'' [] (rd_opened, rd_sample_db) = Value (None, (rd_opened, []))"
proof -
  have "rd_delete_owner_hostname rd_map_driver ''h'' ''u'' (rd_opened, rd_sample_db) = Value (None, (rd_opened, []))"
    by (simp add: rd_delete_owner_hostname_def rd_opened_def new_rd_adapter_def rd_map_driver_def rd_sample_db_def
        rd_owner_key_def rd_owner_hosts_table_def)
  with rd_delete_other_owner [of "''u''" "''h''" "[]" "''uh''" rd_map_driver "(rd_opened, rd_sample_db)"] show ?thesis by simp
qed

end
