(* ===== verification/Rethinkdb.thy ===== *)
theory Rethinkdb
  imports Sql Subscriptions
begin

text \<open>
  The RethinkDB adapter (\<open>dao/rethinkdb/rethinkdb.go\<close>). A query is the term the program builds; running
  it is a function of the driver \<open>D\<close>, which returns a cursor: rows and the error that ends them.
\<close>

section \<open>The driver\<close>

record rt_options =
  rt_Address :: string
  rt_Addresses :: "string list"
  rt_Database :: string
  rt_Username :: string
  rt_Password :: string
  rt_AuthKey :: string
  rt_Timeout :: "64 word"
  rt_WriteTimeout :: "64 word"
  rt_ReadTimeout :: "64 word"
  rt_KeepAlivePeriod :: "64 word"
  rt_UseJSONNumber :: bool
  rt_NumRetries :: int
  rt_InitialCap :: int
  rt_MaxOpen :: int
  rt_DiscoverHosts :: bool
  rt_HostDecayDuration :: "64 word"

record rt_config =
  tc_Database :: string
  tc_Addresses :: json_any
  tc_Username :: string
  tc_Password :: string
  tc_AuthKey :: string
  tc_Timeout :: int
  tc_WriteTimeout :: int
  tc_ReadTimeout :: int
  tc_KeepAlivePeriod :: int
  tc_UseJSONNumber :: bool
  tc_NumRetries :: int
  tc_InitialCap :: int
  tc_MaxOpen :: int
  tc_DiscoverHosts :: bool
  tc_HostDecayDuration :: int

datatype document = Doc_version string int | Doc_rum rum_event | Doc_host hostname_event | Doc_owner owner_hostname

datatype reql = DB string | DBDrop string | DBCreate string | Table reql string | TableCreate reql string string
  | Get reql string | GetStats reql | Field reql string | Insert reql document | GetAll reql string
  | GetAllByIndex reql string string | Filter reql string string | Delete reql

text \<open>\<open>Connect\<close> may return a session together with an error.\<close>

datatype rt_connected = Session | NotConnected go_error bool

type_synonym 'r cursor = "'r list \<times> go_error option"

record ('w, 'r) rt_driver =
  rt_unmarshal :: "string \<Rightarrow> go_error + rt_config"
  rt_connect :: "rt_options \<Rightarrow> 'w \<Rightarrow> rt_connected \<times> 'w"
  rt_disconnect :: "rt_options \<Rightarrow> 'w \<Rightarrow> go_error option \<times> 'w"
  rt_run :: "reql \<Rightarrow> 'w \<Rightarrow> (go_error + 'r cursor) \<times> 'w"
  rt_run_write :: "reql \<Rightarrow> 'w \<Rightarrow> go_error option \<times> 'w"
  rt_is_nil :: "'r cursor \<Rightarrow> bool"
  rt_one_int :: "'r cursor \<Rightarrow> go_error + int"
  rt_one_sub :: "'r cursor \<Rightarrow> go_error + subscription_with_hostname"
  rt_all_stats :: "'r cursor \<Rightarrow> go_error + string list"
  rt_decode_sub :: "'r \<Rightarrow> subscription_with_hostname \<Rightarrow> go_error + subscription_with_hostname"
  rt_decode_event :: "'r \<Rightarrow> json_value list \<Rightarrow> go_error + json_value list"

section \<open>The adapter\<close>

record rt_adapter =
  rt_conn :: "rt_options option"
  rt_dbName :: string
  rt_maxResults :: int
  rt_version :: int
  rt_prefix :: string

definition new_rt_adapter :: rt_adapter where
  "new_rt_adapter = \<lparr>rt_conn = None, rt_dbName = [], rt_maxResults = 0, rt_version = 0, rt_prefix = []\<rparr>"

definition rt_default_host :: string where "rt_default_host = ''localhost:28015''"
definition rt_default_database :: string where "rt_default_database = ''rum''"
definition rt_adp_version :: int where "rt_adp_version = 1"
definition rt_adapter_name :: string where "rt_adapter_name = ''rethinkdb''"
definition rt_default_max_results :: int where "rt_default_max_results = 1024"
definition rt_hosts_table :: string where "rt_hosts_table = ''webperf_rum_hostnames''"
definition rt_owner_hosts_table :: string where "rt_owner_hosts_table = ''webperf_rum_own_hostnames''"

type_synonym ('w, 'x) rt_call = "(rt_adapter \<times> 'w, 'x) call"

definition rt_no_options :: rt_options where
  "rt_no_options = \<lparr>rt_Address = [], rt_Addresses = [], rt_Database = [], rt_Username = [], rt_Password = [],
     rt_AuthKey = [], rt_Timeout = 0, rt_WriteTimeout = 0, rt_ReadTimeout = 0, rt_KeepAlivePeriod = 0,
     rt_UseJSONNumber = False, rt_NumRetries = 0, rt_InitialCap = 0, rt_MaxOpen = 0, rt_DiscoverHosts = False,
     rt_HostDecayDuration = 0\<rparr>"

definition rt_address_options :: "json_any \<Rightarrow> go_error + rt_options" where
  "rt_address_options addresses =
     (case addresses of
        AnyNull \<Rightarrow> Inr (rt_no_options\<lparr>rt_Address := rt_default_host\<rparr>)
      | AnyString host \<Rightarrow> Inr (rt_no_options\<lparr>rt_Address := host\<rparr>)
      | AnyList ihosts \<Rightarrow>
          if ihosts = [] then Inl ''adapter rethinkdb failed to parse config.Addresses''
          else (case collect_hosts ihosts of
                  None \<Rightarrow> Inl ''adapter rethinkdb invalid config.Addresses value''
                | Some hosts \<Rightarrow> Inr (rt_no_options\<lparr>rt_Addresses := hosts\<rparr>))
      | AnyOther \<Rightarrow> Inl ''adapter rethinkdb failed to parse config.Addresses'')"

definition rt_open :: "('w, 'r) rt_driver \<Rightarrow> string \<Rightarrow> ('w, go_error option) rt_call" where
  "rt_open D jsonconfig = (\<lambda>(a, w).
     if rt_conn a \<noteq> None then Value (Some ''adapter rethinkdb is already connected'', (a, w))
     else if length jsonconfig < 2 then Value (Some ''adapter rethinkdb missing config'', (a, w))
     else case rt_unmarshal D jsonconfig of
       Inl err \<Rightarrow> Value (Some (''adapter rethinkdb failed to parse config: '' @ err), (a, w))
     | Inr config \<Rightarrow>
         (case rt_address_options (tc_Addresses config) of
            Inl err \<Rightarrow> Value (Some err, (a, w))
          | Inr opts \<Rightarrow>
              let a = (if tc_Database config = [] then a\<lparr>rt_dbName := rt_default_database\<rparr>
                       else a\<lparr>rt_dbName := tc_Database config\<rparr>);
                  a = (if rt_maxResults a \<le> 0 then a\<lparr>rt_maxResults := rt_default_max_results\<rparr> else a);
                  opts = opts\<lparr>rt_Database := rt_dbName a, rt_Username := tc_Username config,
                    rt_Password := tc_Password config, rt_AuthKey := tc_AuthKey config,
                    rt_Timeout := seconds (tc_Timeout config), rt_WriteTimeout := seconds (tc_WriteTimeout config),
                    rt_ReadTimeout := seconds (tc_ReadTimeout config),
                    rt_KeepAlivePeriod := seconds (tc_KeepAlivePeriod config),
                    rt_UseJSONNumber := tc_UseJSONNumber config, rt_NumRetries := tc_NumRetries config,
                    rt_InitialCap := tc_InitialCap config, rt_MaxOpen := tc_MaxOpen config,
                    rt_DiscoverHosts := tc_DiscoverHosts config,
                    rt_HostDecayDuration := seconds (tc_HostDecayDuration config)\<rparr>
              in (case rt_connect D opts w of
                    (NotConnected err session, w) \<Rightarrow>
                      Value (Some err, (if session then a\<lparr>rt_conn := Some opts\<rparr> else a, w))
                  | (Session, w) \<Rightarrow> Value (None, (a\<lparr>rt_conn := Some opts, rt_version := -1\<rparr>, w)))))"

definition rt_close :: "('w, 'r) rt_driver \<Rightarrow> ('w, go_error option) rt_call" where
  "rt_close D = (\<lambda>(a, w).
     case rt_conn a of
       None \<Rightarrow> Value (None, (a, w))
     | Some h \<Rightarrow> let (err, w) = rt_disconnect D h w
         in Value (err, (a\<lparr>rt_conn := None, rt_version := -1\<rparr>, w)))"

definition rt_is_open :: "rt_adapter \<times> 'w \<Rightarrow> bool" where
  "rt_is_open s = (rt_conn (fst s) \<noteq> None)"

definition rt_is_missing_db :: "go_error \<Rightarrow> bool" where
  "rt_is_missing_db msg = (str_contains msg ''Database `'' \<and> str_contains msg ''` does not exist'')"

definition rt_is_missing_table :: "go_error \<Rightarrow> bool" where
  "rt_is_missing_table msg = (str_contains msg ''Table `'' \<and> str_contains msg ''` does not exist'')"

text \<open>The driver dereferences the nil session of a closed adapter.\<close>

definition rt_get_db_version :: "('w, 'r) rt_driver \<Rightarrow> ('w, int \<times> go_error option) rt_call" where
  "rt_get_db_version D = (\<lambda>(a, w).
     if 0 < rt_version a then Value ((rt_version a, None), (a, w))
     else if rt_conn a = None then nil_pointer (a, w)
     else (case rt_run D (Field (Get (Table (DB (rt_dbName a)) ''kvmeta'') ''version'') ''value'') w of
       (Inl err, w) \<Rightarrow>
         let err = (if rt_is_missing_db err \<or> rt_is_missing_table err then ''Database not initialized'' else err)
         in Value ((-1, Some err), (a, w))
     | (Inr cursor, w) \<Rightarrow>
         if rt_is_nil D cursor then Value ((-1, Some ''Database not initialized''), (a, w))
         else (case rt_one_int D cursor of
                 Inl err \<Rightarrow> Value ((-1, Some err), (a, w))
               | Inr vers \<Rightarrow> Value ((vers, None), (a\<lparr>rt_version := vers\<rparr>, w)))))"

definition rt_check_db_version :: "('w, 'r) rt_driver \<Rightarrow> ('w, go_error option) rt_call" where
  "rt_check_db_version D = call_bind (rt_get_db_version D) (\<lambda>(version, err).
     case err of Some err \<Rightarrow> call_ret (Some err)
     | None \<Rightarrow>
         if version \<noteq> rt_adp_version
         then call_ret (Some (''Invalid database version '' @ itoa version @ ''. Expected '' @ itoa rt_adp_version))
         else call_ret None)"

definition rt_adapter_version :: "rt_adapter \<times> 'w \<Rightarrow> int" where "rt_adapter_version s = rt_adp_version"
definition rt_get_name :: "rt_adapter \<times> 'w \<Rightarrow> string" where "rt_get_name s = rt_adapter_name"

definition rt_set_max_results :: "int \<Rightarrow> ('w, go_error option) rt_call" where
  "rt_set_max_results val = (\<lambda>(a, w).
     Value (None, (if val \<le> 0 then a\<lparr>rt_maxResults := rt_default_max_results\<rparr> else a\<lparr>rt_maxResults := val\<rparr>, w)))"

definition rt_stats :: "('w, 'r) rt_driver \<Rightarrow> ('w, string option) rt_call" where
  "rt_stats D = (\<lambda>(a, w).
     if rt_conn a = None then Value (None, (a, w))
     else (case rt_run D (Field (GetStats (Table (DB ''rethinkdb'') ''stats'')) ''query_engine'') w of
       (Inl err, w) \<Rightarrow> Value (None, (a, w))
     | (Inr cursor, w) \<Rightarrow>
         (case rt_all_stats D cursor of
            Inr (x # xs) \<Rightarrow> Value (Some x, (a, w))
          | _ \<Rightarrow> Value (None, (a, w)))))"

definition rt_upgrade_db :: "('w, go_error option) rt_call" where
  "rt_upgrade_db = call_ret None"

section \<open>CreateDb and writing\<close>

definition rt_write :: "('w, 'r) rt_driver \<Rightarrow> reql \<Rightarrow> ('w, go_error option) rt_call" where
  "rt_write D q = (\<lambda>(a, w).
     if rt_conn a = None then nil_pointer (a, w)
     else let (err, w) = rt_run_write D q w in Value (err, (a, w)))"

definition rt_create_queries :: "string \<Rightarrow> string \<Rightarrow> reql list" where
  "rt_create_queries dbName prefix =
     [DBCreate dbName,
      TableCreate (DB dbName) ''latency'' ''Id'',
      TableCreate (DB dbName) (prefix @ ''webperf_rum_hostnames'') ''hostname'',
      TableCreate (DB dbName) (prefix @ ''webperf_rum_own_hostnames'') ''hostname'',
      TableCreate (DB dbName) (prefix @ ''webperf_rum_grant_hostnames'') ''hostname'',
      TableCreate (DB dbName) ''kvmeta'' ''key'',
      Insert (Table (DB dbName) ''kvmeta'') (Doc_version ''version'' rt_adp_version)]"

text \<open>An error of dropping the database is not looked at.\<close>

definition rt_create_db :: "('w, 'r) rt_driver \<Rightarrow> bool \<Rightarrow> ('w, go_error option) rt_call" where
  "rt_create_db D reset = (\<lambda>(a, w).
     call_bind (if reset then rt_write D (DBDrop (rt_dbName a)) else call_ret None)
       (\<lambda>ignored. attempt_all (map (rt_write D) (rt_create_queries (rt_dbName a) (rt_prefix a)))) (a, w))"

definition rt_save :: "('w, 'r) rt_driver \<Rightarrow> rum_event \<Rightarrow> ('w, go_error option) rt_call" where
  "rt_save D e = (\<lambda>(a, w). rt_write D (Insert (Table (DB (rt_dbName a)) ''latency'') (Doc_rum e)) (a, w))"

definition rt_save_host :: "('w, 'r) rt_driver \<Rightarrow> hostname_event \<Rightarrow> ('w, go_error option) rt_call" where
  "rt_save_host D e = (\<lambda>(a, w).
     rt_write D (Insert (Table (DB (rt_dbName a)) (rt_prefix a @ rt_hosts_table)) (Doc_host e)) (a, w))"

definition rt_insert_owner_hostname :: "('w, 'r) rt_driver \<Rightarrow> owner_hostname \<Rightarrow> ('w, go_error option) rt_call" where
  "rt_insert_owner_hostname D item = (\<lambda>(a, w).
     rt_write D (Insert (Table (DB (rt_dbName a)) (rt_prefix a @ rt_owner_hosts_table)) (Doc_owner item)) (a, w))"

definition rt_delete_owner_hostname :: "('w, 'r) rt_driver \<Rightarrow> string \<Rightarrow> string \<Rightarrow> ('w, go_error option) rt_call" where
  "rt_delete_owner_hostname D hostname username = (\<lambda>(a, w).
     rt_write D (Delete (Filter (GetAllByIndex (Table (DB (rt_dbName a)) (rt_prefix a @ rt_owner_hosts_table))
       ''username'' username) ''hostname'' hostname)) (a, w))"

section \<open>Reading\<close>

definition zero_item :: subscription_with_hostname where
  "zero_item = \<lparr>swh_Subscription = zero_subscription, swh_Hostname = []\<rparr>"

text \<open>
  \<open>var item; for cursor.Next(&item) { result[item.Subscription.ID] = &item }\<close>: one variable for all rows.
  The loop yields the keys, and the last value of the variable, to which every entry points.
\<close>

fun rt_scan_subs :: "('r \<Rightarrow> subscription_with_hostname \<Rightarrow> go_error + subscription_with_hostname) \<Rightarrow> 'r list
    \<Rightarrow> go_error option \<Rightarrow> subscription_with_hostname \<Rightarrow> string list
    \<Rightarrow> (subscription_with_hostname \<times> string list) \<times> go_error option" where
  "rt_scan_subs decode [] err item ids = ((item, ids), err)"
| "rt_scan_subs decode (row # rows) err item ids =
     (case decode row item of
        Inl e \<Rightarrow> ((item, ids), Some e)
      | Inr item \<Rightarrow> rt_scan_subs decode rows err item (ids @ [sub_ID (swh_Subscription item)]))"

definition rt_get_subscriptions :: "('w, 'r) rt_driver \<Rightarrow> ('w, sub_map \<times> go_error option) rt_call" where
  "rt_get_subscriptions D = (\<lambda>(a, w).
     if rt_conn a = None then nil_pointer (a, w)
     else (case rt_run D (Table (DB (rt_dbName a)) (rt_prefix a @ rt_owner_hosts_table)) w of
       (Inl err, w) \<Rightarrow> Value ((None, Some err), (a, w))
     | (Inr (rows, rows_err), w) \<Rightarrow>
         (case rt_scan_subs (rt_decode_sub D) rows rows_err zero_item [] of
            ((item, ids), Some err) \<Rightarrow> Value ((None, Some err), (a, w))
          | ((item, ids), None) \<Rightarrow> Value ((Some (map (\<lambda>i. (i, item)) (remdups ids)), None), (a, w)))))"

definition rt_get_subscription :: "('w, 'r) rt_driver \<Rightarrow> string
    \<Rightarrow> ('w, subscription_with_hostname option \<times> go_error option) rt_call" where
  "rt_get_subscription D i = (\<lambda>(a, w).
     if rt_conn a = None then nil_pointer (a, w)
     else (case rt_run D (GetAll (Table (DB (rt_dbName a)) (rt_prefix a @ rt_owner_hosts_table)) i) w of
       (Inl err, w) \<Rightarrow> Value ((None, Some err), (a, w))
     | (Inr cursor, w) \<Rightarrow>
         if rt_is_nil D cursor then Value ((None, None), (a, w))
         else (case rt_one_sub D cursor of
                 Inl err \<Rightarrow> Value ((None, Some err), (a, w))
               | Inr result \<Rightarrow> Value ((Some result, None), (a, w)))))"

text \<open>Here the value of the variable is appended, not a pointer to it.\<close>

fun rt_scan_events :: "('r \<Rightarrow> json_value list \<Rightarrow> go_error + json_value list) \<Rightarrow> 'r list \<Rightarrow> go_error option
    \<Rightarrow> json_value list \<Rightarrow> event_rows \<Rightarrow> event_rows \<times> go_error option" where
  "rt_scan_events decode [] err sub subs = (subs, err)"
| "rt_scan_events decode (row # rows) err sub subs =
     (case decode row sub of
        Inl e \<Rightarrow> (subs, Some e)
      | Inr sub \<Rightarrow> rt_scan_events decode rows err sub (append_row subs (latency_row sub)))"

definition zero_event_fields :: "json_value list" where
  "zero_event_fields = [JText [], JText [], JNull, JInt 0, JInt 0, JInt 0, JText [], JInt 0, JText []]"

definition rt_get_events :: "('w, 'r) rt_driver \<Rightarrow> ('w, event_rows \<times> go_error option) rt_call" where
  "rt_get_events D = (\<lambda>(a, w).
     if rt_conn a = None then nil_pointer (a, w)
     else (case rt_run D (Table (DB (rt_dbName a)) ''latency'') w of
       (Inl err, w) \<Rightarrow> Value ((None, Some err), (a, w))
     | (Inr (rows, rows_err), w) \<Rightarrow>
         (case rt_scan_events (rt_decode_event D) rows rows_err zero_event_fields None of
            (subs, Some err) \<Rightarrow> Value ((None, Some err), (a, w))
          | (subs, None) \<Rightarrow> Value ((subs, None), (a, w)))))"

definition rethinkdb_adapter :: "('w, 'r) rt_driver \<Rightarrow> (rt_adapter \<times> 'w) adapter" where
  "rethinkdb_adapter D = \<lparr>ad_Open = rt_open D, ad_Close = rt_close D, ad_IsOpen = rt_is_open,
     ad_GetDbVersion = rt_get_db_version D, ad_CheckDbVersion = rt_check_db_version D, ad_GetName = rt_get_name,
     ad_SetMaxResults = rt_set_max_results, ad_CreateDb = rt_create_db D, ad_UpgradeDb = rt_upgrade_db,
     ad_Version = rt_adapter_version, ad_Stats = rt_stats D, ad_Save = rt_save D, ad_SaveHost = rt_save_host D,
     ad_InsertOwnerHostname = rt_insert_owner_hostname D, ad_DeleteOwnerHostname = rt_delete_owner_hostname D,
     ad_GetSubscriptions = rt_get_subscriptions D, ad_GetSubscription = rt_get_subscription D,
     ad_GetEvents = rt_get_events D\<rparr>"

lemmas rethinkdb_defs [go_defs] = new_rt_adapter_def rt_default_host_def rt_default_database_def rt_adp_version_def
  rt_adapter_name_def rt_default_max_results_def rt_hosts_table_def rt_owner_hosts_table_def rt_no_options_def
  rt_address_options_def rt_open_def rt_close_def rt_is_open_def rt_is_missing_db_def rt_is_missing_table_def
  rt_get_db_version_def rt_check_db_version_def rt_adapter_version_def rt_get_name_def rt_set_max_results_def
  rt_stats_def rt_upgrade_db_def rt_write_def rt_create_queries_def rt_create_db_def rt_save_def rt_save_host_def
  rt_insert_owner_hostname_def rt_delete_owner_hostname_def zero_item_def rt_get_subscriptions_def
  rt_get_subscription_def zero_event_fields_def rt_get_events_def rethinkdb_adapter_def

section \<open>The contract of an adapter\<close>

lemma rt_open_ok: "rt_open D c s = Value (None, s') \<Longrightarrow> rt_is_open s'"
  by (cases s) (auto simp: rt_open_def rt_is_open_def Let_def split: if_splits sum.splits prod.splits rt_connected.splits)

lemma rt_open_again: "rt_is_open s \<Longrightarrow> \<exists>e. rt_open D c s = Value (Some e, s)"
  by (cases s) (auto simp: rt_open_def rt_is_open_def)

lemma rt_close_closes: "\<exists>err s'. rt_close D s = Value (err, s') \<and> \<not> rt_is_open s'"
  by (cases s) (auto simp: rt_close_def rt_is_open_def Let_def split: option.splits prod.splits)

lemma rt_get_subscriptions_open: "rt_get_subscriptions D s = Value (r, s') \<Longrightarrow> rt_is_open s' = rt_is_open s"
  by (cases s) (auto simp: rt_get_subscriptions_def rt_is_open_def nil_pointer_def Let_def
      split: option.splits sum.splits prod.splits if_splits)

lemma rt_write_keeps: "keeps (\<lambda>s. fst s = a \<and> rt_conn a \<noteq> None) (rt_write D q)"
  by (auto simp: keeps_def rt_write_def nil_pointer_def split: prod.splits)

lemma rt_create_db_open: "rt_create_db D reset s = Value (None, s') \<Longrightarrow> rt_is_open s'"
proof -
  assume c: "rt_create_db D reset s = Value (None, s')"
  obtain a w where s: "s = (a, w)" by fastforce
  let ?P = "\<lambda>s. fst s = a \<and> rt_conn a \<noteq> None"
  have k: "keeps ?P (call_bind (if reset then rt_write D (DBDrop (rt_dbName a)) else call_ret None)
      (\<lambda>ignored. attempt_all (map (rt_write D) (rt_create_queries (rt_dbName a) (rt_prefix a)))))"
    using rt_write_keeps [of a D] by (intro keeps_bind keeps_attempt_all) (auto simp: list_all_iff)
  show ?thesis
  proof (cases "rt_conn a")
    case None
    have "rt_write D q (a, w) = Panic ''nil pointer dereference''" for q
      using None by (simp add: rt_write_def nil_pointer_def)
    with c s show ?thesis
      by (cases reset) (simp_all add: rt_create_db_def rt_create_queries_def call_bind_step call_ret_def call_bind_def attempt_step)
  next
    case (Some h)
    with keepsD [OF k, of "(a, w)"] c s show ?thesis by (simp add: rt_create_db_def rt_is_open_def)
  qed
qed

lemma rt_get_db_version_db: "rt_get_db_version D s = Value (r, s') \<Longrightarrow> rt_is_open s' = rt_is_open s"
  by (cases s) (auto simp: rt_get_db_version_def rt_is_open_def nil_pointer_def Let_def
      split: sum.splits prod.splits if_splits)

lemma rt_check_db_version_db: "rt_check_db_version D s = Value (r, s') \<Longrightarrow> rt_is_open s' = rt_is_open s"
  unfolding rt_check_db_version_def call_bind_def run_bind_Value_iff
  by (auto simp: call_ret_def simp del: split_paired_Ex dest: rt_get_db_version_db split: option.splits if_splits)

lemma rt_set_max_ok: "\<exists>s'. rt_set_max_results n s = Value (None, s') \<and> rt_is_open s' = rt_is_open s"
  by (cases s) (simp add: rt_set_max_results_def rt_is_open_def)

lemma rt_upgrade_db_open: "rt_upgrade_db s = Value (err, s') \<Longrightarrow> rt_is_open s' = rt_is_open s"
  by (simp add: rt_upgrade_db_def call_ret_def)

lemma rethinkdb_adapter_simps:
  "ad_GetSubscriptions (rethinkdb_adapter D) = rt_get_subscriptions D"
  "ad_Open (rethinkdb_adapter D) = rt_open D" "ad_Close (rethinkdb_adapter D) = rt_close D"
  "ad_IsOpen (rethinkdb_adapter D) = rt_is_open" "ad_GetDbVersion (rethinkdb_adapter D) = rt_get_db_version D"
  "ad_CheckDbVersion (rethinkdb_adapter D) = rt_check_db_version D" "ad_SetMaxResults (rethinkdb_adapter D) = rt_set_max_results"
  "ad_CreateDb (rethinkdb_adapter D) = rt_create_db D" "ad_UpgradeDb (rethinkdb_adapter D) = rt_upgrade_db"
  by (simp_all add: rethinkdb_adapter_def)

lemma rethinkdb_keeps_name: "keeps_name (rethinkdb_adapter D) m"
  by (simp add: keeps_name_def rethinkdb_adapter_def rt_get_name_def)

interpretation rt: db_adapter "rethinkdb_adapter D" for D
  by (rule db_adapter.intro, unfold rethinkdb_adapter_simps)
    (assumption | erule rt_open_ok rt_open_again rt_get_subscriptions_open rt_get_db_version_db rt_check_db_version_db
      rt_upgrade_db_open rt_create_db_open | rule rt_set_max_ok rt_close_closes rethinkdb_keeps_name)+

section \<open>All subscriptions are the last one\<close>

lemma rt_load_alias:
  assumes "caching_load (rt_get_subscriptions D) (cache0, s) = Value (None, (Some m, s1))"
  shows "\<exists>item. \<forall>k v. map_of m k = Some v \<longrightarrow> v = item"
proof -
  from assms obtain item ids where "m = map (\<lambda>i. (i, item)) ids"
    by (cases s) (auto simp: caching_load_def rt_get_subscriptions_def run_bind_Value_iff nil_pointer_def
        split: if_splits prod.splits sum.splits option.splits)
  then have "map_of m k = Some v \<Longrightarrow> v = item" for k v by (auto dest!: map_of_SomeD)
  then show ?thesis by blast
qed


text \<open>A driver for the examples: its rows are subscriptions.\<close>

definition rt_list_driver :: "(subscription_with_hostname list, subscription_with_hostname) rt_driver" where
  "rt_list_driver = \<lparr>rt_unmarshal = Inl, rt_connect = (\<lambda>opts w. (Session, w)), rt_disconnect = (\<lambda>opts w. (None, w)),
     rt_run = (\<lambda>q w. (Inr (w, None), w)), rt_run_write = (\<lambda>q w. (None, w)), rt_is_nil = (\<lambda>c. fst c = []),
     rt_one_int = (\<lambda>c. Inr 1), rt_one_sub = (\<lambda>c. Inr (hd (fst c))), rt_all_stats = (\<lambda>c. Inr []),
     rt_decode_sub = (\<lambda>r item. Inr r), rt_decode_event = (\<lambda>r vs. Inr vs)\<rparr>"

definition rt_opened :: rt_adapter where
  "rt_opened = new_rt_adapter\<lparr>rt_conn := Some rt_no_options\<rparr>"


end
