(* ===== verification/Adapters.thy ===== *)
theory Adapters
  imports Mysql Clickhouse Redis Rethinkdb
begin

text \<open>
  The four adapters behind the one interface: an object of the registry is one of the four, a method call goes
  to its own method. The \<open>init\<close> functions of the packages register those that the build tags include.
\<close>

section \<open>Two adapters side by side\<close>

definition dispatch :: "('a, 'x) call \<Rightarrow> ('b, 'x) call \<Rightarrow> ('a + 'b, 'x) call" where
  "dispatch f g s =
     (case s of
        Inl a \<Rightarrow> run_bind (f a) (\<lambda>(x, a). Value (x, Inl a))
      | Inr b \<Rightarrow> run_bind (g b) (\<lambda>(x, b). Value (x, Inr b)))"

definition sum_adapter :: "'a adapter \<Rightarrow> 'b adapter \<Rightarrow> ('a + 'b) adapter" where
  "sum_adapter A B = \<lparr>ad_Open = (\<lambda>c. dispatch (ad_Open A c) (ad_Open B c)), ad_Close = dispatch (ad_Close A) (ad_Close B),
     ad_IsOpen = case_sum (ad_IsOpen A) (ad_IsOpen B), ad_GetDbVersion = dispatch (ad_GetDbVersion A) (ad_GetDbVersion B),
     ad_CheckDbVersion = dispatch (ad_CheckDbVersion A) (ad_CheckDbVersion B),
     ad_GetName = case_sum (ad_GetName A) (ad_GetName B),
     ad_SetMaxResults = (\<lambda>n. dispatch (ad_SetMaxResults A n) (ad_SetMaxResults B n)),
     ad_CreateDb = (\<lambda>r. dispatch (ad_CreateDb A r) (ad_CreateDb B r)),
     ad_UpgradeDb = dispatch (ad_UpgradeDb A) (ad_UpgradeDb B), ad_Version = case_sum (ad_Version A) (ad_Version B),
     ad_Stats = dispatch (ad_Stats A) (ad_Stats B), ad_Save = (\<lambda>e. dispatch (ad_Save A e) (ad_Save B e)),
     ad_SaveHost = (\<lambda>e. dispatch (ad_SaveHost A e) (ad_SaveHost B e)),
     ad_InsertOwnerHostname = (\<lambda>i. dispatch (ad_InsertOwnerHostname A i) (ad_InsertOwnerHostname B i)),
     ad_DeleteOwnerHostname = (\<lambda>h u. dispatch (ad_DeleteOwnerHostname A h u) (ad_DeleteOwnerHostname B h u)),
     ad_GetSubscriptions = dispatch (ad_GetSubscriptions A) (ad_GetSubscriptions B),
     ad_GetSubscription = (\<lambda>i. dispatch (ad_GetSubscription A i) (ad_GetSubscription B i)),
     ad_GetEvents = dispatch (ad_GetEvents A) (ad_GetEvents B)\<rparr>"

lemma dispatch_Value:
  "dispatch f g s = Value (x, s') \<longleftrightarrow>
     (\<exists>a a'. s = Inl a \<and> s' = Inl a' \<and> f a = Value (x, a')) \<or> (\<exists>b b'. s = Inr b \<and> s' = Inr b' \<and> g b = Value (x, b'))"
  by (cases s) (auto simp: dispatch_def run_bind_Value_iff)

lemma sum_adapter_simps:
  "ad_Open (sum_adapter A B) c = dispatch (ad_Open A c) (ad_Open B c)"
  "ad_Close (sum_adapter A B) = dispatch (ad_Close A) (ad_Close B)"
  "ad_IsOpen (sum_adapter A B) = case_sum (ad_IsOpen A) (ad_IsOpen B)"
  "ad_GetDbVersion (sum_adapter A B) = dispatch (ad_GetDbVersion A) (ad_GetDbVersion B)"
  "ad_CheckDbVersion (sum_adapter A B) = dispatch (ad_CheckDbVersion A) (ad_CheckDbVersion B)"
  "ad_GetName (sum_adapter A B) = case_sum (ad_GetName A) (ad_GetName B)"
  "ad_SetMaxResults (sum_adapter A B) n = dispatch (ad_SetMaxResults A n) (ad_SetMaxResults B n)"
  "ad_CreateDb (sum_adapter A B) r = dispatch (ad_CreateDb A r) (ad_CreateDb B r)"
  "ad_UpgradeDb (sum_adapter A B) = dispatch (ad_UpgradeDb A) (ad_UpgradeDb B)"
  "ad_GetSubscriptions (sum_adapter A B) = dispatch (ad_GetSubscriptions A) (ad_GetSubscriptions B)"
  by (simp_all add: sum_adapter_def)

lemma sum_keeps_name:
  assumes "keeps_name A f" and "keeps_name B g"
  shows "keeps_name (sum_adapter A B) (dispatch f g)"
  using assms by (auto simp: keeps_name_def dispatch_Value sum_adapter_simps)

lemma sum_db_adapter:
  assumes "db_adapter A" and "db_adapter B"
  shows "db_adapter (sum_adapter A B)"
proof (rule db_adapter.intro, unfold sum_adapter_simps)
  note a = assms(1) and b = assms(2)
  note dv = dispatch_Value
  show "dispatch (ad_Open A c) (ad_Open B c) s = Value (None, s') \<Longrightarrow> case_sum (ad_IsOpen A) (ad_IsOpen B) s'" for c s s'
    using db_adapter.open_ok [OF a] db_adapter.open_ok [OF b] by (auto simp: dv)
  show "case_sum (ad_IsOpen A) (ad_IsOpen B) s \<Longrightarrow> \<exists>e. dispatch (ad_Open A c) (ad_Open B c) s = Value (Some e, s)" for c s
    using db_adapter.open_again [OF a] db_adapter.open_again [OF b] by (cases s) (fastforce simp: dv)+
  show "\<exists>err s'. dispatch (ad_Close A) (ad_Close B) s = Value (err, s') \<and> \<not> case_sum (ad_IsOpen A) (ad_IsOpen B) s'" for s
    using db_adapter.closes [OF a] db_adapter.closes [OF b] by (cases s) (fastforce simp: dv)+
  show "dispatch (ad_GetSubscriptions A) (ad_GetSubscriptions B) s = Value (r, s') \<Longrightarrow>
      case_sum (ad_IsOpen A) (ad_IsOpen B) s' = case_sum (ad_IsOpen A) (ad_IsOpen B) s" for s r s'
    using db_adapter.subs_open [OF a] db_adapter.subs_open [OF b]
    by (cases r) (auto simp: dv simp del: split_paired_All)
  show "\<exists>s'. dispatch (ad_SetMaxResults A n) (ad_SetMaxResults B n) s = Value (None, s') \<and>
      case_sum (ad_IsOpen A) (ad_IsOpen B) s' = case_sum (ad_IsOpen A) (ad_IsOpen B) s" for n s
  proof (cases s)
    case (Inl x)
    then show ?thesis using db_adapter.set_max [OF a, of n x] by (auto simp: dv)
  next
    case (Inr x)
    then show ?thesis using db_adapter.set_max [OF b, of n x] by (auto simp: dv)
  qed
  show "dispatch (ad_GetDbVersion A) (ad_GetDbVersion B) s = Value (r, s') \<Longrightarrow>
      case_sum (ad_IsOpen A) (ad_IsOpen B) s' = case_sum (ad_IsOpen A) (ad_IsOpen B) s" for s r s'
    using db_adapter.version_open [OF a] db_adapter.version_open [OF b]
    by (cases r) (auto simp: dv simp del: split_paired_All)
  show "dispatch (ad_CheckDbVersion A) (ad_CheckDbVersion B) s = Value (err, s') \<Longrightarrow>
      case_sum (ad_IsOpen A) (ad_IsOpen B) s' = case_sum (ad_IsOpen A) (ad_IsOpen B) s" for s err s'
    using db_adapter.check_open [OF a] db_adapter.check_open [OF b] by (auto simp: dv)
  show "dispatch (ad_UpgradeDb A) (ad_UpgradeDb B) s = Value (err, s') \<Longrightarrow>
      case_sum (ad_IsOpen A) (ad_IsOpen B) s' = case_sum (ad_IsOpen A) (ad_IsOpen B) s" for s err s'
    using db_adapter.upgrade_open [OF a] db_adapter.upgrade_open [OF b] by (auto simp: dv)
  show "dispatch (ad_CreateDb A r) (ad_CreateDb B r) s = Value (None, s') \<Longrightarrow> case_sum (ad_IsOpen A) (ad_IsOpen B) s'" for r s s'
    using db_adapter.create_open [OF a] db_adapter.create_open [OF b] by (auto simp: dv)
qed (intro sum_keeps_name db_adapter.names assms)+

section \<open>The registered adapters\<close>

type_synonym ('m, 'c, 'r, 't) object = "(my_adapter \<times> 'm) + (ch_adapter \<times> 'c) + (rd_adapter \<times> 'r) + (rt_adapter \<times> 't)"

definition all_adapters :: "'m my_driver \<Rightarrow> 'c ch_driver \<Rightarrow> 'r rd_driver \<Rightarrow> time \<Rightarrow> ('t, 'x) rt_driver
    \<Rightarrow> ('m, 'c, 'r, 't) object adapter" where
  "all_adapters DM DC DR now DT =
     sum_adapter (mysql_adapter DM) (sum_adapter (clickhouse_adapter DC)
       (sum_adapter (redis_adapter DR now) (rethinkdb_adapter DT)))"

interpretation all: db_adapter "all_adapters DM DC DR now DT" for DM DC DR now DT
  unfolding all_adapters_def
  by (intro sum_db_adapter my.db_adapter_axioms ch.db_adapter_axioms rd.db_adapter_axioms rt.db_adapter_axioms)

definition new_object :: "string \<Rightarrow> 'm \<Rightarrow> 'c \<Rightarrow> 'r \<Rightarrow> 't \<Rightarrow> ('m, 'c, 'r, 't) object" where
  "new_object tag m c r t =
     (if tag = my_adapter_name then Inl (new_my_adapter, m)
      else if tag = ch_adapter_name then Inr (Inl (new_ch_adapter, c))
      else if tag = rd_adapter_name then Inr (Inr (Inl (new_rd_adapter, r)))
      else Inr (Inr (Inr (new_rt_adapter, t))))"

definition adapter_tags :: "string list" where
  "adapter_tags = [ch_adapter_name, my_adapter_name, rd_adapter_name, rt_adapter_name]"

fun register_all :: "'a adapter \<Rightarrow> 'a list \<Rightarrow> 'a store \<Rightarrow> 'a store run" where
  "register_all A [] st = Value st"
| "register_all A (a # as) st = run_bind (register_adapter A (Some a) st) (register_all A as)"

definition program_start :: "('m, 'c, 'r, 't) object adapter \<Rightarrow> (string \<Rightarrow> bool) \<Rightarrow> 'm \<Rightarrow> 'c \<Rightarrow> 'r \<Rightarrow> 't
    \<Rightarrow> ('m, 'c, 'r, 't) object store run" where
  "program_start A built m c r t =
     register_all A (map (\<lambda>tag. new_object tag m c r t) (filter built adapter_tags)) init_store"

section \<open>Registering\<close>

lemma update_append: "k \<notin> fst ` set al \<Longrightarrow> AList.update k v al = al @ [(k, v)]"
  by (induction al) auto

lemma register_adapter_new:
  "ad_GetName A a \<notin> fst ` set (availableAdapters st) \<Longrightarrow>
   register_adapter A (Some a) st = Value (st\<lparr>availableAdapters := availableAdapters st @ [(ad_GetName A a, a)]\<rparr>)"
  by (simp add: register_adapter_def Let_def map_of_eq_None_iff update_append)

lemma register_all_ok:
  assumes "store_wf A st" and "distinct (map fst (availableAdapters st) @ map (ad_GetName A) objs)"
    and "list_all (\<lambda>a. \<not> ad_IsOpen A a) objs"
  shows "\<exists>st'. register_all A objs st = Value st' \<and> store_wf A st' \<and> adp st' = adp st
    \<and> availableAdapters st' = availableAdapters st @ map (\<lambda>a. (ad_GetName A a, a)) objs"
  using assms
proof (induction objs arbitrary: st)
  case (Cons a objs)
  let ?st = "st\<lparr>availableAdapters := availableAdapters st @ [(ad_GetName A a, a)]\<rparr>"
  from Cons.prems(2) have new: "ad_GetName A a \<notin> fst ` set (availableAdapters st)" by auto
  from register_adapter_wf [OF Cons.prems(1) register_adapter_new [OF new]] Cons.prems(3)
  have wf: "store_wf A ?st" by simp
  have "distinct (map fst (availableAdapters ?st) @ map (ad_GetName A) objs)" using Cons.prems(2) by auto
  from Cons.IH [OF wf this] Cons.prems(3) show ?case by (simp add: register_adapter_new [OF new])
qed simp

definition tag_object :: "'m \<Rightarrow> 'c \<Rightarrow> 'r \<Rightarrow> 't \<Rightarrow> string \<Rightarrow> ('m, 'c, 'r, 't) object" where
  "tag_object m c r t = (\<lambda>tag. new_object tag m c r t)"

lemma adapter_names_differ [simp]:
  "ch_adapter_name \<noteq> my_adapter_name" "rd_adapter_name \<noteq> my_adapter_name" "rd_adapter_name \<noteq> ch_adapter_name"
  "rt_adapter_name \<noteq> my_adapter_name" "rt_adapter_name \<noteq> ch_adapter_name" "rt_adapter_name \<noteq> rd_adapter_name"
  by (simp_all add: my_adapter_name_def ch_adapter_name_def rd_adapter_name_def rt_adapter_name_def)

lemma adapter_names_distinct: "distinct adapter_tags"
  using adapter_names_differ [symmetric] by (simp add: adapter_tags_def)

lemma tag_object_tags:
  "tag_object m c r t my_adapter_name = Inl (new_my_adapter, m)"
  "tag_object m c r t ch_adapter_name = Inr (Inl (new_ch_adapter, c))"
  "tag_object m c r t rd_adapter_name = Inr (Inr (Inl (new_rd_adapter, r)))"
  "tag_object m c r t rt_adapter_name = Inr (Inr (Inr (new_rt_adapter, t)))"
  by (simp_all add: tag_object_def new_object_def)

lemma all_adapters_names:
  "ad_GetName (all_adapters DM DC DR now DT) = case_sum my_get_name (case_sum ch_get_name (case_sum rd_get_name rt_get_name))"
  "ad_IsOpen (all_adapters DM DC DR now DT) = case_sum my_is_open (case_sum ch_is_open (case_sum rd_is_open rt_is_open))"
  by (simp_all add: all_adapters_def sum_adapter_simps mysql_adapter_def clickhouse_adapter_def redis_adapter_def
      rethinkdb_adapter_def)

lemma tag_object_simps:
  assumes "tag \<in> set adapter_tags"
  shows "ad_GetName (all_adapters DM DC DR now DT) (tag_object m c r t tag) = tag"
    and "\<not> ad_IsOpen (all_adapters DM DC DR now DT) (tag_object m c r t tag)"
proof -
  have "ad_GetName (all_adapters DM DC DR now DT) (tag_object m c r t tag) = tag
    \<and> \<not> ad_IsOpen (all_adapters DM DC DR now DT) (tag_object m c r t tag)"
    using assms unfolding adapter_tags_def list.set insert_iff empty_iff
    by (elim disjE FalseE)
      (simp_all add: tag_object_tags all_adapters_names my_get_name_def ch_get_name_def rd_get_name_def rt_get_name_def
        my_is_open_def ch_is_open_def rd_is_open_def rt_is_open_def
        new_my_adapter_def new_ch_adapter_def new_rd_adapter_def new_rt_adapter_def)
  then show "ad_GetName (all_adapters DM DC DR now DT) (tag_object m c r t tag) = tag"
    and "\<not> ad_IsOpen (all_adapters DM DC DR now DT) (tag_object m c r t tag)" by simp_all
qed

lemma program_start_ok:
  "\<exists>st. program_start (all_adapters DM DC DR now DT) built m c r t = Value st
    \<and> store_wf (all_adapters DM DC DR now DT) st \<and> adp st = None
    \<and> availableAdapters st = map (\<lambda>tag. (tag, tag_object m c r t tag)) (filter built adapter_tags)"
proof -
  let ?A = "all_adapters DM DC DR now DT" and ?tags = "filter built adapter_tags"
  let ?objs = "map (tag_object m c r t) ?tags"
  have "map (ad_GetName ?A) ?objs = map id ?tags"
    unfolding map_map by (rule map_cong) (auto simp: tag_object_simps)
  moreover have "map (\<lambda>a. (ad_GetName ?A a, a)) ?objs = map (\<lambda>tag. (tag, tag_object m c r t tag)) ?tags"
    unfolding map_map by (rule map_cong) (auto simp: tag_object_simps)
  moreover have "list_all (\<lambda>a. \<not> ad_IsOpen ?A a) ?objs" by (auto simp: list_all_iff tag_object_simps)
  moreover have "distinct ?tags" using adapter_names_distinct by simp
  ultimately show ?thesis
    using register_all_ok [OF init_store_wf, of ?A ?objs]
    by (auto simp: program_start_def init_store_def tag_object_def [abs_def])
qed

text \<open>
  Whatever adapters the build tags include, the program starts: no registration panics, the registry has
  one entry for each of them under its own name, and none is chosen.
\<close>

theorem program_start_registers:
  "case program_start (all_adapters DM DC DR now DT) built m c r t of
     Panic p \<Rightarrow> False
   | Value st \<Rightarrow> map fst (availableAdapters st) = filter built [''clickhouse'', ''mysql'', ''redis'', ''rethinkdb'']
       \<and> adp st = None \<and> \<not> store_is_open (all_adapters DM DC DR now DT) st"
  using program_start_ok [of DM DC DR now DT built m c r t]
  by (auto simp: comp_def adapter_tags_def my_adapter_name_def ch_adapter_name_def rd_adapter_name_def
      rt_adapter_name_def store_is_open_def)

section \<open>The registry at run time\<close>

lemma one_open:
  assumes "store_wf A st"
  shows "length (filter (\<lambda>(n, a). ad_IsOpen A a) (availableAdapters st)) \<le> 1"
proof -
  let ?open = "filter (\<lambda>(n, a). ad_IsOpen A a) (availableAdapters st)"
  have "n = the (adp st)" if "n \<in> set (map fst ?open)" for n
  proof -
    from that have "adp st = Some n" using assms by (auto simp: store_wf_def list_all_iff)
    then show ?thesis by simp
  qed
  then have "set (map fst ?open) \<subseteq> {the (adp st)}" by blast
  then have "card (set (map fst ?open)) \<le> 1" using card_mono [of "{the (adp st)}"] by simp
  moreover have "distinct (map fst ?open)" using assms by (simp add: store_wf_def distinct_map_filter)
  ultimately show ?thesis by (metis distinct_card length_map)
qed

text \<open>
  C9: After the start, whatever sequence of registry operations follows, with whatever configurations and
  database answers: at most one adapter is open, each stays under its own name, and once an adapter is
  chosen every later state has the same one.
\<close>

theorem one_open_database:
  assumes "program_start (all_adapters DM DC DR now DT) built m c r t = Value st0"
    and "(store_step (all_adapters DM DC DR now DT) unmarshal)\<^sup>*\<^sup>* st0 st1"
    and "(store_step (all_adapters DM DC DR now DT) unmarshal)\<^sup>*\<^sup>* st1 st2"
  shows "length (filter (\<lambda>(n, a). ad_IsOpen (all_adapters DM DC DR now DT) a) (availableAdapters st2)) \<le> 1
    \<and> list_all (\<lambda>(n, a). ad_GetName (all_adapters DM DC DR now DT) a = n) (availableAdapters st2)
    \<and> (adp st1 \<noteq> None \<longrightarrow> adp st2 = adp st1)"
proof -
  let ?A = "all_adapters DM DC DR now DT"
  have "store_wf ?A st0" using program_start_ok [of DM DC DR now DT built m c r t] assms(1) by auto
  with all.store_steps_wf [OF assms(2)] have "store_wf ?A st1" by blast
  from all.store_steps_wf [OF assms(3) this] have "store_wf ?A st2" "adp st1 \<noteq> None \<longrightarrow> adp st2 = adp st1" by blast+
  with one_open [of ?A st2] show ?thesis by (auto simp: store_wf_def list_all_iff)
qed

text \<open>
  Opening reports success only when the database is open; it then refuses to be opened again, whatever the
  configuration, and nothing changes; closing always leaves it closed, an error or not, with its adapter still chosen.
\<close>

theorem store_open_close:
  assumes "store_wf (all_adapters DM DC DR now DT) st"
    and "store_open (all_adapters DM DC DR now DT) unmarshal w json st = Value (err, st1)"
  shows "(err = None \<longrightarrow> store_is_open (all_adapters DM DC DR now DT) st1)
    \<and> (store_is_open (all_adapters DM DC DR now DT) st1 \<and> unmarshal json' = Inr config \<longrightarrow>
         store_open (all_adapters DM DC DR now DT) unmarshal w' json' st1 = Value (Some ''store: connection is already opened'', st1))
    \<and> (store_close (all_adapters DM DC DR now DT) st1 = Value (err', st2) \<longrightarrow>
         \<not> store_is_open (all_adapters DM DC DR now DT) st2 \<and> adp st2 = adp st1)"
  using all.store_open_wf [OF assms] all.store_close_wf all.store_open_again by metis

section \<open>An example\<close>

definition sample_drivers :: "(my_log, owner_rows, hash_db, subscription_with_hostname list) object adapter" where
  "sample_drivers = all_adapters (my_log_driver (\<lambda>q. False)) (ch_list_driver\<lparr>ch_ping := (\<lambda>opts w. (None, w))\<rparr>)
     rd_map_driver 0 rt_list_driver"

definition sample_unmarshal :: "string \<Rightarrow> go_error + store_config" where
  "sample_unmarshal json = Inr \<lparr>st_UidKey = [], st_MaxResults = 0, st_UseAdapter = [],
     st_Adapters = Some [(''clickhouse'', ''{}'')]\<rparr>"

definition sample_store :: "(my_log, owner_rows, hash_db, subscription_with_hostname list) object store" where
  "sample_store = \<lparr>adp = None, availableAdapters = [(''clickhouse'', Inr (Inl (new_ch_adapter, [(''v'', 0, ''h'')])))]\<rparr>"

lemma sample_start: "program_start sample_drivers (\<lambda>tag. tag = ''clickhouse'') (False, []) [(''v'', 0, ''h'')] [] [] = Value sample_store"
proof -
  have tags: "filter (\<lambda>tag. tag = ''clickhouse'') adapter_tags = [ch_adapter_name]"
    by (simp add: adapter_tags_def my_adapter_name_def ch_adapter_name_def rd_adapter_name_def rt_adapter_name_def)
  have obj: "tag_object (False, []) [(''v'', 0, ''h'')] [] [] ''clickhouse'' = Inr (Inl (new_ch_adapter, [(''v'', 0, ''h'')]))"
    by (rule tag_object_tags(2) [unfolded ch_adapter_name_def])
  obtain st where st: "program_start sample_drivers (\<lambda>tag. tag = ''clickhouse'') (False, []) [(''v'', 0, ''h'')] [] [] = Value st"
    "adp st = None" "availableAdapters st = [(''clickhouse'', Inr (Inl (new_ch_adapter, [(''v'', 0, ''h'')])))]"
    using program_start_ok [of "my_log_driver (\<lambda>q. False)" "ch_list_driver\<lparr>ch_ping := (\<lambda>opts w. (None, w))\<rparr>" rd_map_driver 0
        rt_list_driver "\<lambda>tag. tag = ''clickhouse''" "(False, [])" "[(''v'', 0, ''h'')]" "[]" "[]"]
    unfolding sample_drivers_def [symmetric] tags
    by (auto simp: obj ch_adapter_name_def)
  then have "st = sample_store" by (simp add: sample_store_def)
  with st show ?thesis by simp
qed

lemma dispatch_mid:
  "dispatch f (dispatch g h) (Inr (Inl a)) = run_bind (g a) (\<lambda>(x, a). Value (x, Inr (Inl a)))"
  by (cases "g a") (auto simp: dispatch_def)

lemma atoi_one: "atoi ''1'' = (1, False)"
  by code_simp

lemma sample_drivers_simps:
  "ad_IsOpen sample_drivers (Inr (Inl a)) = ch_is_open a"
  "ad_GetName sample_drivers (Inr (Inl a)) = ''clickhouse''"
  "ad_SetMaxResults sample_drivers n (Inr (Inl a)) = run_bind (ch_set_max_results n a) (\<lambda>(x, a). Value (x, Inr (Inl a)))"
  "ad_Open sample_drivers j (Inr (Inl a)) =
     run_bind (ch_open (ch_list_driver\<lparr>ch_ping := (\<lambda>opts w. (None, w))\<rparr>) j a) (\<lambda>(x, a). Value (x, Inr (Inl a)))"
  "ad_CheckDbVersion sample_drivers (Inr (Inl a)) =
     run_bind (ch_check_db_version (ch_list_driver\<lparr>ch_ping := (\<lambda>opts w. (None, w))\<rparr>) a) (\<lambda>(x, a). Value (x, Inr (Inl a)))"
  "ad_GetDbVersion sample_drivers (Inr (Inl a)) =
     run_bind (ch_get_db_version (ch_list_driver\<lparr>ch_ping := (\<lambda>opts w. (None, w))\<rparr>) a) (\<lambda>(x, a). Value (x, Inr (Inl a)))"
  "ad_Close sample_drivers (Inr (Inl a)) =
     run_bind (ch_close (ch_list_driver\<lparr>ch_ping := (\<lambda>opts w. (None, w))\<rparr>) a) (\<lambda>(x, a). Value (x, Inr (Inl a)))"
  unfolding sample_drivers_def all_adapters_def sum_adapter_simps dispatch_mid clickhouse_adapter_simps sum.case
  by (simp_all add: clickhouse_adapter_def ch_get_name_def ch_adapter_name_def)

lemma sample_opens:
  "\<exists>a. store_open sample_drivers sample_unmarshal 1 ''{}'' sample_store =
     Value (None, \<lparr>adp = Some ''clickhouse'', availableAdapters = [(''clickhouse'', Inr (Inl (a, [(''v'', 0, ''h'')])))]\<rparr>)
    \<and> ch_conn a \<noteq> None \<and> ch_version a = 1"
proof -
  let ?st = "sample_store\<lparr>adp := Some ''clickhouse''\<rparr>"
  have c: "choose_adapter (projr (sample_unmarshal ''{}'')) sample_store = Inr ?st"
    by (simp add: choose_adapter_def sample_store_def sample_unmarshal_def)
  obtain a where "open_adapter sample_drivers sample_unmarshal 1 ''{}'' sample_store =
      Value (None, \<lparr>adp = Some ''clickhouse'', availableAdapters = [(''clickhouse'', Inr (Inl (a, [(''v'', 0, ''h'')])))]\<rparr>)"
    "ch_conn a \<noteq> None" "ch_version a = -1"
    using c
    by (simp add: open_adapter_def sample_unmarshal_def sample_store_def adp_is_open_def adp_state_def sample_drivers_simps
        attempt_def call_bind_def on_adp_def ch_is_open_def new_ch_adapter_def ch_set_max_results_def adapter_config_def
        ch_open_def ch_list_driver_def ch_addresses_def Let_def)
  then show ?thesis
    by (clarsimp simp: store_open_def attempt_step on_adp_def adp_state_def sample_drivers_simps ch_check_db_version_def
        ch_get_db_version_def ch_list_driver_def ch_owner_row_def call_bind_def call_ret_def atoi_one ch_adp_version_def Let_def)
qed

lemma sample_store_wf: "store_wf sample_drivers sample_store"
  using program_start_ok [of "my_log_driver (\<lambda>q. False)" "ch_list_driver\<lparr>ch_ping := (\<lambda>opts w. (None, w))\<rparr>" rd_map_driver 0
      rt_list_driver "\<lambda>tag. tag = ''clickhouse''" "(False, [])" "[(''v'', 0, ''h'')]" "[]" "[]"] sample_start
  unfolding sample_drivers_def [symmetric] by auto

lemma one_open_database_witness:
  "\<exists>st. store_open sample_drivers sample_unmarshal 1 ''{}'' sample_store = Value (None, st)
    \<and> length (filter (\<lambda>(n, a). ad_IsOpen sample_drivers a) (availableAdapters st)) \<le> 1"
proof -
  obtain st where o: "store_open sample_drivers sample_unmarshal 1 ''{}'' sample_store = Value (None, st)"
    using sample_opens by blast
  then have "(store_step sample_drivers sample_unmarshal)\<^sup>*\<^sup>* sample_store st" by (blast intro: store_step.intros(2))
  from one_open_database [OF sample_start [unfolded sample_drivers_def] this [unfolded sample_drivers_def] rtranclp.rtrancl_refl]
  show ?thesis using o by (auto simp: sample_drivers_def)
qed

lemma store_open_close_witness:
  "\<exists>st. store_open sample_drivers sample_unmarshal 1 ''{}'' sample_store = Value (None, st) \<and> store_is_open sample_drivers st"
proof -
  obtain st where o: "store_open sample_drivers sample_unmarshal 1 ''{}'' sample_store = Value (None, st)"
    using sample_opens by blast
  from store_open_close [OF sample_store_wf [unfolded sample_drivers_def] o [unfolded sample_drivers_def]] o
  show ?thesis by (auto simp: sample_drivers_def)
qed

end
