(* ===== verification/Go_Path.thy ===== *)
theory Go_Path
  imports Go_Strings
begin

text \<open>
  Go's \<open>path\<close> and \<open>path/filepath\<close> on Unix: \<open>Clean\<close>, \<open>Join\<close> and \<open>Dir\<close>, and the position in the
  file tree a path names, the list of its components after cleaning.
\<close>

section \<open>Clean and Join\<close>

text \<open>
  \<open>Clean\<close> drops empty and dot components, lets dot-dot cancel the component before it, and drops
  dot-dot at the root. The accumulator holds the components so far, the last one first.
\<close>

fun clean_comps :: "bool \<Rightarrow> string list \<Rightarrow> string list \<Rightarrow> string list" where
  "clean_comps rooted acc [] = rev acc"
| "clean_comps rooted acc (p # ps) =
     (if p = [] \<or> p = ''.'' then clean_comps rooted acc ps
      else if p = ''..'' then
        (if acc \<noteq> [] \<and> hd acc \<noteq> ''..'' then clean_comps rooted (tl acc) ps
         else if rooted then clean_comps rooted acc ps
         else clean_comps rooted (p # acc) ps)
      else clean_comps rooted (p # acc) ps)"

definition path_rooted :: "string \<Rightarrow> bool" where
  "path_rooted p = has_prefix p ''/''"

definition path_comps :: "string \<Rightarrow> string list" where
  "path_comps p = clean_comps (path_rooted p) [] (split_on CHR ''/'' p)"

definition path_clean :: "string \<Rightarrow> string" where
  "path_clean p =
     (let body = join_with ''/'' (path_comps p)
      in if path_rooted p then CHR ''/'' # body else if body = [] then ''.'' else body)"

definition path_join :: "string list \<Rightarrow> string" where
  "path_join elems =
     (case filter (\<lambda>e. e \<noteq> []) elems of [] \<Rightarrow> [] | es \<Rightarrow> path_clean (join_with ''/'' es))"

text \<open>\<open>path.Dir\<close>: the cleaned path up to its last slash.\<close>

definition path_dir :: "string \<Rightarrow> string" where
  "path_dir p = path_clean (rev (dropWhile (\<lambda>c. c \<noteq> CHR ''/'') (rev p)))"

text \<open>
  The position of a path: its components, after a first empty component where the path is
  absolute. Relative positions are below the working directory, the empty position.
\<close>

definition path_key :: "string \<Rightarrow> string list" where
  "path_key p = (if path_rooted p then [[]] else []) @ path_comps p"

lemmas path_defs [go_defs] = path_rooted_def path_comps_def path_clean_def path_join_def
  path_dir_def path_key_def

section \<open>Plain names\<close>

text \<open>A plain name is one component that cleaning leaves alone.\<close>

definition plain_name :: "string \<Rightarrow> bool" where
  "plain_name p = (p \<noteq> [] \<and> p \<noteq> ''.'' \<and> p \<noteq> ''..'' \<and> CHR ''/'' \<notin> set p)"

definition name_part :: "string \<Rightarrow> bool" where
  "name_part p = (p = [] \<or> plain_name p)"

lemma clean_comps_plain:
  "(\<And>p. p \<in> set ps \<Longrightarrow> name_part p) \<Longrightarrow>
     clean_comps rooted acc ps = rev acc @ filter (\<lambda>p. p \<noteq> []) ps"
proof (induction ps arbitrary: acc)
  case (Cons p ps)
  then have "name_part p" by simp
  with Cons show ?case by (cases "p = []") (auto simp: name_part_def plain_name_def)
qed simp

lemma clean_comps_append_plain:
  "(\<And>p. p \<in> set ys \<Longrightarrow> name_part p) \<Longrightarrow>
     clean_comps rooted acc (xs @ ys) = clean_comps rooted acc xs @ filter (\<lambda>p. p \<noteq> []) ys"
  by (induction rooted acc xs rule: clean_comps.induct) (auto simp: clean_comps_plain)

text \<open>
  Cleaned components are leading dot-dots, none of them in an absolute path, then plain names;
  cleaning them again changes nothing.
\<close>

definition cleaned :: "bool \<Rightarrow> string list \<Rightarrow> bool" where
  "cleaned rooted cs =
     (\<exists>n ps. cs = replicate n ''..'' @ ps \<and> (\<forall>p \<in> set ps. plain_name p) \<and> (rooted \<longrightarrow> n = 0))"

lemma cleaned_snoc:
  "cleaned rooted cs \<Longrightarrow> plain_name p \<Longrightarrow> cleaned rooted (cs @ [p])"
proof -
  assume "cleaned rooted cs" and p: "plain_name p"
  then obtain n ps where "cs = replicate n ''..'' @ ps" "\<forall>p \<in> set ps. plain_name p" "rooted \<longrightarrow> n = 0"
    unfolding cleaned_def by blast
  with p show ?thesis
    unfolding cleaned_def by (intro exI [of _ n] exI [of _ "ps @ [p]"]) simp
qed

lemma cleaned_snoc_dotdot:
  assumes "cleaned rooted cs" and "cs = [] \<or> last cs = ''..''" and "\<not> rooted"
  shows "cleaned rooted (cs @ [''..''])"
proof -
  obtain n ps where cs: "cs = replicate n ''..'' @ ps" "\<forall>p \<in> set ps. plain_name p"
    using assms(1) unfolding cleaned_def by blast
  have "ps = []"
  proof (rule ccontr)
    assume "ps \<noteq> []"
    then have "last cs \<in> set ps" "cs \<noteq> []" using cs(1) by auto
    with assms(2) cs(2) show False by (auto simp: plain_name_def)
  qed
  then have "cs @ [''..''] = replicate (Suc n) ''..'' @ []"
    using cs(1) by (simp add: replicate_append_same)
  with assms(3) show ?thesis
    unfolding cleaned_def by (intro exI [of _ "Suc n"] exI [of _ "[]"]) simp
qed

lemma cleaned_butlast:
  assumes "cleaned rooted cs"
  shows "cleaned rooted (butlast cs)"
proof -
  obtain n ps where cs: "cs = replicate n ''..'' @ ps" "\<forall>p \<in> set ps. plain_name p" "rooted \<longrightarrow> n = 0"
    using assms unfolding cleaned_def by blast
  show ?thesis
  proof (cases ps rule: rev_cases)
    case Nil
    then have "butlast cs = replicate (n - 1) ''..''" using cs(1) by (simp add: butlast_conv_take)
    with cs(3) show ?thesis
      unfolding cleaned_def by (intro exI [of _ "n - 1"] exI [of _ "[]"]) simp
  next
    case (snoc qs q)
    then have "butlast cs = replicate n ''..'' @ qs" using cs(1) by (simp add: butlast_append)
    with cs(2,3) snoc show ?thesis
      unfolding cleaned_def by (intro exI [of _ n] exI [of _ qs]) simp
  qed
qed

lemma clean_comps_cleaned:
  assumes "cleaned rooted (rev acc)" and "\<And>p. p \<in> set ps \<Longrightarrow> CHR ''/'' \<notin> set p"
  shows "cleaned rooted (clean_comps rooted acc ps)"
  using assms
proof (induction rooted acc ps rule: clean_comps.induct)
  case (1 rooted acc)
  then show ?case by simp
next
  case (2 rooted acc p ps)
  have tl_acc: "rev (tl acc) = butlast (rev acc)" by (cases acc) auto
  have last_acc: "acc = [] \<or> last (rev acc) = hd acc" by (cases acc) auto
  have rest: "\<And>q. q \<in> set ps \<Longrightarrow> CHR ''/'' \<notin> set q" using "2.prems"(2) by simp
  consider "p = [] \<or> p = ''.''" | "p = ''..''" "acc \<noteq> []" "hd acc \<noteq> ''..''"
    | "p = ''..''" "acc = [] \<or> hd acc = ''..''" rooted
    | "p = ''..''" "acc = [] \<or> hd acc = ''..''" "\<not> rooted"
    | "p \<noteq> []" "p \<noteq> ''.''" "p \<noteq> ''..''"
    by blast
  then show ?case
  proof cases
    case 1
    with 2 rest show ?thesis by auto
  next
    case case2: 2
    have "cleaned rooted (rev (tl acc))"
      unfolding tl_acc using "2.prems"(1) by (rule cleaned_butlast)
    with 2 case2 rest show ?thesis by auto
  next
    case 3
    with 2 rest show ?thesis by auto
  next
    case 4
    have "cleaned rooted (rev acc @ [''..''])"
      using "2.prems"(1) 4 last_acc by (intro cleaned_snoc_dotdot) auto
    with 2 4 rest show ?thesis by auto
  next
    case 5
    then have "plain_name p" using "2.prems"(2) by (simp add: plain_name_def)
    with "2.prems"(1) have "cleaned rooted (rev acc @ [p])" by (rule cleaned_snoc)
    with 2 5 rest show ?thesis by auto
  qed
qed

lemma clean_comps_fix:
  assumes "cleaned rooted cs"
  shows "clean_comps rooted [] cs = cs"
proof -
  obtain n ps where cs: "cs = replicate n ''..'' @ ps" "\<forall>p \<in> set ps. plain_name p" "rooted \<longrightarrow> n = 0"
    using assms unfolding cleaned_def by blast
  have "clean_comps rooted (replicate m ''..'') (replicate k ''..'') = replicate (m + k) ''..''"
    if "rooted \<longrightarrow> k = 0" for m k
    using that
  proof (induction k arbitrary: m)
    case (Suc k)
    then have "clean_comps rooted (replicate m ''..'') (replicate (Suc k) ''..'')
        = clean_comps rooted (replicate (Suc m) ''..'') (replicate k ''..'')"
      by (cases m) auto
    also have "\<dots> = replicate (Suc m + k) ''..''" using Suc.prems by (intro Suc.IH) simp
    finally show ?case by simp
  qed simp
  from this [of n 0] cs have "clean_comps rooted [] (replicate n ''..'') = replicate n ''..''" by simp
  with cs(1,2) show ?thesis
    by (simp add: clean_comps_append_plain name_part_def filter_id_conv plain_name_def)
qed

lemma path_comps_cleaned: "cleaned (path_rooted p) (path_comps p)"
proof -
  have "cleaned (path_rooted p) (rev [])" by (simp add: cleaned_def)
  then show ?thesis
    unfolding path_comps_def by (rule clean_comps_cleaned) (rule split_on_parts_free)
qed

lemma cleaned_parts:
  assumes "cleaned r cs" and "c \<in> set cs"
  shows "c \<noteq> [] \<and> CHR ''/'' \<notin> set c"
proof -
  obtain n ps where "cs = replicate n ''..'' @ ps" "\<forall>p \<in> set ps. plain_name p"
    using assms(1) unfolding cleaned_def by blast
  with assms(2) have "c = ''..'' \<or> plain_name c" by auto
  then show ?thesis by (auto simp: plain_name_def)
qed

lemma split_join_comps:
  assumes "cleaned r cs" and "cs \<noteq> []"
  shows "split_on CHR ''/'' (join_with ''/'' cs) = cs"
  using assms by (intro split_on_join) (auto dest: cleaned_parts)

text \<open>Cleaning a path does not change the position it names.\<close>

lemma path_key_clean [simp]: "path_key (path_clean p) = path_key p"
proof -
  let ?cs = "path_comps p"
  have cl: "cleaned (path_rooted p) ?cs" by (rule path_comps_cleaned)
  show ?thesis
  proof (cases "?cs = []")
    case True
    then show ?thesis
      by (auto simp: path_key_def path_clean_def Let_def path_comps_def path_rooted_def has_prefix_def)
  next
    case False
    note split = split_join_comps [OF cl False]
    have hd: "join_with ''/'' ?cs \<noteq> [] \<and> hd (join_with ''/'' ?cs) \<noteq> CHR ''/''"
    proof -
      obtain c cs where "?cs = c # cs" using False by (cases ?cs) auto
      with cleaned_parts [OF cl, of c] have "c \<noteq> []" "CHR ''/'' \<notin> set c" by auto
      then have "hd c \<noteq> CHR ''/''" by (cases c) auto
      with \<open>?cs = c # cs\<close> \<open>c \<noteq> []\<close> show ?thesis
        by (cases cs) (auto simp: hd_append)
    qed
    then obtain x xs where x: "join_with ''/'' ?cs = x # xs" "x \<noteq> CHR ''/''"
      by (cases "join_with ''/'' ?cs") auto
    show ?thesis
    proof (cases "path_rooted p")
      case True
      then have "path_comps (path_clean p) = ?cs"
        using cl split x clean_comps_fix
        by (simp add: path_clean_def path_comps_def [of "CHR ''/'' # _"] Let_def
            path_rooted_def [of "CHR ''/'' # _"] has_prefix_def)
      moreover have "path_rooted (path_clean p)"
        using True by (simp add: path_clean_def Let_def path_rooted_def has_prefix_def)
      ultimately show ?thesis using True by (simp add: path_key_def)
    next
      case False
      then have "path_clean p = x # xs" using x by (simp add: path_clean_def Let_def)
      moreover have "\<not> path_rooted (x # xs)" using x(2) by (simp add: path_rooted_def has_prefix_def)
      ultimately show ?thesis
        using False cl split x clean_comps_fix [of False ?cs]
        by (simp add: path_key_def path_comps_def [of "x # xs"])
    qed
  qed
qed

text \<open>Joining names to a directory extends the position of the directory by the names.\<close>

lemma split_join_names:
  "r \<noteq> [] \<Longrightarrow> (\<And>p. p \<in> set ps \<Longrightarrow> CHR ''/'' \<notin> set p) \<Longrightarrow>
     split_on CHR ''/'' (join_with ''/'' (r # ps)) = split_on CHR ''/'' r @ ps"
proof (induction ps arbitrary: r)
  case (Cons p ps)
  have app: "split_on CHR ''/'' (a @ CHR ''/'' # b) = split_on CHR ''/'' a @ split_on CHR ''/'' b" for a b
    by (induction a) (auto split: list.splits)
  have rest: "split_on CHR ''/'' (join_with ''/'' (p # ps)) = p # ps"
    using Cons.prems(2) by (intro split_on_join) auto
  have "join_with ''/'' (r # p # ps) = r @ CHR ''/'' # join_with ''/'' (p # ps)" by simp
  with app rest show ?case by metis
qed simp

lemma path_key_join:
  assumes "\<And>p. p \<in> set ps \<Longrightarrow> name_part p"
  shows "path_key (path_join (r # ps)) = path_key r @ filter (\<lambda>p. p \<noteq> []) ps"
proof -
  let ?qs = "filter (\<lambda>p. p \<noteq> []) ps"
  have plain: "plain_name q" if "q \<in> set ?qs" for q
    using that assms by (auto simp: name_part_def)
  then have np: "name_part q" and free: "CHR ''/'' \<notin> set q" if "q \<in> set ?qs" for q
    using that by (auto simp: name_part_def plain_name_def)
  have key_names: "path_key (join_with ''/'' ?qs) = ?qs" if ne: "?qs \<noteq> []"
  proof -
    obtain q qs where q: "?qs = q # qs" using ne by (meson list.exhaust)
    with plain [of q] obtain c cs where c: "q = c # cs" "c \<noteq> CHR ''/''"
      by (cases q) (auto simp: plain_name_def)
    then have "\<not> path_rooted (join_with ''/'' ?qs)"
      using q by (cases qs) (auto simp: path_rooted_def has_prefix_def)
    moreover have "split_on CHR ''/'' (join_with ''/'' ?qs) = ?qs"
      using ne free by (intro split_on_join) auto
    moreover have "clean_comps False [] ?qs = ?qs"
      using clean_comps_plain [of ?qs False "[]"] np by simp
    ultimately show ?thesis
      by (simp add: path_key_def path_comps_def)
  qed
  show ?thesis
  proof (cases "r = []")
    case True
    have "path_key [] = []" by (simp add: path_key_def path_comps_def path_rooted_def has_prefix_def)
    with True key_names show ?thesis
      by (cases ?qs) (auto simp: path_join_def)
  next
    case False
    then obtain c cs where r: "r = c # cs" by (cases r) auto
    have rooted: "path_rooted (join_with ''/'' (r # ?qs)) = path_rooted r"
      by (cases ?qs) (auto simp: path_rooted_def has_prefix_def r)
    have "path_comps (join_with ''/'' (r # ?qs)) = path_comps r @ ?qs"
      unfolding path_comps_def rooted
      using split_join_names [OF False, of ?qs] free
        clean_comps_append_plain [of ?qs "path_rooted r" "[]" "split_on CHR ''/'' r"] np
      by simp
    then have "path_key (join_with ''/'' (r # ?qs)) = path_key r @ ?qs"
      by (simp add: path_key_def rooted)
    with False show ?thesis by (simp add: path_join_def)
  qed
qed

section \<open>The directory and the name of a file\<close>

text \<open>A path written as its directory part, empty or ending in a slash, and a plain name.\<close>

definition dir_part :: "string \<Rightarrow> bool" where
  "dir_part q = (q = [] \<or> last q = CHR ''/'')"

lemma split_on_app: "split_on c (a @ c # b) = split_on c a @ split_on c b"
  by (induction a) (auto split: list.splits)

lemma path_key_name:
  assumes "dir_part q" and n: "plain_name n"
  shows "path_key (q @ n) = path_key q @ [n]" and "path_key (path_dir (q @ n)) = path_key q"
proof -
  have free: "CHR ''/'' \<notin> set n" and np: "name_part n" and ne: "n \<noteq> []"
    using n by (auto simp: name_part_def plain_name_def)
  have drop: "dropWhile (\<lambda>c. c \<noteq> CHR ''/'') (rev n @ t) = dropWhile (\<lambda>c. c \<noteq> CHR ''/'') t" for t
    using free by (intro dropWhile_append2) auto
  have "path_key (q @ n) = path_key q @ [n] \<and> path_dir (q @ n) = path_clean q"
  proof (cases "q = []")
    case True
    have "\<not> path_rooted n" using free ne by (cases n) (auto simp: path_rooted_def has_prefix_def)
    moreover have "path_dir n = path_clean []"
      using drop [of "[]"] by (simp only: path_dir_def append_Nil2 dropWhile.simps rev.simps)
    ultimately show ?thesis
      using True free clean_comps_plain [of "[n]" False "[]"] np ne
      by (simp add: path_key_def path_comps_def path_rooted_def split_on_free) (simp add: has_prefix_def)
  next
    case False
    with assms(1) obtain q' where q: "q = q' @ ''/''"
      by (metis append_butlast_last_id dir_part_def)
    have rooted: "path_rooted (q @ n) = path_rooted q"
      using q by (cases q') (auto simp: path_rooted_def has_prefix_def)
    have "split_on CHR ''/'' (q @ n) = split_on CHR ''/'' q' @ [n]"
      "split_on CHR ''/'' q = split_on CHR ''/'' q' @ [[]]"
      using split_on_app [of "CHR ''/''" q' n] split_on_app [of "CHR ''/''" q' "[]"] free
      by (simp_all add: q split_on_free)
    then have "path_comps (q @ n) = path_comps q @ [n]"
      using clean_comps_append_plain [of "[n]" "path_rooted q" "[]" "split_on CHR ''/'' q'"]
        clean_comps_append_plain [of "[[]]" "path_rooted q" "[]" "split_on CHR ''/'' q'"] np ne
      by (simp add: path_comps_def rooted name_part_def)
    moreover have "path_dir (q @ n) = path_clean q"
      using drop [of "CHR ''/'' # rev q'"] by (simp add: path_dir_def q)
    ultimately show ?thesis by (simp add: path_key_def rooted)
  qed
  then show "path_key (q @ n) = path_key q @ [n]" "path_key (path_dir (q @ n)) = path_key q" by simp_all
qed

lemma join_with_snoc: "ps \<noteq> [] \<Longrightarrow> join_with sep (ps @ [p]) = join_with sep ps @ sep @ p"
proof (induction ps)
  case (Cons a ps)
  then show ?case by (cases ps) (simp_all add: join_with_Cons)
qed simp

lemma path_clean_name:
  assumes "path_key p = ks @ [n]" and n: "plain_name n"
  shows "\<exists>q. path_clean p = q @ n \<and> dir_part q"
proof -
  have ne: "path_comps p \<noteq> []"
  proof
    assume "path_comps p = []"
    with assms(1) have "n = []" by (auto simp: path_key_def split: if_splits)
    with n show False by (simp add: plain_name_def)
  qed
  then have "last (path_key p) = last (path_comps p)" by (simp add: path_key_def)
  with assms(1) have last: "last (path_comps p) = n" by simp
  define cs where "cs = butlast (path_comps p)"
  have cs: "path_comps p = cs @ [n]" using ne last unfolding cs_def by (metis append_butlast_last_id)
  have "n \<noteq> []" using n by (simp add: plain_name_def)
  then show ?thesis
    by (cases "cs = []"; cases "path_rooted p")
      (force simp: path_clean_def cs join_with_snoc dir_part_def Let_def)+
qed

text \<open>A file in a directory below \<open>r\<close>, its name possibly extended.\<close>

lemma path_join_file:
  assumes "\<And>p. p \<in> set ps \<Longrightarrow> name_part p" and n: "plain_name n" and ext: "plain_name (n @ ext)"
  shows "path_key (path_join (r # ps @ [n]) @ ext) = path_key r @ filter (\<lambda>p. p \<noteq> []) ps @ [n @ ext]"
    and "path_key (path_dir (path_join (r # ps @ [n]) @ ext)) = path_key r @ filter (\<lambda>p. p \<noteq> []) ps"
proof -
  have np: "name_part p" if "p \<in> set (ps @ [n])" for p
    using that assms(1) n by (auto simp: name_part_def)
  have ne: "n \<noteq> []" using n by (simp add: plain_name_def)
  have key: "path_key (path_join (r # ps @ [n])) = path_key r @ filter (\<lambda>p. p \<noteq> []) ps @ [n]"
    using path_key_join [of "ps @ [n]" r, OF np] ne by simp
  have "filter (\<lambda>e. e \<noteq> []) (r # ps @ [n]) \<noteq> []" using ne by simp
  then have "path_join (r # ps @ [n])
      = path_clean (join_with ''/'' (filter (\<lambda>e. e \<noteq> []) (r # ps @ [n])))"
    unfolding path_join_def
    by (cases "filter (\<lambda>e. e \<noteq> []) (r # ps @ [n])") (simp_all del: filter.simps filter_append)
  then obtain q where q: "path_join (r # ps @ [n]) = q @ n" "dir_part q"
    using path_clean_name [of _ "path_key r @ filter (\<lambda>p. p \<noteq> []) ps", OF _ n] key
    by (metis append_assoc path_key_clean)
  from path_key_name(1) [OF q(2) n] key q(1)
  have "path_key q = path_key r @ filter (\<lambda>p. p \<noteq> []) ps" by simp
  with path_key_name [OF q(2) ext] q(1)
  show "path_key (path_join (r # ps @ [n]) @ ext) = path_key r @ filter (\<lambda>p. p \<noteq> []) ps @ [n @ ext]"
    "path_key (path_dir (path_join (r # ps @ [n]) @ ext)) = path_key r @ filter (\<lambda>p. p \<noteq> []) ps"
    by simp_all
qed

end
