(* ===== verification/Go_Os.thy ===== *)
theory Go_Os
  imports Go_Path
begin

text \<open>
  The calls of Go's \<open>os\<close> package the program makes, over a file tree. The tree maps positions
  (\<open>path_key\<close>) to directories and files; the root and the working directory always exist. The
  environment may refuse any call at any position (permissions, a full disk): \<open>io_fault\<close> is an
  arbitrary table of such refusals. A write that is refused leaves the file as it was.
\<close>

section \<open>The tree\<close>

datatype node = Dir | File string

datatype os_err = NotExist | OsError go_error

datatype fs_call = CallStat | CallReadDir | CallMkdir | CallOpen | CallRead | CallWrite
  | CallRemove | CallRemoveAll | CallChmod

record os =
  tree :: "(string list \<times> node) list"
  io_fault :: "fs_call \<Rightarrow> string list \<Rightarrow> go_error option"

definition root_key :: "string list \<Rightarrow> bool" where
  "root_key k = (k = [] \<or> k = [[]])"

definition os_node :: "os \<Rightarrow> string list \<Rightarrow> node option" where
  "os_node s k = (if root_key k then Some Dir else map_of (tree s) k)"

definition put_node :: "string list \<Rightarrow> node \<Rightarrow> os \<Rightarrow> os" where
  "put_node k n s = s\<lparr>tree := AList.update k n (tree s)\<rparr>"

definition drop_nodes :: "(string list \<Rightarrow> bool) \<Rightarrow> os \<Rightarrow> os" where
  "drop_nodes P s = s\<lparr>tree := filter (\<lambda>(k, n). \<not> P k) (tree s)\<rparr>"

text \<open>Below a file there is nothing: the system answers ENOTDIR.\<close>

definition below_file :: "os \<Rightarrow> string list \<Rightarrow> bool" where
  "below_file s k = list_ex (\<lambda>i. case os_node s (take i k) of Some (File t) \<Rightarrow> True | _ \<Rightarrow> False)
     [1..<length k]"

definition resolve :: "os \<Rightarrow> fs_call \<Rightarrow> string list \<Rightarrow> os_err + node" where
  "resolve s call k =
     (case io_fault s call k of
        Some e \<Rightarrow> Inl (OsError e)
      | None \<Rightarrow> if below_file s k then Inl (OsError ''not a directory'')
               else (case os_node s k of None \<Rightarrow> Inl NotExist | Some n \<Rightarrow> Inr n))"

text \<open>The invariant of a file system: an entry lies in a directory.\<close>

definition tree_wf :: "os \<Rightarrow> bool" where
  "tree_wf s = list_all (\<lambda>k. \<not> root_key k \<and> os_node s (butlast k) = Some Dir) (map fst (tree s))"

section \<open>The calls\<close>

definition os_stat :: "os \<Rightarrow> string \<Rightarrow> os_err + node" where
  "os_stat s p = resolve s CallStat (path_key p)"

text \<open>\<open>os.ReadDir\<close>: the entries in the order of their names, each with \<open>IsDir\<close>.\<close>

definition dir_entries :: "os \<Rightarrow> string list \<Rightarrow> (string \<times> bool) list" where
  "dir_entries s k =
     map (\<lambda>n. (n, os_node s (k @ [n]) = Some Dir))
       (sort (remdups (map last (filter (\<lambda>k'. k' \<noteq> [] \<and> butlast k' = k) (map fst (tree s))))))"

definition os_read_dir :: "os \<Rightarrow> string \<Rightarrow> os_err + (string \<times> bool) list" where
  "os_read_dir s p =
     (case resolve s CallReadDir (path_key p) of
        Inl e \<Rightarrow> Inl e
      | Inr (File t) \<Rightarrow> Inl (OsError ''not a directory'')
      | Inr Dir \<Rightarrow> Inr (dir_entries s (path_key p)))"

text \<open>\<open>os.MkdirAll\<close> makes the missing directories of a path from the top down.\<close>

fun mkdirs :: "os \<Rightarrow> string list \<Rightarrow> string list \<Rightarrow> os_err option \<times> os" where
  "mkdirs s done [] = (None, s)"
| "mkdirs s done (c # cs) =
     (case os_node s (done @ [c]) of
        Some Dir \<Rightarrow> mkdirs s (done @ [c]) cs
      | Some (File t) \<Rightarrow> (Some (OsError ''not a directory''), s)
      | None \<Rightarrow>
          (case io_fault s CallMkdir (done @ [c]) of
             Some e \<Rightarrow> (Some (OsError e), s)
           | None \<Rightarrow> mkdirs (put_node (done @ [c]) Dir s) (done @ [c]) cs))"

definition os_mkdir_all :: "os \<Rightarrow> string \<Rightarrow> os_err option \<times> os" where
  "os_mkdir_all s p = mkdirs s [] (path_key p)"

text \<open>\<open>os.OpenFile\<close> with \<open>O_APPEND|O_WRONLY|O_CREATE\<close>.\<close>

definition os_open_append :: "os \<Rightarrow> string \<Rightarrow> os_err option \<times> os" where
  "os_open_append s p =
     (let k = path_key p
      in case io_fault s CallOpen k of
           Some e \<Rightarrow> (Some (OsError e), s)
         | None \<Rightarrow>
             if below_file s k then (Some (OsError ''not a directory''), s)
             else (case os_node s k of
                     Some Dir \<Rightarrow> (Some (OsError ''is a directory''), s)
                   | Some (File t) \<Rightarrow> (None, s)
                   | None \<Rightarrow> if os_node s (butlast k) = Some Dir then (None, put_node k (File []) s)
                            else (Some NotExist, s)))"

text \<open>\<open>WriteString\<close> on a file opened for appending.\<close>

definition os_write :: "os \<Rightarrow> string \<Rightarrow> string \<Rightarrow> os_err option \<times> os" where
  "os_write s p text =
     (let k = path_key p
      in case io_fault s CallWrite k of
           Some e \<Rightarrow> (Some (OsError e), s)
         | None \<Rightarrow>
             (case os_node s k of
                Some (File t) \<Rightarrow> (None, put_node k (File (t @ text)) s)
              | _ \<Rightarrow> (Some NotExist, s)))"

definition os_read_all :: "os \<Rightarrow> string \<Rightarrow> os_err + string" where
  "os_read_all s p =
     (case resolve s CallOpen (path_key p) of
        Inl e \<Rightarrow> Inl e
      | Inr n \<Rightarrow>
          (case io_fault s CallRead (path_key p) of
             Some e \<Rightarrow> Inl (OsError e)
           | None \<Rightarrow> (case n of Dir \<Rightarrow> Inl (OsError ''is a directory'') | File t \<Rightarrow> Inr t)))"

definition os_remove :: "os \<Rightarrow> string \<Rightarrow> os_err option \<times> os" where
  "os_remove s p =
     (case resolve s CallRemove (path_key p) of
        Inl e \<Rightarrow> (Some e, s)
      | Inr n \<Rightarrow>
          if n = Dir \<and> dir_entries s (path_key p) \<noteq> [] then (Some (OsError ''directory not empty''), s)
          else (None, drop_nodes (\<lambda>k. k = path_key p) s))"

definition below :: "string list \<Rightarrow> string list \<Rightarrow> bool" where
  "below d k = (take (length d) k = d)"

definition os_remove_all :: "os \<Rightarrow> string \<Rightarrow> os_err option \<times> os" where
  "os_remove_all s p =
     (case io_fault s CallRemoveAll (path_key p) of
        Some e \<Rightarrow> (Some (OsError e), s)
      | None \<Rightarrow> (None, drop_nodes (below (path_key p)) s))"

definition is_not_exist :: "os_err \<Rightarrow> bool" where
  "is_not_exist e = (e = NotExist)"

lemmas os_defs [go_defs] = root_key_def os_node_def put_node_def drop_nodes_def below_file_def
  resolve_def os_stat_def dir_entries_def os_read_dir_def os_mkdir_all_def os_open_append_def
  os_write_def os_read_all_def os_remove_def below_def os_remove_all_def is_not_exist_def

section \<open>Looking up after a call\<close>

lemma os_node_put [fs_simps]:
  "\<not> root_key k \<Longrightarrow> os_node (put_node k n s) k' = (if k' = k then Some n else os_node s k')"
  by (auto simp: os_node_def put_node_def)

lemma os_node_root [simp]: "root_key k \<Longrightarrow> os_node s k = Some Dir"
  by (simp add: os_node_def)

lemma os_node_drop [fs_simps]:
  "os_node (drop_nodes P s) k = (if \<not> root_key k \<and> P k then None else os_node s k)"
  using map_of_filter_key [of "\<lambda>k. \<not> P k" "tree s" k] by (auto simp: os_node_def drop_nodes_def)

lemma io_fault_put [simp]: "io_fault (put_node k n s) = io_fault s"
  by (simp add: put_node_def)

lemma io_fault_drop [simp]: "io_fault (drop_nodes P s) = io_fault s"
  by (simp add: drop_nodes_def)

lemma root_key_snoc: "root_key (k @ [c]) \<longleftrightarrow> k = [] \<and> c = []"
  by (auto simp: root_key_def append_eq_Cons_conv)

text \<open>
  What \<open>MkdirAll\<close> changes: positions on the way to the directory that held nothing hold
  directories afterwards. All of them do when it succeeds.
\<close>

lemma mkdirs_node:
  "mkdirs s pre cs = (r, s') \<Longrightarrow>
     os_node s' k = os_node s k \<or>
     os_node s k = None \<and> os_node s' k = Some Dir \<and> (\<exists>i. 0 < i \<and> i \<le> length cs \<and> k = pre @ take i cs)"
proof (induction s pre cs rule: mkdirs.induct)
  case (1 s pre)
  then show ?case by simp
next
  case (2 s pre c cs)
  have shift: "\<exists>j. 0 < j \<and> j \<le> length (c # cs) \<and> k = pre @ take j (c # cs)"
    if "0 < i" "i \<le> length cs" "k = (pre @ [c]) @ take i cs" for i
    using that by (intro exI [of _ "Suc i"]) auto
  show ?case
  proof (cases "os_node s (pre @ [c])")
    case None
    then have nr: "\<not> root_key (pre @ [c])" by (auto simp: os_node_def)
    show ?thesis
    proof (cases "io_fault s CallMkdir (pre @ [c])")
      case None
      with 2 \<open>os_node s (pre @ [c]) = None\<close>
      have IH: "os_node s' k = os_node (put_node (pre @ [c]) Dir s) k \<or>
        os_node (put_node (pre @ [c]) Dir s) k = None \<and> os_node s' k = Some Dir \<and>
        (\<exists>i. 0 < i \<and> i \<le> length cs \<and> k = (pre @ [c]) @ take i cs)"
        by simp
      have here: "\<exists>j. 0 < j \<and> j \<le> length (c # cs) \<and> pre @ [c] = pre @ take j (c # cs)"
        by (intro exI [of _ 1]) simp
      show ?thesis
      proof (cases "k = pre @ [c]")
        case True
        with IH here \<open>os_node s (pre @ [c]) = None\<close> nr show ?thesis by (auto simp: os_node_put)
      next
        case False
        with IH shift nr show ?thesis by (auto simp: os_node_put)
      qed
    qed (use 2 None in auto)
  next
    case (Some n)
    show ?thesis
    proof (cases n)
      case Dir
      with 2 Some have "os_node s' k = os_node s k \<or> os_node s k = None \<and> os_node s' k = Some Dir
        \<and> (\<exists>i. 0 < i \<and> i \<le> length cs \<and> k = (pre @ [c]) @ take i cs)"
        by simp
      with shift show ?thesis by blast
    qed (use 2 Some in auto)
  qed
qed

lemma mkdirs_fault: "mkdirs s pre cs = (r, s') \<Longrightarrow> io_fault s' = io_fault s"
  by (induction s pre cs rule: mkdirs.induct) (auto split: option.splits node.splits)

lemma mkdirs_keeps: "mkdirs s pre cs = (r, s') \<Longrightarrow> os_node s k = Some n \<Longrightarrow> os_node s' k = Some n"
  by (drule mkdirs_node [of _ _ _ _ _ k]) auto

lemma mkdirs_file: "mkdirs s pre cs = (r, s') \<Longrightarrow> os_node s' k = Some (File t) \<longleftrightarrow> os_node s k = Some (File t)"
  by (drule mkdirs_node [of _ _ _ _ _ k]) auto

lemma mkdirs_made:
  "mkdirs s pre cs = (None, s') \<Longrightarrow> 0 < i \<Longrightarrow> i \<le> length cs \<Longrightarrow> os_node s' (pre @ take i cs) = Some Dir"
proof (induction s pre cs arbitrary: i rule: mkdirs.induct)
  case (1 s pre)
  then show ?case by simp
next
  case (2 s pre c cs)
  let ?t = "if os_node s (pre @ [c]) = None then put_node (pre @ [c]) Dir s else s"
  have run: "mkdirs ?t (pre @ [c]) cs = (None, s')" "os_node ?t (pre @ [c]) = Some Dir"
    using "2.prems"(1) by (auto split: option.splits node.splits simp: os_node_def put_node_def)
  show ?case
  proof (cases "i = 1")
    case True
    with mkdirs_keeps [OF run] show ?thesis by simp
  next
    case False
    with "2.prems"(2,3) obtain j where j: "i = Suc j" "0 < j" "j \<le> length cs" by (cases i) auto
    then have "os_node s' ((pre @ [c]) @ take j cs) = Some Dir"
      using "2.IH" "2.prems"(1) by (auto split: option.splits node.splits)
    with j(1) show ?thesis by simp
  qed
qed

lemma mkdirs_ok:
  assumes "\<And>k. io_fault s CallMkdir k = None"
    and "\<And>i t. 0 < i \<Longrightarrow> i \<le> length cs \<Longrightarrow> os_node s (pre @ take i cs) \<noteq> Some (File t)"
  shows "fst (mkdirs s pre cs) = None"
  using assms
proof (induction s pre cs rule: mkdirs.induct)
  case (1 s pre)
  then show ?case by simp
next
  case (2 s pre c cs)
  have nf: "os_node s (pre @ [c]) \<noteq> Some (File t)" for t
    using "2.prems"(2) [of 1] by simp
  have rest: "os_node s ((pre @ [c]) @ take i cs) \<noteq> Some (File t)" if "0 < i" "i \<le> length cs" for i t
    using "2.prems"(2) [of "Suc i"] that by simp
  show ?case
  proof (cases "os_node s (pre @ [c])")
    case None
    then have "\<not> root_key (pre @ [c])" by (auto simp: os_node_def)
    then have "os_node (put_node (pre @ [c]) Dir s) ((pre @ [c]) @ take i cs) \<noteq> Some (File t)"
      if "0 < i" "i \<le> length cs" for i t
      using rest [OF that] by (simp add: os_node_put)
    with 2 None show ?thesis by simp
  next
    case (Some n)
    with nf have "n = Dir" by (cases n) auto
    with 2 Some rest show ?thesis by simp
  qed
qed

section \<open>Entries lie in directories\<close>

lemma tree_wf_iff:
  "tree_wf s \<longleftrightarrow> (\<forall>k n. map_of (tree s) k = Some n \<longrightarrow> \<not> root_key k \<and> os_node s (butlast k) = Some Dir)"
  unfolding tree_wf_def list_all_iff
  by (metis (no_types, lifting) dom_map_of_conv_image_fst domD domI list.set_map)

lemma tree_wf_node:
  assumes "tree_wf s" and "os_node s k \<noteq> None"
  shows "os_node s (butlast k) = Some Dir"
proof (cases "root_key k")
  case True
  then have "root_key (butlast k)" by (auto simp: root_key_def)
  then show ?thesis by simp
next
  case False
  with assms(2) obtain n where "map_of (tree s) k = Some n" by (auto simp: os_node_def)
  with assms(1) show ?thesis unfolding tree_wf_iff by blast
qed

lemma tree_wf_put:
  assumes wf: "tree_wf s" and nr: "\<not> root_key k" and parent: "os_node s (butlast k) = Some Dir"
    and kind: "n = Dir \<or> os_node s k \<noteq> Some Dir"
  shows "tree_wf (put_node k n s)"
  unfolding tree_wf_iff
proof (intro allI impI)
  fix k' n'
  assume "map_of (tree (put_node k n s)) k' = Some n'"
  then have k': "k' = k \<or> map_of (tree s) k' = Some n'"
    by (auto simp: put_node_def split: if_splits)
  then have nr': "\<not> root_key k'" using wf nr by (auto simp: tree_wf_iff)
  then have ne: "butlast k' \<noteq> k'" by (metis append_butlast_last_id not_Cons_self2 root_key_def self_append_conv)
  have old: "os_node s (butlast k') = Some Dir"
    using k' parent wf by (auto simp: tree_wf_iff)
  have "os_node (put_node k n s) (butlast k') = Some Dir"
  proof (cases "butlast k' = k")
    case True
    with old kind have "n = Dir" by auto
    with True nr show ?thesis by (simp add: os_node_put)
  next
    case False
    with old nr show ?thesis by (simp add: os_node_put)
  qed
  with nr' show "\<not> root_key k' \<and> os_node (put_node k n s) (butlast k') = Some Dir" by simp
qed

lemma tree_wf_mkdirs:
  "tree_wf s \<Longrightarrow> os_node s pre = Some Dir \<Longrightarrow> mkdirs s pre cs = (r, s') \<Longrightarrow> tree_wf s'"
proof (induction s pre cs rule: mkdirs.induct)
  case (1 s pre)
  then show ?case by simp
next
  case (2 s pre c cs)
  show ?case
  proof (cases "os_node s (pre @ [c])")
    case None
    then have nr: "\<not> root_key (pre @ [c])" by (auto simp: os_node_def)
    then have "tree_wf (put_node (pre @ [c]) Dir s)"
      using "2.prems"(1,2) by (intro tree_wf_put) auto
    with 2 None nr show ?thesis by (auto simp: os_node_put split: option.splits)
  next
    case (Some n)
    with 2 show ?thesis by (cases n) auto
  qed
qed

text \<open>Removing a position together with everything below it leaves a tree of that kind.\<close>

lemma tree_wf_drop_below: "tree_wf s \<Longrightarrow> tree_wf (drop_nodes (below d) s)"
  unfolding tree_wf_iff
proof (intro allI impI)
  fix k n
  assume wf: "\<forall>k n. map_of (tree s) k = Some n \<longrightarrow> \<not> root_key k \<and> os_node s (butlast k) = Some Dir"
    and "map_of (tree (drop_nodes (below d) s)) k = Some n"
  then have k: "map_of (tree s) k = Some n" "\<not> below d k"
    using map_of_filter_key [of "\<lambda>k. \<not> below d k" "tree s" k]
    by (auto simp: drop_nodes_def split: if_splits)
  have "\<not> below d (butlast k)"
  proof
    assume b: "below d (butlast k)"
    have "take (length d) (butlast k) = d" using b by (simp add: below_def)
    moreover from this have "length d \<le> length k - 1" by (metis length_butlast length_take min.cobounded1)
    ultimately have "take (length d) k = d" by (simp add: butlast_conv_take min_absorb1)
    with k(2) show False by (simp add: below_def)
  qed
  with wf k(1) show "\<not> root_key k \<and> os_node (drop_nodes (below d) s) (butlast k) = Some Dir"
    by (auto simp: os_node_drop)
qed

lemma tree_wf_drop_file:
  assumes wf: "tree_wf s" and nodir: "os_node s k \<noteq> Some Dir"
  shows "tree_wf (drop_nodes (\<lambda>k'. k' = k) s)"
  unfolding tree_wf_iff
proof (intro allI impI)
  fix k' n
  assume "map_of (tree (drop_nodes (\<lambda>k'. k' = k) s)) k' = Some n"
  then have "map_of (tree s) k' = Some n"
    using map_of_filter_key [of "\<lambda>k'. k' \<noteq> k" "tree s" k'] by (auto simp: drop_nodes_def split: if_splits)
  with wf have k': "\<not> root_key k'" "os_node s (butlast k') = Some Dir" by (auto simp: tree_wf_iff)
  with nodir have "butlast k' \<noteq> k" by auto
  with k' show "\<not> root_key k' \<and> os_node (drop_nodes (\<lambda>k'. k' = k) s) (butlast k') = Some Dir"
    by (simp add: os_node_drop)
qed

text \<open>In such a tree nothing lies below a file, so every prefix of an entry is a directory.\<close>

lemma tree_wf_prefix:
  assumes "tree_wf s" and "os_node s k \<noteq> None" and "i < length k"
  shows "os_node s (take i k) = Some Dir"
  using assms(2,3)
proof (induction "length k - i" arbitrary: i)
  case 0
  then show ?case by simp
next
  case (Suc m)
  have b: "butlast (take (Suc i) k) = take i k"
    using Suc.prems(2) by (simp add: butlast_take)
  have "os_node s (take (Suc i) k) \<noteq> None"
  proof (cases "Suc i = length k")
    case True
    with Suc.prems(1) show ?thesis by simp
  next
    case False
    with Suc.hyps Suc.prems show ?thesis by simp
  qed
  with tree_wf_node [OF assms(1)] b show ?case by metis
qed

lemma tree_wf_not_below_file: "tree_wf s \<Longrightarrow> os_node s k \<noteq> None \<Longrightarrow> \<not> below_file s k"
  by (auto simp: below_file_def list_ex_iff tree_wf_prefix)

section \<open>Calls that are not refused\<close>

definition no_faults :: "os \<Rightarrow> bool" where
  "no_faults s = (io_fault s = (\<lambda>call k. None))"

lemma no_faults_simps [simp]: "no_faults s \<Longrightarrow> io_fault s call k = None"
  "no_faults (put_node k n s) = no_faults s" "no_faults (drop_nodes P s) = no_faults s"
  by (simp_all add: no_faults_def)

definition file_text :: "os \<Rightarrow> string list \<Rightarrow> string" where
  "file_text s k = (case os_node s k of Some (File t) \<Rightarrow> t | _ \<Rightarrow> [])"

text \<open>Only the missing directories on the way to a position have been made.\<close>

definition made_dirs :: "string list \<Rightarrow> os \<Rightarrow> os \<Rightarrow> bool" where
  "made_dirs ks s s' =
     (\<forall>k. os_node s' k = os_node s k
        \<or> os_node s k = None \<and> os_node s' k = Some Dir \<and> (\<exists>i. 0 < i \<and> i \<le> length ks \<and> k = take i ks))"

lemma made_dirsD:
  assumes "made_dirs ks s s'"
  shows "os_node s' k = os_node s k
    \<or> os_node s k = None \<and> os_node s' k = Some Dir \<and> (\<exists>i. 0 < i \<and> i \<le> length ks \<and> k = take i ks)"
  using assms by (simp add: made_dirs_def)

lemma made_dirs_file: "made_dirs ks s s' \<Longrightarrow> os_node s' k = Some (File t) \<longleftrightarrow> os_node s k = Some (File t)"
  by (drule made_dirsD [of _ _ _ k]) auto

lemma made_dirs_text: "made_dirs ks s s' \<Longrightarrow> file_text s' k = file_text s k"
  by (drule made_dirsD [of _ _ _ k]) (auto simp: file_text_def)

lemma made_dirs_other: "made_dirs ks s s' \<Longrightarrow> length ks < length k \<Longrightarrow> os_node s' k = os_node s k"
  by (drule made_dirsD [of _ _ _ k]) auto

lemma tree_wf_no_file_above:
  assumes "tree_wf s" and "os_node s ks = Some Dir"
  shows "os_node s (take i ks) \<noteq> Some (File t)"
  using tree_wf_prefix [of s ks i] assms by (cases "i < length ks") auto

lemma os_mkdir_all_ok:
  assumes "no_faults s" and "\<And>i t. os_node s (take i (path_key d)) \<noteq> Some (File t)"
  obtains s' where "os_mkdir_all s d = (None, s')" "made_dirs (path_key d) s s'" "no_faults s'"
    "tree_wf s \<Longrightarrow> tree_wf s'" "os_node s' (path_key d) = Some Dir"
proof -
  obtain r s' where run: "mkdirs s [] (path_key d) = (r, s')" by (cases "mkdirs s [] (path_key d)")
  have "r = None" using mkdirs_ok [of s "path_key d" "[]"] run assms by simp
  with run have run: "mkdirs s [] (path_key d) = (None, s')" by simp
  have "os_node s' (path_key d) = Some Dir"
  proof (cases "path_key d = []")
    case True
    then show ?thesis by (simp add: root_key_def)
  next
    case False
    then show ?thesis using mkdirs_made [OF run, of "length (path_key d)"] by simp
  qed
  moreover have "made_dirs (path_key d) s s'"
    unfolding made_dirs_def using mkdirs_node [OF run] by simp
  moreover have "no_faults s'" using mkdirs_fault [OF run] assms(1) by (simp add: no_faults_def)
  moreover have "tree_wf s \<Longrightarrow> tree_wf s'" using tree_wf_mkdirs [OF _ _ run] by (simp add: root_key_def)
  ultimately show ?thesis using that run by (simp add: os_mkdir_all_def)
qed

lemma not_below_file_in_dir:
  assumes "tree_wf s" and "os_node s (butlast k) = Some Dir"
  shows "\<not> below_file s k"
proof -
  have "os_node s (take i k) \<noteq> Some (File t)" if "i < length k" for i t
  proof -
    have "take i k = take i (butlast k)" using that by (auto simp: butlast_conv_take min_def)
    then show ?thesis using tree_wf_no_file_above [OF assms, of i t] by simp
  qed
  then show ?thesis by (auto simp: below_file_def list_ex_iff split: option.splits node.splits)
qed

lemma os_open_append_ok:
  assumes "no_faults s" "tree_wf s" and "os_node s (butlast (path_key p)) = Some Dir"
    and "os_node s (path_key p) \<noteq> Some Dir"
  shows "os_open_append s p =
    (None, if os_node s (path_key p) = None then put_node (path_key p) (File []) s else s)"
  using assms not_below_file_in_dir [of s "path_key p"]
  by (auto simp: os_open_append_def Let_def split: option.split node.split)

lemma os_write_ok:
  assumes "no_faults s" and "os_node s (path_key p) = Some (File t)"
  shows "os_write s p text = (None, put_node (path_key p) (File (t @ text)) s)"
  using assms by (simp add: os_write_def Let_def)

lemma os_stat_ok:
  assumes "no_faults s" "tree_wf s"
  shows "os_stat s p = (case os_node s (path_key p) of None \<Rightarrow>
      if below_file s (path_key p) then Inl (OsError ''not a directory'') else Inl NotExist
    | Some n \<Rightarrow> Inr n)"
  using assms tree_wf_not_below_file [of s "path_key p"]
  by (auto simp: os_stat_def resolve_def split: option.split)

lemma os_read_all_ok:
  assumes "no_faults s" "tree_wf s" and "os_node s (path_key p) = Some (File t)"
  shows "os_read_all s p = Inr t"
  using assms tree_wf_not_below_file [of s "path_key p"]
  by (simp add: os_read_all_def resolve_def)

lemma os_read_all_missing:
  assumes "no_faults s" "tree_wf s" and "os_node s (butlast (path_key p)) = Some Dir"
    and "os_node s (path_key p) = None"
  shows "os_read_all s p = Inl NotExist"
  using assms not_below_file_in_dir [of s "path_key p"]
  by (simp add: os_read_all_def resolve_def)

text \<open>Removing a file, or one that is not there.\<close>

lemma os_remove_file_ok:
  assumes "no_faults s" "tree_wf s" and "os_node s (butlast (path_key p)) = Some Dir"
    and "os_node s (path_key p) \<noteq> Some Dir"
  shows "os_remove s p = (if os_node s (path_key p) = None then (Some NotExist, s)
    else (None, drop_nodes (\<lambda>k. k = path_key p) s))"
  using assms not_below_file_in_dir [of s "path_key p"]
  by (auto simp: os_remove_def resolve_def split: option.split node.split)

lemma os_remove_all_ok: "no_faults s \<Longrightarrow> os_remove_all s p = (None, drop_nodes (below (path_key p)) s)"
  by (simp add: os_remove_all_def)

end
