(* ===== verification/Compression.thy ===== *)
theory Compression
  imports Go_Strings
begin

text \<open>
  The compression of archives (\<open>backup/compression.go\<close> and its three factories). A writer is given by
  the bytes it sends to the file when all the content is written to it, and when it is closed; those
  of \<open>compress/gzip\<close> and \<open>zstd\<close>, by level, are arguments. The constants of those packages are written
  out as the numbers they stand for.
\<close>

section \<open>backup/compression.go\<close>

abbreviation none_compression :: string where "none_compression \<equiv> ''NONE''"
abbreviation gzip_compression :: string where "gzip_compression \<equiv> ''GZIP''"
abbreviation zstandard_compression :: string where "zstandard_compression \<equiv> ''Zstandard''"

abbreviation no_level :: string where "no_level \<equiv> ''No''"
abbreviation best_speed_level :: string where "best_speed_level \<equiv> ''BestSpeed''"
abbreviation default_level :: string where "default_level \<equiv> ''Default''"
abbreviation best_compression_level :: string where "best_compression_level \<equiv> ''BestCompression''"
abbreviation huffman_only_level :: string where "huffman_only_level \<equiv> ''HuffmanOnly''"

datatype compression_factory = NoneFactory | GzipFactory string | ZstdFactory string

definition new_compression_writer_factory :: "bool \<Rightarrow> string \<Rightarrow> string \<Rightarrow> compression_factory" where
  "new_compression_writer_factory enabled compression level =
     (if \<not> enabled then NoneFactory
      else if compression = gzip_compression then GzipFactory level
      else if compression = zstandard_compression then ZstdFactory level
      else if compression = none_compression then NoneFactory
      else NoneFactory)"

section \<open>The three factories\<close>

record writer =
  on_write :: "string \<Rightarrow> string"
  on_close :: "string \<Rightarrow> string"

text \<open>\<open>gzip.NoCompression\<close> 0, \<open>BestSpeed\<close> 1, \<open>BestCompression\<close> 9, \<open>DefaultCompression\<close> -1, \<open>HuffmanOnly\<close> -2.\<close>

definition gzip_make_level :: "string \<Rightarrow> int" where
  "gzip_make_level level =
     (if level = no_level then 0
      else if level = huffman_only_level then -2
      else if level = best_speed_level then 1
      else if level = best_compression_level then 9
      else if level = default_level then -1
      else -1)"

text \<open>\<open>zstd.SpeedFastest\<close> 1, \<open>SpeedDefault\<close> 2, \<open>SpeedBetterCompression\<close> 3, \<open>SpeedBestCompression\<close> 4.\<close>

definition zstd_make_level :: "string \<Rightarrow> int" where
  "zstd_make_level level =
     (if level = no_level then 1
      else if level = best_speed_level then 3
      else if level = best_compression_level then 4
      else if level = huffman_only_level then 2
      else if level = default_level then 2
      else 2)"

text \<open>\<open>gzip.NewWriterLevel\<close> refuses a level out of its range.\<close>

definition gzip_new_writer_level :: "(int \<Rightarrow> writer) \<Rightarrow> int \<Rightarrow> go_error + writer" where
  "gzip_new_writer_level gz level =
     (if level < -2 \<or> 9 < level then Inl ''gzip: invalid compression level'' else Inr (gz level))"

definition writer_wrapper :: writer where
  "writer_wrapper = \<lparr>on_write = (\<lambda>p. p), on_close = (\<lambda>p. [])\<rparr>"

fun factory_create :: "(int \<Rightarrow> writer) \<Rightarrow> (int \<Rightarrow> go_error + writer) \<Rightarrow> compression_factory
    \<Rightarrow> go_error + writer" where
  "factory_create gz zs NoneFactory = Inr writer_wrapper"
| "factory_create gz zs (GzipFactory level) = gzip_new_writer_level gz (gzip_make_level level)"
| "factory_create gz zs (ZstdFactory level) = zs (zstd_make_level level)"

fun factory_filename :: "compression_factory \<Rightarrow> string \<Rightarrow> string" where
  "factory_filename NoneFactory originalFilename = originalFilename"
| "factory_filename (GzipFactory level) originalFilename = originalFilename @ ''.gz''"
| "factory_filename (ZstdFactory level) originalFilename = originalFilename @ ''.zst''"

lemmas compression_defs [go_defs] = new_compression_writer_factory_def gzip_make_level_def
  zstd_make_level_def gzip_new_writer_level_def writer_wrapper_def

section \<open>The contract of a factory\<close>

text \<open>
  What the archiver relies on: a factory only appends to the name of a file, always the same text,
  which stays within the file's directory.
\<close>

locale filename_contract =
  fixes filename :: "string \<Rightarrow> string" and ext :: string
  assumes extends: "filename name = name @ ext"
    and same_dir: "CHR ''/'' \<notin> set ext"
begin

lemma filename_inject: "filename a = filename b \<longleftrightarrow> a = b"
  by (simp add: extends)

lemma filename_slash: "CHR ''/'' \<in> set (filename a) \<longleftrightarrow> CHR ''/'' \<in> set a"
  using same_dir by (auto simp: extends)

end

fun factory_ext :: "compression_factory \<Rightarrow> string" where
  "factory_ext NoneFactory = []"
| "factory_ext (GzipFactory level) = ''.gz''"
| "factory_ext (ZstdFactory level) = ''.zst''"

interpretation fn: filename_contract "factory_filename f" "factory_ext f" for f
  by unfold_locales (cases f; simp)+

section \<open>Creating a writer\<close>

text \<open>
  the factory of a configuration never fails to create a writer because of the level's name:
  every name stands for a level its package accepts.
\<close>

theorem factory_create_ok:
  assumes "\<And>l. 1 \<le> l \<Longrightarrow> l \<le> 4 \<Longrightarrow> \<exists>w. zs l = Inr w"
  shows "\<exists>w. factory_create gz zs (new_compression_writer_factory enabled compression level) = Inr w"
  using assms
  by (auto simp: new_compression_writer_factory_def gzip_new_writer_level_def gzip_make_level_def
      zstd_make_level_def)

lemma factory_create_ok_witness:
  "\<exists>w. factory_create (\<lambda>l. writer_wrapper)
     (\<lambda>l. if 1 \<le> l \<and> l \<le> 4 then Inr writer_wrapper else Inl ''unknown encoder level'')
     (new_compression_writer_factory True ''Zstandard'' ''BestSpeed'') = Inr w"
  by (rule factory_create_ok) auto

end
