(* ===== verification/Backup_Files.thy ===== *)
theory Backup_Files
  imports Types Go_Json Go_Os Compression
begin

text \<open>
  \<open>backup/backup.go\<close>: grouping a batch of requests by host, and writing files. \<open>time.Now()\<close> is an
  argument, and so is the order in which Go goes through a map. \<open>closed\<close> says of each file whether
  the goroutine that closes it runs before the write.
\<close>

section \<open>Grouping a batch\<close>

text \<open>
  An item of a batch is an \<open>any\<close>: it is archived when it is a \<open>url.Values\<close> and skipped otherwise.
  Lines are grouped in a map from hosts to text.
\<close>

datatype param = Values url_values | OtherParam

type_synonym backup_list = "(string \<times> string) list"

definition make_key_hostname :: "url_values \<Rightarrow> string run" where
  "make_key_hostname v =
     (case url_parse (values_get v ''u'') of
        Inl parseErr \<Rightarrow> Panic ''nil pointer dereference''
      | Inr urlValue \<Rightarrow> Value (replace_char CHR ''.'' CHR ''_'' (url_hostname urlValue)))"

definition flatten_map :: "url_values \<Rightarrow> (string \<times> string) list" where
  "flatten_map v = map (\<lambda>(k, vs). (k, values_get v k)) v"

definition to_json :: "(string \<times> string) list \<Rightarrow> string" where
  "to_json flatten = marshal_flat flatten"

definition make_value :: "url_values \<Rightarrow> string" where
  "make_value v = to_json (flatten_map v)"

definition append_line :: "backup_list \<Rightarrow> string \<Rightarrow> string \<Rightarrow> backup_list" where
  "append_line m key value =
     (let m = (if map_of m key = None then AList.update key [] m else m)
      in AList.update key (the (map_of m key) @ value @ [newline]) m)"

definition backup_item :: "backup_list \<Rightarrow> param \<Rightarrow> backup_list run" where
  "backup_item backupsList p =
     (case p of
        OtherParam \<Rightarrow> Value backupsList
      | Values v \<Rightarrow> run_bind (make_key_hostname v)
          (\<lambda>key. Value (append_line backupsList key (make_value v))))"

fun backup_items :: "backup_list \<Rightarrow> param list \<Rightarrow> backup_list run" where
  "backup_items backupsList [] = Value backupsList"
| "backup_items backupsList (p # ps) = run_bind (backup_item backupsList p) (\<lambda>m. backup_items m ps)"

definition make_backup_list :: "param list \<Rightarrow> backup_list run" where
  "make_backup_list params = backup_items [] params"

section \<open>Paths\<close>

definition date_utc :: "time \<Rightarrow> string" where
  "date_utc now =
     (case civil_of_days (time_days now) of
        (year, month, day) \<Rightarrow> itoa year @ ''-'' @ itoa month @ ''-'' @ itoa day)"

definition hour_utc :: "time \<Rightarrow> string" where
  "hour_utc now = itoa (time_hour_of now)"

definition make_hour_path :: "string \<Rightarrow> time \<Rightarrow> string" where
  "make_hour_path parent now = path_join [parent, hour_utc now @ ''.json.lines'']"

definition make_day_path :: "string \<Rightarrow> string \<Rightarrow> time \<Rightarrow> string" where
  "make_day_path backupRootDir host now = path_join [backupRootDir, host, date_utc now]"

definition make_archive_day_path :: "string \<Rightarrow> string \<Rightarrow> time \<Rightarrow> string" where
  "make_archive_day_path backupRootDir host now =
     path_join [backupRootDir, host, date_utc now @ ''.json.lines'']"

definition make_archive_day_meta_path :: "string \<Rightarrow> string \<Rightarrow> time \<Rightarrow> string" where
  "make_archive_day_meta_path backupRootDir host now =
     path_join [backupRootDir, host, date_utc now @ ''-parts-meta.txt'']"

definition make_file_path :: "time \<Rightarrow> string \<Rightarrow> string \<Rightarrow> string" where
  "make_file_path now backupRootDir host =
     make_hour_path (make_day_path backupRootDir host now) now"

section \<open>Appending to a file\<close>

text \<open>
  Errors of \<open>MkdirAll\<close> are logged and \<open>OpenFile\<close> is tried all the same. The result tells whether a
  file was opened; the methods of a nil \<open>*os.File\<close> return an error.
\<close>

definition open_or_create_file_for_append :: "string \<Rightarrow> os \<Rightarrow> bool \<times> os" where
  "open_or_create_file_for_append filename s =
     (let (mkdirErr, s) = os_mkdir_all s (path_dir filename);
          (err, s) = os_open_append s filename
      in (err = None, s))"

definition append_to_file :: "bool \<Rightarrow> string \<Rightarrow> string \<Rightarrow> os \<Rightarrow> os_err option \<times> os" where
  "append_to_file closed filename lines s =
     (let (opened, s) = open_or_create_file_for_append filename s
      in if \<not> opened then (Some (OsError ''invalid argument''), s)
         else if closed then (Some (OsError ''file already closed''), s)
         else os_write s filename lines)"

definition save_lines_to_file :: "time \<Rightarrow> bool \<Rightarrow> string \<Rightarrow> string \<Rightarrow> string \<Rightarrow> os \<Rightarrow> os" where
  "save_lines_to_file now closed backupRootDir host lines s =
     (let (err, s) = append_to_file closed (make_file_path now backupRootDir host) lines s in s)"

text \<open>The entries of the map in the order \<open>hosts\<close> that Go picks.\<close>

definition save_backup_list :: "(string \<Rightarrow> time) \<Rightarrow> (string \<Rightarrow> bool) \<Rightarrow> string list \<Rightarrow> backup_list
    \<Rightarrow> string \<Rightarrow> os \<Rightarrow> os" where
  "save_backup_list now closed hosts backupsList backupRootDir s =
     fold (\<lambda>host. save_lines_to_file (now host) (closed host) backupRootDir host
        (the (map_of backupsList host))) hosts s"

definition backup_do :: "(string \<Rightarrow> time) \<Rightarrow> (string \<Rightarrow> bool) \<Rightarrow> (backup_list \<Rightarrow> string list)
    \<Rightarrow> param list \<Rightarrow> string \<Rightarrow> os \<Rightarrow> os run" where
  "backup_do now closed order params backupRootDir s =
     run_bind (make_backup_list params)
       (\<lambda>backupsList. Value (save_backup_list now closed (order backupsList) backupsList backupRootDir s))"

section \<open>Writing a file anew\<close>

definition open_file :: "string \<Rightarrow> os \<Rightarrow> os_err option \<times> os" where
  "open_file filename s =
     (case os_mkdir_all s (path_dir filename) of
        (Some err, s) \<Rightarrow> (Some err, s)
      | (None, s) \<Rightarrow>
          (case os_remove s filename of
             (Some err, s) \<Rightarrow> if \<not> is_not_exist err then (Some err, s) else os_open_append s filename
           | (None, s) \<Rightarrow> os_open_append s filename))"

text \<open>
  The compressor's writes go to the open file; when the one of \<open>Write\<close> fails, closing the compressor
  writes nothing more. An error of the last write, on closing, is only logged.
\<close>

definition write_to_file :: "(compression_factory \<Rightarrow> go_error + writer) \<Rightarrow> string \<Rightarrow> string
    \<Rightarrow> compression_factory \<Rightarrow> os \<Rightarrow> os_err option \<times> os" where
  "write_to_file create filename lines factory s =
     (let name = factory_filename factory filename
      in case open_file name s of
           (Some err, s) \<Rightarrow> (Some err, s)
         | (None, s) \<Rightarrow>
             (case create factory of
                Inl err \<Rightarrow> (Some (OsError err), s)
              | Inr w \<Rightarrow>
                  (case os_write s name (on_write w lines) of
                     (Some err, s) \<Rightarrow> (Some err, s)
                   | (None, s) \<Rightarrow>
                       (let (closeErr, s) = os_write s name (on_close w lines) in (None, s)))))"

lemmas backup_path_defs = date_utc_def hour_utc_def make_hour_path_def make_day_path_def
  make_archive_day_path_def make_archive_day_meta_path_def make_file_path_def

lemmas backup_file_defs [go_defs] = make_key_hostname_def flatten_map_def to_json_def
  make_value_def append_line_def backup_item_def make_backup_list_def
  open_or_create_file_for_append_def append_to_file_def save_lines_to_file_def
  save_backup_list_def backup_do_def open_file_def write_to_file_def

section \<open>Where the files are\<close>

lemma plain_nameI: "CHR ''/'' \<notin> set p \<Longrightarrow> 2 < length p \<Longrightarrow> plain_name p"
  by (auto simp: plain_name_def)

lemma plain_name_undotted: "CHR ''/'' \<notin> set p \<Longrightarrow> CHR ''.'' \<notin> set p \<Longrightarrow> p \<noteq> [] \<Longrightarrow> plain_name p"
  by (auto simp: plain_name_def)

lemma make_key_hostname_name:
  assumes "make_key_hostname v = Value k"
  shows "name_part k" and "CHR ''.'' \<notin> set k"
proof -
  obtain h where h: "url_parse (values_get v ''u'') = Inr h"
    "k = replace_char CHR ''.'' CHR ''_'' (url_hostname h)"
    using assms by (auto simp: make_key_hostname_def split: sum.splits)
  show dot: "CHR ''.'' \<notin> set k" unfolding h(2) by (rule set_replace_char) simp
  have "CHR ''/'' \<notin> set (url_hostname h)" using hostname_bytes [OF h(1)] by (auto dest: chars)
  then have "CHR ''/'' \<notin> set k"
    using set_replace_char_subset [of "CHR ''.''" "CHR ''_''" "url_hostname h"] h(2) by auto
  with dot show "name_part k" using plain_name_undotted [of k] by (auto simp: name_part_def)
qed

lemma itoa_chars: "c \<in> set (itoa i) \<Longrightarrow> is_digit c \<or> c = CHR ''-''"
  by (auto simp: itoa_def dest: itoa_nat_digits split: if_splits)

lemma itoa_free: "CHR ''/'' \<notin> set (itoa i)" "CHR ''.'' \<notin> set (itoa i)"
  by (auto dest!: itoa_chars simp: is_digit_def)

lemma itoa_nonempty: "itoa i \<noteq> []"
  by (simp add: itoa_def)

lemma date_utc_free: "CHR ''/'' \<notin> set (date_utc t)" "CHR ''.'' \<notin> set (date_utc t)"
  using itoa_free by (auto simp: date_utc_def split: prod.splits)

lemma date_utc_length: "2 < length (date_utc t)"
proof -
  have "0 < length (itoa i)" for i using itoa_nonempty by simp
  then show ?thesis by (simp add: date_utc_def add_pos_pos split: prod.split)
qed

lemma date_utc_ext: "CHR ''/'' \<notin> set e \<Longrightarrow> plain_name (date_utc t @ e)"
  using date_utc_length [of t] date_utc_free [of t] by (intro plain_nameI) auto

lemma hour_utc_ext: "plain_name (hour_utc t @ ''.json.lines'')"
  using itoa_free by (intro plain_nameI) (auto simp: hour_utc_def)

text \<open>The directory of a host's day below the backup directory, and the files of an hour and a day.\<close>

definition day_key :: "string \<Rightarrow> string \<Rightarrow> time \<Rightarrow> string list" where
  "day_key root host t = path_key root @ (if host = [] then [] else [host]) @ [date_utc t]"

definition hour_name :: "time \<Rightarrow> string" where
  "hour_name t = hour_utc t @ ''.json.lines''"

definition hour_key :: "string \<Rightarrow> string \<Rightarrow> time \<Rightarrow> string list" where
  "hour_key root host t = day_key root host t @ [hour_name t]"

definition host_key :: "string \<Rightarrow> string \<Rightarrow> string list" where
  "host_key root host = path_key root @ (if host = [] then [] else [host])"

lemma day_key_host: "day_key root host t = host_key root host @ [date_utc t]"
  by (simp add: day_key_def host_key_def)

lemma path_key_day [fs_simps]:
  assumes "name_part host"
  shows "path_key (make_day_path root host t) = day_key root host t"
proof -
  have "name_part p" if "p \<in> set [host, date_utc t]" for p
    using that assms date_utc_ext [of "[]" t] by (auto simp: name_part_def)
  then have "path_key (path_join (root # [host, date_utc t]))
      = path_key root @ filter (\<lambda>p. p \<noteq> []) [host, date_utc t]"
    by (rule path_key_join)
  moreover have "date_utc t \<noteq> []" using date_utc_length [of t] by auto
  ultimately show ?thesis by (simp add: make_day_path_def day_key_def)
qed

lemma path_key_hour [fs_simps]:
  "path_key (make_hour_path parent t) = path_key parent @ [hour_name t]"
  "path_key (path_dir (make_hour_path parent t)) = path_key parent"
  using path_join_file [of "[]" "hour_utc t @ ''.json.lines''" "[]" parent] hour_utc_ext [of t]
  by (simp_all add: make_hour_path_def hour_name_def)

lemma path_key_file [fs_simps]:
  assumes "name_part host"
  shows "path_key (make_file_path t root host) = hour_key root host t"
    and "path_key (path_dir (make_file_path t root host)) = day_key root host t"
  using assms by (simp_all add: make_file_path_def path_key_hour path_key_day hour_key_def)

text \<open>Files of different hosts are different files.\<close>

lemma hour_key_host:
  assumes "hour_key root host t = hour_key root host' t'"
  shows "host = host'"
  using assms by (auto simp: hour_key_def day_key_def split: if_splits)

section \<open>What a batch is grouped into\<close>

text \<open>The lines of a host, as a specification: one record per request of the host, in order.\<close>

fun param_host :: "param \<Rightarrow> string option" where
  "param_host OtherParam = None"
| "param_host (Values v) = (case make_key_hostname v of Value k \<Rightarrow> Some k | Panic m \<Rightarrow> None)"

fun param_record :: "param \<Rightarrow> string" where
  "param_record OtherParam = []"
| "param_record (Values v) = make_value v @ [newline]"

definition of_host :: "param list \<Rightarrow> string \<Rightarrow> param list" where
  "of_host params host = filter (\<lambda>p. param_host p = Some host) params"

definition host_lines :: "param list \<Rightarrow> string \<Rightarrow> string" where
  "host_lines params host = concat (map param_record (of_host params host))"

definition params_ok :: "param list \<Rightarrow> bool" where
  "params_ok params = list_all (\<lambda>p. case p of OtherParam \<Rightarrow> True
     | Values v \<Rightarrow> \<not> panics (make_key_hostname v)) params"

lemma append_line_lookup:
  "map_of (append_line m key value) h =
     (if h = key then Some ((case map_of m key of None \<Rightarrow> [] | Some t \<Rightarrow> t) @ value @ [newline])
      else map_of m h)"
  by (auto simp: append_line_def Let_def split: option.split)

lemma backup_item_lookup:
  assumes "backup_item m p = Value m'"
  shows "map_of m' h =
    (if param_host p = Some h then Some ((case map_of m h of None \<Rightarrow> [] | Some t \<Rightarrow> t) @ param_record p)
     else map_of m h)"
  using assms
  by (cases p) (auto simp: backup_item_def append_line_lookup run_bind_Value_iff)

lemma backup_items_lookup:
  "backup_items m ps = Value m' \<Longrightarrow>
     map_of m' h = (if of_host ps h = [] then map_of m h
       else Some ((case map_of m h of None \<Rightarrow> [] | Some t \<Rightarrow> t) @ host_lines ps h))"
proof (induction ps arbitrary: m)
  case Nil
  then show ?case by (simp add: of_host_def)
next
  case (Cons p ps)
  then obtain m1 where m1: "backup_item m p = Value m1" "backup_items m1 ps = Value m'"
    by (auto simp: run_bind_Value_iff)
  from Cons.IH [OF m1(2)] backup_item_lookup [OF m1(1), of h] show ?case
    by (auto simp: of_host_def host_lines_def split: option.split)
qed

lemma backup_items_ok: "\<not> panics (backup_items m ps) \<longleftrightarrow> params_ok ps"
proof (induction ps arbitrary: m)
  case (Cons p ps)
  show ?case
  proof (cases p)
    case (Values v)
    with Cons show ?thesis
      by (cases "make_key_hostname v") (simp_all add: params_ok_def backup_item_def)
  qed (use Cons in \<open>simp add: params_ok_def backup_item_def\<close>)
qed (simp add: params_ok_def)

lemma make_backup_list_lookup:
  "if params_ok params
   then \<exists>m. make_backup_list params = Value m \<and>
     (\<forall>h. map_of m h = (if of_host params h = [] then None else Some (host_lines params h)))
   else panics (make_backup_list params)"
proof (cases "params_ok params")
  case True
  then have "\<not> panics (backup_items [] params)" by (simp add: backup_items_ok)
  then obtain m where m: "backup_items [] params = Value m" by (auto simp: not_panics_iff)
  with backup_items_lookup [OF m] True show ?thesis by (simp add: make_backup_list_def)
next
  case False
  then show ?thesis using backup_items_ok [of "[]" params] by (simp add: make_backup_list_def)
qed

text \<open>
  grouping a batch fails only for a request whose \<open>u\<close> is no URL. Otherwise a host is in the map
  when a request of the batch is of that host, with the records of its requests in their order.
\<close>

theorem make_backup_list_spec:
  "if params_ok params
   then \<exists>m. make_backup_list params = Value m \<and>
     (\<forall>h. map_of m h = (if of_host params h = [] then None else Some (host_lines params h)))
   else panics (make_backup_list params)"
  by (rule make_backup_list_lookup)

lemma host_lines_count: "lines_of (host_lines params host) = length (of_host params host)"
proof -
  have "lines_of (param_record p) = 1" if "param_host p = Some host" for p
    using that marshal_flat_no_newline
    by (cases p) (auto simp: make_value_def to_json_def count_list_zero_iff)
  then show ?thesis
    by (simp add: host_lines_def count_list_concat of_host_def comp_def map_idI
        sum_list_triv cong: map_cong)
      (induction params; simp)
qed

text \<open>each archived request is exactly one line of its host's text.\<close>

theorem backup_list_one_line_each:
  assumes "make_backup_list params = Value m" and "map_of m host = Some text"
  shows "lines_of text = length (of_host params host)"
  using make_backup_list_lookup [of params] assms host_lines_count
  by (auto split: if_splits)

lemma backup_list_one_line_each_witness:
  "lines_of (CHR ''{'' # CHR 0x22 # ''u'' @ [CHR 0x22, CHR '':'', CHR 0x22] @ ''//a.b'' @ [CHR 0x22, CHR ''}'', newline])
    = length (of_host [Values [(''u'', [''//a.b''])], OtherParam] ''a_b'')"
proof (rule backup_list_one_line_each)
  show "make_backup_list [Values [(''u'', [''//a.b''])], OtherParam] =
      Value [(''a_b'', CHR ''{'' # CHR 0x22 # ''u'' @ [CHR 0x22, CHR '':'', CHR 0x22] @ ''//a.b''
        @ [CHR 0x22, CHR ''}'', newline])]"
    by code_simp
qed simp

section \<open>Appending the lines of the hosts\<close>

text \<open>
  The layout of a backup directory: below it, the names of files have a dot and those of directories
  have none. Every operation of the backup keeps it.
\<close>

definition backup_layout :: "string \<Rightarrow> os \<Rightarrow> bool" where
  "backup_layout root s =
     (tree_wf s \<and> os_node s (path_key root) = Some Dir \<and>
      list_all (\<lambda>k. below (path_key root) k \<longrightarrow> k \<noteq> path_key root \<longrightarrow>
        (os_node s k = Some Dir \<longleftrightarrow> CHR ''.'' \<notin> set (last k))) (map fst (tree s)))"

lemma backup_layout_iff:
  "backup_layout root s \<longleftrightarrow> tree_wf s \<and> os_node s (path_key root) = Some Dir \<and>
     (\<forall>ks n. ks \<noteq> [] \<longrightarrow> os_node s (path_key root @ ks) = Some n \<longrightarrow> \<not> root_key (path_key root @ ks) \<longrightarrow>
        (n = Dir \<longleftrightarrow> CHR ''.'' \<notin> set (last ks)))"
  (is "_ \<longleftrightarrow> _ \<and> _ \<and> ?nodes")
proof (cases "tree_wf s")
  case True
  let ?rk = "path_key root"
  have dom: "k \<in> set (map fst (tree s)) \<longleftrightarrow> \<not> root_key k \<and> os_node s k \<noteq> None" for k
  proof -
    have "k \<in> set (map fst (tree s)) \<longleftrightarrow> map_of (tree s) k \<noteq> None"
      by (simp add: map_of_eq_None_iff)
    moreover have "map_of (tree s) k \<noteq> None \<Longrightarrow> \<not> root_key k" using True by (auto simp: tree_wf_iff)
    ultimately show ?thesis by (auto simp: os_node_def)
  qed
  have below_iff: "below ?rk k \<and> k \<noteq> ?rk \<longleftrightarrow> (\<exists>ks. ks \<noteq> [] \<and> k = ?rk @ ks)" for k
    unfolding below_def
    by (metis append_Nil2 append_take_drop_id take_length_prefix append_self_conv)
  have "list_all (\<lambda>k. below ?rk k \<longrightarrow> k \<noteq> ?rk \<longrightarrow> (os_node s k = Some Dir \<longleftrightarrow> CHR ''.'' \<notin> set (last k)))
      (map fst (tree s)) \<longleftrightarrow>
    (\<forall>k. \<not> root_key k \<and> os_node s k \<noteq> None \<longrightarrow> (\<exists>ks. ks \<noteq> [] \<and> k = ?rk @ ks) \<longrightarrow>
      (os_node s k = Some Dir \<longleftrightarrow> CHR ''.'' \<notin> set (last k)))"
    by (simp only: list_all_iff Ball_def dom below_iff [symmetric] imp_conjL)
  also have "\<dots> \<longleftrightarrow> ?nodes"
  proof (rule iffI; intro allI impI)
    fix ks n
    assume all: "\<forall>k. \<not> root_key k \<and> os_node s k \<noteq> None \<longrightarrow> (\<exists>ks. ks \<noteq> [] \<and> k = ?rk @ ks) \<longrightarrow>
      (os_node s k = Some Dir \<longleftrightarrow> CHR ''.'' \<notin> set (last k))"
      and ks: "ks \<noteq> []" "os_node s (?rk @ ks) = Some n" "\<not> root_key (?rk @ ks)"
    from all [rule_format, of "?rk @ ks"] ks show "(n = Dir) = (CHR ''.'' \<notin> set (last ks))" by simp
  next
    fix k
    assume nodes: ?nodes and k: "\<not> root_key k \<and> os_node s k \<noteq> None" "\<exists>ks. ks \<noteq> [] \<and> k = ?rk @ ks"
    then obtain ks n where ks: "ks \<noteq> []" "k = ?rk @ ks" "os_node s k = Some n" by auto
    from nodes [rule_format, OF ks(1), of n] ks k(1)
    show "(os_node s k = Some Dir) = (CHR ''.'' \<notin> set (last k))" by simp
  qed
  finally show ?thesis using True by (simp add: backup_layout_def)
qed (simp add: backup_layout_def)

lemma backup_layoutD:
  assumes "backup_layout root s"
  shows "tree_wf s" and "os_node s (path_key root) = Some Dir"
    and "ks \<noteq> [] \<Longrightarrow> \<not> root_key (path_key root @ ks) \<Longrightarrow> os_node s (path_key root @ ks) = Some n \<Longrightarrow>
      n = Dir \<longleftrightarrow> CHR ''.'' \<notin> set (last ks)"
  using assms by (auto simp: backup_layout_iff)

lemma layout_no_file_above:
  assumes lay: "backup_layout root s" and names: "\<And>c. c \<in> set cs \<Longrightarrow> CHR ''.'' \<notin> set c"
  shows "os_node s (take i (path_key root @ cs)) \<noteq> Some (File t)"
proof (cases "i \<le> length (path_key root)")
  case True
  then show ?thesis using tree_wf_no_file_above [OF backup_layoutD(1,2) [OF lay], of i t] by simp
next
  case False
  let ?ks = "take (i - length (path_key root)) cs"
  have k: "take i (path_key root @ cs) = path_key root @ ?ks" using False by simp
  show ?thesis
  proof (cases "?ks = [] \<or> root_key (path_key root @ ?ks)")
    case True
    then show ?thesis using k backup_layoutD(2) [OF lay] by auto
  next
    case False
    then have "last ?ks \<in> set cs" by (meson in_set_takeD last_in_set)
    with names have "CHR ''.'' \<notin> set (last ?ks)" by blast
    with backup_layoutD(3) [OF lay, of ?ks "File t"] False k show ?thesis by auto
  qed
qed

text \<open>A dotted file in a directory of undotted names keeps the layout.\<close>

lemma backup_layout_file:
  assumes lay: "backup_layout root s" and wf': "tree_wf s'"
    and dirs: "made_dirs (path_key root @ cs) s s1"
    and names: "\<And>c. c \<in> set cs \<Longrightarrow> c \<noteq> [] \<and> CHR ''.'' \<notin> set c" and n: "CHR ''.'' \<in> set n"
    and node': "\<And>k. os_node s' k = (if k = path_key root @ cs @ [n] then Some (File t) else os_node s1 k)"
  shows "backup_layout root s'"
  unfolding backup_layout_iff
proof (intro conjI allI impI)
  show "tree_wf s'" by (rule wf')
  show "os_node s' (path_key root) = Some Dir"
    using node' made_dirsD [OF dirs, of "path_key root"] backup_layoutD(2) [OF lay] by auto
  fix ks m
  assume ks: "ks \<noteq> []" "os_node s' (path_key root @ ks) = Some m" "\<not> root_key (path_key root @ ks)"
  consider "path_key root @ ks = path_key root @ cs @ [n]" | "os_node s (path_key root @ ks) = Some m"
    | i where "m = Dir" "ks = take i cs"
  proof (cases "path_key root @ ks = path_key root @ cs @ [n] \<or> os_node s (path_key root @ ks) = Some m")
    case False
    with ks(2) node' made_dirsD [OF dirs, of "path_key root @ ks"]
    obtain i where i: "m = Dir" "path_key root @ ks = take i (path_key root @ cs)"
      by (auto split: if_splits)
    then have "ks = take (i - length (path_key root)) cs"
      by (metis append_eq_append_conv_if append_take_drop_id drop_append take_append drop_take
          append_eq_conv_conj)
    with i(1) that(3) show ?thesis by blast
  qed (use that in blast)
  then show "(m = Dir) = (CHR ''.'' \<notin> set (last ks))"
  proof cases
    case 1
    then have "ks = cs @ [n]" by simp
    with n node' ks(2) show ?thesis by auto
  next
    case 2
    then show ?thesis using backup_layoutD(3) [OF lay ks(1,3)] by blast
  next
    case 3
    then have "last ks \<in> set cs" using ks(1) by (metis in_set_takeD last_in_set)
    with 3 names show ?thesis by blast
  qed
qed

text \<open>Appending to a dotted file in an undotted directory below the backup directory.\<close>

lemma append_to_file_ok:
  assumes nf: "no_faults s" and lay: "backup_layout root s"
    and key: "path_key f = path_key root @ cs @ [n]" "path_key (path_dir f) = path_key root @ cs"
    and names: "\<And>c. c \<in> set cs \<Longrightarrow> c \<noteq> [] \<and> CHR ''.'' \<notin> set c" and n: "CHR ''.'' \<in> set n"
  obtains r s' s1 where "append_to_file closed f lines s = (r, s')" "r = None \<longleftrightarrow> \<not> closed"
    "no_faults s'" "backup_layout root s'" "made_dirs (path_key root @ cs) s s1"
    "\<And>k. os_node s' k = (if k = path_key f then Some (File (file_text s k @ (if closed then [] else lines)))
       else os_node s1 k)"
proof -
  let ?k = "path_key root @ cs @ [n]"
  have nr: "\<not> root_key ?k" using n by (auto simp: root_key_def append_eq_Cons_conv)
  obtain s1 where s1: "os_mkdir_all s (path_dir f) = (None, s1)" "made_dirs (path_key root @ cs) s s1"
    "no_faults s1" "tree_wf s1" "os_node s1 (path_key root @ cs) = Some Dir"
    using os_mkdir_all_ok [OF nf, of "path_dir f"] layout_no_file_above [OF lay, of cs] names
      backup_layoutD(1) [OF lay] unfolding key by (metis (no_types, lifting))
  have old: "os_node s1 ?k = os_node s ?k"
    using made_dirs_other [OF s1(2), of ?k] by simp
  have kind: "os_node s ?k \<noteq> Some Dir"
    using backup_layoutD(3) [OF lay, of "cs @ [n]" Dir] nr n by auto
  define s2 where "s2 = (if os_node s1 ?k = None then put_node ?k (File []) s1 else s1)"
  have wf2: "tree_wf s2" and nf2: "no_faults s2"
    using s1 nr old kind tree_wf_put [of s1 ?k "File []"] by (auto simp: s2_def butlast_append)
  have node2: "os_node s2 k = (if k = ?k then Some (File (file_text s ?k)) else os_node s1 k)" for k
    using nr old kind by (auto simp: s2_def os_node_put file_text_def split: option.split node.split)
  let ?new = "file_text s ?k @ (if closed then [] else lines)"
  define s' where "s' = (if closed then s2 else put_node ?k (File ?new) s2)"
  have node': "os_node s' k = (if k = ?k then Some (File ?new) else os_node s1 k)" for k
    using nr node2 by (simp add: s'_def os_node_put)
  have "open_or_create_file_for_append f s = (True, s2)"
    using os_open_append_ok [of s1 f] s1 old kind
    by (simp add: open_or_create_file_for_append_def key butlast_append s2_def)
  moreover have "os_write s2 f lines = (None, s')" if "\<not> closed"
    using os_write_ok [OF nf2, of f] node2 that by (simp add: key s'_def)
  ultimately obtain r where run: "append_to_file closed f lines s = (r, s')" "r = None \<longleftrightarrow> \<not> closed"
    by (cases closed) (simp_all add: append_to_file_def s'_def)
  have wf': "tree_wf s'"
    using tree_wf_put [OF wf2 nr, of "File ?new"] node2 s1(5) wf2
    by (cases closed) (simp_all add: s'_def butlast_append)
  have "backup_layout root s'"
    using backup_layout_file [OF lay wf' s1(2) names n] node' by blast
  with that [OF run _ _ s1(2)] node' nf2 show ?thesis by (simp add: key s'_def)
qed

lemma below_prefix: "\<not> below d k \<Longrightarrow> k = take i (d @ cs) \<Longrightarrow> \<exists>j < length d. k = take j d"
proof -
  assume nb: "\<not> below d k" and k: "k = take i (d @ cs)"
  then have "i < length d" by (cases "i < length d") (auto simp: below_def)
  with k show ?thesis by auto
qed

lemma save_lines_to_file_ok:
  fixes now :: time and closed :: bool and lines :: string
  assumes nf: "no_faults s" and lay: "backup_layout root s"
    and host: "name_part host" "CHR ''.'' \<notin> set host"
  defines "s' \<equiv> save_lines_to_file now closed root host lines s"
  shows "no_faults s'" and "backup_layout root s'"
    and "file_text s' k = file_text s k
      @ (if k = hour_key root host now \<and> \<not> closed then lines else [])"
    and "\<not> below (path_key root) k \<Longrightarrow> os_node s' k = os_node s k"
proof -
  let ?f = "make_file_path now root host"
  let ?cs = "(if host = [] then [] else [host]) @ [date_utc now]"
  have key: "path_key ?f = path_key root @ ?cs @ [hour_name now]"
    "path_key (path_dir ?f) = path_key root @ ?cs"
    using path_key_file [OF host(1), of now root] by (simp_all add: hour_key_def day_key_def)
  have cs: "c \<noteq> [] \<and> CHR ''.'' \<notin> set c" if "c \<in> set ?cs" for c
    using that host date_utc_free [of now] date_utc_length [of now] by (auto split: if_splits)
  have n: "CHR ''.'' \<in> set (hour_name now)" by (simp add: hour_name_def)
  obtain r t s1 where t: "append_to_file closed ?f lines s = (r, t)" "no_faults t" "backup_layout root t"
    "made_dirs (path_key root @ ?cs) s s1"
    "\<And>k. os_node t k = (if k = path_key ?f then Some (File (file_text s k @ (if closed then [] else lines)))
       else os_node s1 k)"
    using append_to_file_ok [OF nf lay key cs n] by metis
  then have s': "s' = t" by (simp add: s'_def save_lines_to_file_def)
  show "no_faults s'" "backup_layout root s'" using t s' by simp_all
  have "path_key ?f = hour_key root host now" using path_key_file [OF host(1)] by simp
  then show "file_text s' k = file_text s k @ (if k = hour_key root host now \<and> \<not> closed then lines else [])"
    using t(5) made_dirs_text [OF t(4), of k] by (simp add: s' file_text_def split: option.split)
  assume out: "\<not> below (path_key root) k"
  then have "k \<noteq> path_key ?f" by (auto simp: key below_def)
  moreover have "os_node s1 k = os_node s k"
  proof (rule ccontr)
    assume "os_node s1 k \<noteq> os_node s k"
    with made_dirsD [OF t(4), of k] obtain i where "os_node s k = None" "k = take i (path_key root @ ?cs)"
      by auto
    with below_prefix [OF out this(2)] obtain j where "j < length (path_key root)" "k = take j (path_key root)"
      by blast
    with tree_wf_prefix [OF backup_layoutD(1) [OF lay], of "path_key root" j] \<open>os_node s k = None\<close>
      backup_layoutD(2) [OF lay] show False by simp
  qed
  ultimately show "os_node s' k = os_node s k" using t(5) s' by simp
qed

text \<open>Writing such a file anew: the old text goes, whether or not there was any.\<close>

lemma open_file_ok:
  assumes nf: "no_faults s" and lay: "backup_layout root s"
    and key: "path_key f = path_key root @ cs @ [n]" "path_key (path_dir f) = path_key root @ cs"
    and names: "\<And>c. c \<in> set cs \<Longrightarrow> c \<noteq> [] \<and> CHR ''.'' \<notin> set c" and n: "CHR ''.'' \<in> set n"
  obtains s' s1 where "open_file f s = (None, s')" "no_faults s'" "tree_wf s'"
    "made_dirs (path_key root @ cs) s s1"
    "\<And>k. os_node s' k = (if k = path_key f then Some (File []) else os_node s1 k)"
    "os_node s1 (path_key root @ cs) = Some Dir"
proof -
  let ?k = "path_key root @ cs @ [n]"
  have nr: "\<not> root_key ?k" using n by (auto simp: root_key_def append_eq_Cons_conv)
  obtain s1 where s1: "os_mkdir_all s (path_dir f) = (None, s1)" "made_dirs (path_key root @ cs) s s1"
    "no_faults s1" "tree_wf s1" "os_node s1 (path_key root @ cs) = Some Dir"
    using os_mkdir_all_ok [OF nf, of "path_dir f"] layout_no_file_above [OF lay, of cs] names
      backup_layoutD(1) [OF lay] unfolding key by (metis (no_types, lifting))
  have kind: "os_node s1 ?k \<noteq> Some Dir"
    using backup_layoutD(3) [OF lay, of "cs @ [n]" Dir] nr n made_dirs_other [OF s1(2), of ?k] by auto
  define s2 where "s2 = (if os_node s1 ?k = None then s1 else drop_nodes (\<lambda>k. k = ?k) s1)"
  have s2: "no_faults s2" "tree_wf s2"
    "os_node s2 k = (if k = ?k then None else os_node s1 k)" for k
    using s1 kind nr tree_wf_drop_file [of s1 ?k] by (auto simp: s2_def os_node_drop)
  have rm: "os_remove s1 f = (if os_node s1 ?k = None then Some NotExist else None, s2)"
    using os_remove_file_ok [of s1 f] s1 kind by (simp add: key butlast_append s2_def)
  define s' where "s' = put_node ?k (File []) s2"
  have op: "os_open_append s2 f = (None, s')"
    using os_open_append_ok [OF s2(1,2), of f] s2(3) s1(5) by (simp add: key butlast_append s'_def)
  have "open_file f s = (None, s')"
    using s1(1) rm op by (simp add: open_file_def is_not_exist_def)
  moreover have "tree_wf s'"
    using tree_wf_put [OF s2(2) nr, of "File []"] s2(3) s1(5) by (simp add: s'_def butlast_append)
  moreover have "os_node s' k = (if k = path_key f then Some (File []) else os_node s1 k)" for k
    using nr s2(3) by (simp add: s'_def os_node_put key)
  ultimately show ?thesis using that s1(2,5) s2(1) by (simp add: s'_def)
qed

lemma write_to_file_ok:
  assumes nf: "no_faults s" and lay: "backup_layout root s" and w: "create factory = Inr w"
    and f: "f = factory_filename factory filename"
    and key: "path_key f = path_key root @ cs @ [n]" "path_key (path_dir f) = path_key root @ cs"
    and names: "\<And>c. c \<in> set cs \<Longrightarrow> c \<noteq> [] \<and> CHR ''.'' \<notin> set c" and n: "CHR ''.'' \<in> set n"
  obtains s' s1 where "write_to_file create filename lines factory s = (None, s')" "no_faults s'"
    "backup_layout root s'" "made_dirs (path_key root @ cs) s s1"
    "\<And>k. os_node s' k =
       (if k = path_key f then Some (File (on_write w lines @ on_close w lines)) else os_node s1 k)"
proof -
  let ?k = "path_key root @ cs @ [n]"
  have nr: "\<not> root_key ?k" using n by (auto simp: root_key_def append_eq_Cons_conv)
  obtain s2 s1 where op: "open_file f s = (None, s2)" "no_faults s2" "tree_wf s2"
    "made_dirs (path_key root @ cs) s s1"
    "\<And>k. os_node s2 k = (if k = path_key f then Some (File []) else os_node s1 k)"
    "os_node s1 (path_key root @ cs) = Some Dir"
    using open_file_ok [OF nf lay key names n] by metis
  define s3 where "s3 = put_node ?k (File (on_write w lines)) s2"
  define s' where "s' = put_node ?k (File (on_write w lines @ on_close w lines)) s3"
  have w1: "os_write s2 f (on_write w lines) = (None, s3)"
    using os_write_ok [OF op(2), of f] op(5) by (simp add: key s3_def)
  have w2: "os_write s3 f (on_close w lines) = (None, s')"
    using os_write_ok [of s3 f] op(2) nr by (simp add: key s3_def s'_def os_node_put)
  have run: "write_to_file create filename lines factory s = (None, s')"
    using op(1) w1 w2 w f by (simp add: write_to_file_def Let_def)
  have node': "os_node s' k =
      (if k = ?k then Some (File (on_write w lines @ on_close w lines)) else os_node s1 k)" for k
    using nr op(5) by (simp add: s'_def s3_def os_node_put key)
  have "tree_wf s3" "os_node s3 ?k \<noteq> Some Dir" "os_node s3 (path_key root @ cs) = Some Dir"
    using tree_wf_put [OF op(3) nr, of "File (on_write w lines)"] op(5,6) nr
    by (simp_all add: s3_def butlast_append os_node_put key)
  then have "tree_wf s'" unfolding s'_def by (intro tree_wf_put nr) (simp_all add: butlast_append)
  with backup_layout_file [OF lay _ op(4) names n] node' have "backup_layout root s'" by blast
  with that [OF run _ _ op(4)] node' op(2) show ?thesis by (simp add: key s'_def s3_def)
qed

text \<open>The orders in which Go may go through a map.\<close>

definition map_order :: "backup_list \<Rightarrow> string list \<Rightarrow> bool" where
  "map_order m hosts = (distinct hosts \<and> set hosts = fst ` set m)"

definition names_ok :: "string list \<Rightarrow> bool" where
  "names_ok hosts = list_all (\<lambda>h. name_part h \<and> CHR ''.'' \<notin> set h) hosts"

lemma save_backup_list_ok:
  fixes now :: "string \<Rightarrow> time" and closed :: "string \<Rightarrow> bool" and m :: backup_list
  assumes "no_faults s" and "backup_layout root s" and "names_ok hosts" and "distinct hosts"
  defines "s' \<equiv> save_backup_list now closed hosts m root s"
  shows "no_faults s' \<and> backup_layout root s' \<and>
    (\<forall>k. file_text s' k = file_text s k @
       concat (map (\<lambda>h. if k = hour_key root h (now h) \<and> \<not> closed h then the (map_of m h) else []) hosts))"
  using assms(1-4) unfolding s'_def
proof (induction hosts arbitrary: s)
  case Nil
  then show ?case by (simp add: save_backup_list_def)
next
  case (Cons h hosts)
  let ?t = "save_lines_to_file (now h) (closed h) root h (the (map_of m h)) s"
  have h: "name_part h" "CHR ''.'' \<notin> set h" using Cons.prems(3) by (simp_all add: names_ok_def)
  note t = save_lines_to_file_ok [OF Cons.prems(1,2) h, where now = "now h" and closed = "closed h"
      and lines = "the (map_of m h)"]
  have "names_ok hosts" "distinct hosts" using Cons.prems by (simp_all add: names_ok_def)
  from Cons.IH [OF t(1,2) this] t(3) show ?case by (simp add: save_backup_list_def)
qed

lemma concat_single:
  assumes "distinct hosts" and "\<And>h'. P h' \<Longrightarrow> h' = h"
  shows "concat (map (\<lambda>h'. if P h' then f h' else []) hosts) = (if h \<in> set hosts \<and> P h then f h else [])"
  using assms(1)
proof (induction hosts)
  case (Cons a hosts)
  then show ?case using assms(2) [of a] by (cases "P a") auto
qed simp

lemma make_backup_list_hosts:
  assumes "make_backup_list params = Value m"
  shows "names_ok (map fst m)"
proof -
  have "name_part h \<and> CHR ''.'' \<notin> set h" if "h \<in> fst ` set m" for h
  proof -
    from that have "map_of m h \<noteq> None" by (simp add: map_of_eq_None_iff)
    with make_backup_list_lookup [of params] assms have "of_host params h \<noteq> []"
      by (auto split: if_splits)
    then obtain p where "p \<in> set params" "param_host p = Some h"
      by (auto simp: of_host_def filter_empty_conv)
    then obtain v where "make_key_hostname v = Value h"
      by (rule_tac y = p in param.exhaust) (auto split: run.splits)
    then show ?thesis using make_key_hostname_name by blast
  qed
  then show ?thesis by (auto simp: names_ok_def list_all_iff)
qed

lemma backup_do_text:
  assumes "no_faults s" and "backup_layout root s" and "params_ok params"
    and order: "\<And>m. map_order m (order m)"
  shows "\<exists>s'. backup_do now closed order params root s = Value s' \<and>
    no_faults s' \<and> backup_layout root s' \<and>
    (\<forall>h. file_text s' (hour_key root h (now h)) =
       file_text s (hour_key root h (now h)) @ (if closed h then [] else host_lines params h)) \<and>
    (\<forall>k. (\<forall>h. k \<noteq> hour_key root h (now h)) \<longrightarrow> file_text s' k = file_text s k)"
proof -
  obtain m where m: "make_backup_list params = Value m"
    "\<And>h. map_of m h = (if of_host params h = [] then None else Some (host_lines params h))"
    using make_backup_list_lookup [of params] assms(3) by auto
  have names: "names_ok (order m)" and dist: "distinct (order m)" and dom: "set (order m) = fst ` set m"
    using make_backup_list_hosts [OF m(1)] order [of m] by (auto simp: names_ok_def map_order_def list_all_iff)
  have found: "(if h \<in> set (order m) then the (map_of m h) else []) = host_lines params h" for h
  proof -
    have "h \<in> set (order m) \<longleftrightarrow> map_of m h \<noteq> None" by (simp add: dom map_of_eq_None_iff)
    then show ?thesis by (simp add: m(2) host_lines_def)
  qed
  let ?s' = "save_backup_list now closed (order m) m root s"
  have key: "hour_key root h (now h) = hour_key root h' (now h') \<Longrightarrow> h' = h" for h h'
    using hour_key_host by metis
  note saved = save_backup_list_ok [OF assms(1,2) names dist, of now closed m]
  have "file_text ?s' (hour_key root h (now h)) =
      file_text s (hour_key root h (now h)) @ (if closed h then [] else host_lines params h)" for h
    using saved concat_single [OF dist, of "\<lambda>h'. hour_key root h (now h) = hour_key root h' (now h') \<and> \<not> closed h'"
        h "\<lambda>h'. the (map_of m h')"] key found [of h] by auto
  moreover have "file_text ?s' k = file_text s k" if "\<forall>h. k \<noteq> hour_key root h (now h)" for k
    using saved that by simp
  ultimately show ?thesis
    using saved m(1) by (intro exI [of _ ?s']) (simp add: backup_do_def)
qed

text \<open>
  C1: a batch appends to the hour file of each host the records of the host's requests, whatever the
  order in which Go goes through the hosts, unless the goroutine that closes the file runs before the
  write: then the host's records are lost. Other files keep their text.
\<close>

theorem backup_do_appends:
  assumes "no_faults s" and "backup_layout root s" and "params_ok params"
    and order: "\<And>m. map_order m (order m)"
  shows "\<exists>s'. backup_do now closed order params root s = Value s' \<and>
    no_faults s' \<and> backup_layout root s' \<and>
    (\<forall>h. file_text s' (hour_key root h (now h)) =
       file_text s (hour_key root h (now h)) @ (if closed h then [] else host_lines params h)) \<and>
    (\<forall>k. (\<forall>h. k \<noteq> hour_key root h (now h)) \<longrightarrow> file_text s' k = file_text s k)"
  using assms by (rule backup_do_text)

text \<open>A small file system to try the operations on.\<close>

abbreviation sample_os :: os where
  "sample_os \<equiv> \<lparr>tree = [([''bk''], Dir)], io_fault = (\<lambda>call k. None)\<rparr>"

abbreviation sample_params :: "param list" where
  "sample_params \<equiv> [Values [(''u'', [''//a.b''])]]"

lemma sample_ok: "no_faults sample_os" "backup_layout ''bk'' sample_os" "params_ok sample_params"
  "map_order m (remdups (map fst m))"
  "hour_key ''bk'' ''a_b'' 0 = [''bk'', ''a_b'', ''1970-1-1'', ''0.json.lines'']"
  "file_text sample_os (hour_key ''bk'' ''a_b'' 0) = []"
  "length (of_host sample_params ''a_b'') = 1"
proof -
  show "no_faults sample_os" by (simp add: no_faults_def)
  show "backup_layout ''bk'' sample_os" by code_simp
  show "params_ok sample_params" by code_simp
  show "map_order m (remdups (map fst m))" by (simp add: map_order_def)
  show key: "hour_key ''bk'' ''a_b'' 0 = [''bk'', ''a_b'', ''1970-1-1'', ''0.json.lines'']" by code_simp
  show "file_text sample_os (hour_key ''bk'' ''a_b'' 0) = []"
    unfolding key by (simp add: file_text_def os_node_def root_key_def)
  show "length (of_host sample_params ''a_b'') = 1" by code_simp
qed

lemma backup_do_appends_witness:
  "\<exists>s'. backup_do (\<lambda>h. 0) (\<lambda>h. False) (\<lambda>m. remdups (map fst m)) sample_params ''bk'' sample_os = Value s'
   \<and> lines_of (file_text s' [''bk'', ''a_b'', ''1970-1-1'', ''0.json.lines'']) = 1"
proof -
  obtain s' where s': "backup_do (\<lambda>h. 0) (\<lambda>h. False) (\<lambda>m. remdups (map fst m)) sample_params ''bk''
      sample_os = Value s'"
    "\<forall>h. file_text s' (hour_key ''bk'' h 0) = file_text sample_os (hour_key ''bk'' h 0)
      @ (if False then [] else host_lines sample_params h)"
    using backup_do_appends [OF sample_ok(1-4), where now = "\<lambda>h. 0" and closed = "\<lambda>h. False"] by blast
  have "file_text s' (hour_key ''bk'' ''a_b'' 0) = host_lines sample_params ''a_b''"
    using s'(2) [rule_format, of "''a_b''"] by (simp only: sample_ok(6) if_False append_Nil)
  with s'(1) sample_ok(5,7) host_lines_count [of sample_params "''a_b''"] show ?thesis by metis
qed

section \<open>Batches\<close>

text \<open>
  The batcher is third-party: it hands the requests to \<open>do\<close> in batches of its own choice. The
  outcome does not depend on how it cuts the sequence.
\<close>

fun backup_batches :: "(string \<Rightarrow> time) \<Rightarrow> (string \<Rightarrow> bool) \<Rightarrow> (backup_list \<Rightarrow> string list)
    \<Rightarrow> param list list \<Rightarrow> string \<Rightarrow> os \<Rightarrow> os run" where
  "backup_batches now closed order [] root s = Value s"
| "backup_batches now closed order (b # bs) root s =
     run_bind (backup_do now closed order b root s) (backup_batches now closed order bs root)"

lemma host_lines_append: "host_lines (ps @ qs) h = host_lines ps h @ host_lines qs h"
  by (simp add: host_lines_def of_host_def)



section \<open>Nothing outside the backup directory changes\<close>

text \<open>
  Whatever calls the system refuses, a position outside the backup directory keeps its node: the names
  that requests bring in cannot leave the directory.
\<close>

definition rooted_at :: "string \<Rightarrow> os \<Rightarrow> bool" where
  "rooted_at root s = list_all (\<lambda>i. os_node s (take i (path_key root)) = Some Dir) [0..<Suc (length (path_key root))]"

definition untouched :: "string list \<Rightarrow> os \<Rightarrow> os \<Rightarrow> bool" where
  "untouched d s s' = (\<forall>k. (\<not> below d k \<longrightarrow> os_node s' k = os_node s k) \<and>
     (os_node s k = Some Dir \<longrightarrow> os_node s' k = Some Dir))"

lemma rooted_at_iff: "rooted_at root s \<longleftrightarrow> (\<forall>i. os_node s (take i (path_key root)) = Some Dir)"
proof
  assume r: "rooted_at root s"
  show "\<forall>i. os_node s (take i (path_key root)) = Some Dir"
  proof
    fix i
    have "os_node s (take j (path_key root)) = Some Dir" if "j \<le> length (path_key root)" for j
      using r that by (simp add: rooted_at_def list_all_iff less_Suc_eq_le del: upt_Suc)
    from this [of i] this [of "length (path_key root)"]
    show "os_node s (take i (path_key root)) = Some Dir"
      by (cases "i \<le> length (path_key root)") auto
  qed
qed (simp add: rooted_at_def list_all_iff)

lemma untouched_refl: "untouched d s s"
  by (simp add: untouched_def)

lemma untouched_trans: "untouched d s t \<Longrightarrow> untouched d t u \<Longrightarrow> untouched d s u"
  by (simp add: untouched_def)

lemma untouched_rooted: "untouched d s s' \<Longrightarrow> rooted_at root s \<Longrightarrow> rooted_at root s'"
  by (simp add: untouched_def rooted_at_iff)

lemma mkdirs_untouched:
  assumes "mkdirs s [] (path_key root @ cs) = (r, s')" and "rooted_at root s"
  shows "untouched (path_key root) s s'"
  unfolding untouched_def
proof (intro allI conjI impI)
  fix k
  show "os_node s k = Some Dir \<Longrightarrow> os_node s' k = Some Dir" using mkdirs_keeps [OF assms(1)] .
  assume out: "\<not> below (path_key root) k"
  show "os_node s' k = os_node s k"
  proof (rule ccontr)
    assume "os_node s' k \<noteq> os_node s k"
    with mkdirs_node [OF assms(1), of k] obtain i where "os_node s k = None" "k = take i (path_key root @ cs)"
      by auto
    with below_prefix [OF out this(2)] assms(2) show False by (auto simp: rooted_at_iff)
  qed
qed

lemma put_untouched:
  "below d k \<Longrightarrow> os_node s k \<noteq> Some Dir \<Longrightarrow> untouched d s (put_node k (File t) s)"
  by (cases "root_key k") (auto simp: untouched_def os_node_put)

lemma os_open_append_untouched:
  assumes "os_open_append s p = (r, s')" and "below d (path_key p)"
  shows "untouched d s s'"
  using assms put_untouched [of d "path_key p" s "[]"]
  by (auto simp: os_open_append_def Let_def untouched_refl split: option.splits node.splits if_splits)

lemma os_write_untouched:
  assumes "os_write s p text = (r, s')" and "below d (path_key p)"
  shows "untouched d s s'"
  using assms put_untouched [of d "path_key p" s]
  by (auto simp: os_write_def Let_def untouched_refl split: option.splits node.splits)

lemma append_to_file_untouched:
  assumes "append_to_file closed f lines s = (r, s')" and "rooted_at root s"
    and key: "path_key f = path_key root @ cs @ [n]" "path_key (path_dir f) = path_key root @ cs"
  shows "untouched (path_key root) s s'"
proof -
  have b: "below (path_key root) (path_key f)" by (simp add: key below_def)
  obtain e1 s1 where s1: "os_mkdir_all s (path_dir f) = (e1, s1)" by (cases "os_mkdir_all s (path_dir f)")
  obtain e2 s2 where s2: "os_open_append s1 f = (e2, s2)" by (cases "os_open_append s1 f")
  have "untouched (path_key root) s s1"
    using s1 mkdirs_untouched [OF _ assms(2)] by (simp add: os_mkdir_all_def key(2))
  moreover have "untouched (path_key root) s1 s2" using os_open_append_untouched [OF s2 b] .
  moreover have "untouched (path_key root) s2 s'"
    using assms(1) s1 s2 os_write_untouched [OF _ b]
    by (auto simp: append_to_file_def open_or_create_file_for_append_def untouched_refl split: if_splits)
  ultimately show ?thesis using untouched_trans by blast
qed

lemma save_lines_to_file_untouched:
  assumes "rooted_at root s" and "name_part host"
  shows "untouched (path_key root) s (save_lines_to_file now closed root host lines s)"
proof -
  let ?f = "make_file_path now root host"
  obtain r s' where run: "append_to_file closed ?f lines s = (r, s')"
    by (cases "append_to_file closed ?f lines s")
  have "untouched (path_key root) s s'"
    using path_key_file [OF assms(2), of now root]
    by (intro append_to_file_untouched [OF run assms(1),
          of "(if host = [] then [] else [host]) @ [date_utc now]" "hour_name now"])
      (simp_all add: hour_key_def day_key_def)
  with run show ?thesis by (simp add: save_lines_to_file_def)
qed

lemma save_backup_list_untouched:
  "rooted_at root s \<Longrightarrow> names_ok hosts \<Longrightarrow>
     untouched (path_key root) s (save_backup_list now closed hosts m root s)"
proof (induction hosts arbitrary: s)
  case Nil
  then show ?case by (simp add: save_backup_list_def untouched_refl)
next
  case (Cons h hosts)
  let ?t = "save_lines_to_file (now h) (closed h) root h (the (map_of m h)) s"
  have "untouched (path_key root) s ?t"
    using Cons.prems by (intro save_lines_to_file_untouched) (auto simp: names_ok_def)
  with Cons.IH [OF untouched_rooted [OF this Cons.prems(1)]] Cons.prems(2) untouched_trans
  show ?case by (auto simp: save_backup_list_def names_ok_def)
qed

lemma backup_do_outside:
  assumes "backup_do now closed order params root s = Value s'" and "rooted_at root s"
    and order: "\<And>m. map_order m (order m)" and "\<not> below (path_key root) k"
  shows "os_node s' k = os_node s k"
proof -
  obtain m where m: "make_backup_list params = Value m"
    "s' = save_backup_list now closed (order m) m root s"
    using assms(1) by (auto simp: backup_do_def run_bind_Value_iff)
  have "names_ok (order m)"
    using make_backup_list_hosts [OF m(1)] order [of m]
    by (auto simp: names_ok_def map_order_def list_all_iff)
  from save_backup_list_untouched [OF assms(2) this] m(2) assms(4) show ?thesis
    by (simp add: untouched_def)
qed

text \<open>C14: a batch changes no position outside the backup directory, whatever calls fail.\<close>

theorem backup_do_stays_inside:
  assumes "backup_do now closed order params root s = Value s'" and "rooted_at root s"
    and order: "\<And>m. map_order m (order m)" and "\<not> below (path_key root) k"
  shows "os_node s' k = os_node s k"
  using assms by (rule backup_do_outside)

lemma backup_do_stays_inside_witness:
  "\<exists>s'. backup_do (\<lambda>h. 0) (\<lambda>h. False) (\<lambda>m. remdups (map fst m))
      [Values [(''u'', [''//../../etc'']), (''u2'', [])]] ''bk'' sample_os = Value s'
    \<and> os_node s' [''etc''] = None"
proof -
  let ?run = "backup_do (\<lambda>h. 0) (\<lambda>h. False) (\<lambda>m. remdups (map fst m))
      [Values [(''u'', [''//../../etc'']), (''u2'', [])]] ''bk'' sample_os"
  have "\<not> panics ?run" by code_simp
  then obtain s' where run: "?run = Value s'" by (auto simp: not_panics_iff)
  have "rooted_at ''bk'' sample_os" by code_simp
  moreover have "\<not> below (path_key ''bk'') [''etc'']" by code_simp
  ultimately have "os_node s' [''etc''] = os_node sample_os [''etc'']"
    using backup_do_stays_inside [OF run _ sample_ok(4)] by blast
  moreover have "os_node sample_os [''etc''] = None" by (simp add: os_node_def root_key_def)
  ultimately show ?thesis using run by auto
qed

end
