(* ===== verification/Archive.thy ===== *)
theory Archive
  imports Backup_Files
begin

text \<open>
  \<open>backup/archive.go\<close>: the hour files of a day become one day file, with a summary that tells which
  of its lines belong to which hour, and the day's directory goes.
\<close>

section \<open>The operations\<close>

datatype archive_error =
    CannotReadDir string os_err
  | ErrorReadFile string os_err
  | CannotWrite string os_err
  | ExpectedDirectory string
  | PlainError os_err

definition day_with_hour :: "time \<Rightarrow> nat \<Rightarrow> time" where
  "day_with_hour day hour = time_add (time_truncate day time_hour) (time_hour * int hour)"

definition count_lines :: "string \<Rightarrow> int" where
  "count_lines lines = int (length (split_on newline lines)) - 1"

definition read_file_by_hour :: "string \<Rightarrow> time \<Rightarrow> os \<Rightarrow> archive_error + string" where
  "read_file_by_hour datePath hour s =
     (let hourPath = make_hour_path datePath hour
      in case os_read_all s hourPath of
           Inl err \<Rightarrow> if is_not_exist err then Inr [] else Inl (ErrorReadFile hourPath err)
         | Inr fileContent \<Rightarrow> Inr fileContent)"

definition summary_line :: "nat \<Rightarrow> int \<Rightarrow> int \<Rightarrow> string" where
  "summary_line hour ttl linesCount =
     itoa (int hour) @ '','' @ itoa (ttl + 1) @ '','' @ itoa (ttl + linesCount) @ [newline]"

text \<open>The loop over the hours, with its variables \<open>dayContent\<close>, \<open>summary\<close> and \<open>total\<close>.\<close>

fun collect_loop :: "string \<Rightarrow> time \<Rightarrow> os \<Rightarrow> nat list \<Rightarrow> string \<Rightarrow> string \<Rightarrow> int
    \<Rightarrow> archive_error + (string \<times> string)" where
  "collect_loop datePath day s [] dayContent summary ttl = Inr (dayContent, summary)"
| "collect_loop datePath day s (hour # hours) dayContent summary ttl =
     (case read_file_by_hour datePath (day_with_hour day hour) s of
        Inl err \<Rightarrow> Inl err
      | Inr lines \<Rightarrow>
          if lines = [] then collect_loop datePath day s hours dayContent summary ttl
          else
            let linesCount = count_lines lines
            in collect_loop datePath day s hours (dayContent @ lines)
                 (summary @ summary_line hour ttl linesCount) (ttl + linesCount))"

definition collect_hours :: "string \<Rightarrow> time \<Rightarrow> os \<Rightarrow> archive_error + (string \<times> string)" where
  "collect_hours datePath day s = collect_loop datePath day s [0..<24] [] [] 0"

text \<open>A missing directory is no error, so the archiver goes on.\<close>

definition validate_dir_exist :: "string \<Rightarrow> os \<Rightarrow> archive_error option" where
  "validate_dir_exist datePath s =
     (case os_stat s datePath of
        Inl err \<Rightarrow> if is_not_exist err then None else Some (PlainError err)
      | Inr dateDir \<Rightarrow> if dateDir \<noteq> Dir then Some (ExpectedDirectory datePath) else None)"

definition write_day_file :: "(compression_factory \<Rightarrow> go_error + writer) \<Rightarrow> string \<Rightarrow> string \<Rightarrow> time
    \<Rightarrow> string \<Rightarrow> compression_factory \<Rightarrow> os \<Rightarrow> archive_error option \<times> os" where
  "write_day_file create backupRootDir host day dayContent factory s =
     (let archiveDayPath = make_archive_day_path backupRootDir host day
      in case write_to_file create archiveDayPath dayContent factory s of
           (Some err, s) \<Rightarrow> (Some (CannotWrite archiveDayPath err), s)
         | (None, s) \<Rightarrow> (None, s))"

definition write_hourly_summary :: "(compression_factory \<Rightarrow> go_error + writer) \<Rightarrow> string \<Rightarrow> string
    \<Rightarrow> time \<Rightarrow> string \<Rightarrow> os \<Rightarrow> archive_error option \<times> os" where
  "write_hourly_summary create backupRootDir host day summary s =
     (let archiveDayMetaPath = make_archive_day_meta_path backupRootDir host day
      in case write_to_file create archiveDayMetaPath summary NoneFactory s of
           (Some err, s) \<Rightarrow> (Some (CannotWrite archiveDayMetaPath err), s)
         | (None, s) \<Rightarrow> (None, s))"

definition archive_host :: "(compression_factory \<Rightarrow> go_error + writer) \<Rightarrow> string \<Rightarrow> string \<Rightarrow> time
    \<Rightarrow> compression_factory \<Rightarrow> os \<Rightarrow> archive_error option \<times> os" where
  "archive_host create backupRootDir host day factory s =
     (let datePath = make_day_path backupRootDir host day
      in case validate_dir_exist datePath s of
           Some err \<Rightarrow> (Some err, s)
         | None \<Rightarrow>
             (case collect_hours datePath day s of
                Inl err \<Rightarrow> (Some err, s)
              | Inr (dayContent, summary) \<Rightarrow>
                  (case write_day_file create backupRootDir host day dayContent factory s of
                     (Some err, s) \<Rightarrow> (Some err, s)
                   | (None, s) \<Rightarrow>
                       (case write_hourly_summary create backupRootDir host day summary s of
                          (Some err, s) \<Rightarrow> (Some err, s)
                        | (None, s) \<Rightarrow>
                            (case os_remove_all s datePath of
                               (Some err, s) \<Rightarrow> (Some (PlainError err), s)
                             | (None, s) \<Rightarrow> (None, s))))))"

fun archive_hosts :: "(compression_factory \<Rightarrow> go_error + writer) \<Rightarrow> string \<Rightarrow> (string \<times> bool) list
    \<Rightarrow> time \<Rightarrow> compression_factory \<Rightarrow> os \<Rightarrow> archive_error option \<times> os" where
  "archive_hosts create backupRootDir [] day factory s = (None, s)"
| "archive_hosts create backupRootDir ((name, isDir) # files) day factory s =
     (if \<not> isDir then archive_hosts create backupRootDir files day factory s
      else case archive_host create backupRootDir name day factory s of
             (Some err, s) \<Rightarrow> (Some err, s)
           | (None, s) \<Rightarrow> archive_hosts create backupRootDir files day factory s)"

definition archive_day :: "(compression_factory \<Rightarrow> go_error + writer) \<Rightarrow> string \<Rightarrow> time
    \<Rightarrow> compression_factory \<Rightarrow> os \<Rightarrow> archive_error option \<times> os" where
  "archive_day create backupRootDir day factory s =
     (case os_read_dir s backupRootDir of
        Inl err \<Rightarrow> (Some (CannotReadDir backupRootDir err), s)
      | Inr files \<Rightarrow> archive_hosts create backupRootDir files day factory s)"

lemmas archive_defs [go_defs] = day_with_hour_def count_lines_def read_file_by_hour_def
  summary_line_def collect_hours_def validate_dir_exist_def write_day_file_def
  write_hourly_summary_def archive_host_def archive_day_def

section \<open>Reading the hours\<close>

text \<open>The text of the file that hour \<open>h\<close> of the loop reads; empty where there is none.\<close>

definition hour_text :: "string \<Rightarrow> string \<Rightarrow> time \<Rightarrow> os \<Rightarrow> nat \<Rightarrow> string" where
  "hour_text root host day s h =
     file_text s (day_key root host day @ [hour_name (day_with_hour day h)])"

abbreviation host_ok :: "string \<Rightarrow> bool" where
  "host_ok host \<equiv> name_part host \<and> CHR ''.'' \<notin> set host"

lemma day_comps:
  assumes "host_ok host"
  obtains cs where "\<And>root. day_key root host day = path_key root @ cs"
    "\<And>c. c \<in> set cs \<Longrightarrow> c \<noteq> [] \<and> CHR ''.'' \<notin> set c"
proof
  show "day_key root host day = path_key root @ (if host = [] then [] else [host]) @ [date_utc day]" for root
    by (simp add: day_key_def)
  show "c \<noteq> [] \<and> CHR ''.'' \<notin> set c" if "c \<in> set ((if host = [] then [] else [host]) @ [date_utc day])" for c
    using assms that date_utc_free [of day] date_utc_length [of day] by (auto split: if_splits)
qed

lemma hour_name_dotted: "CHR ''.'' \<in> set (hour_name t)"
  by (simp add: hour_name_def)

lemma layout_not_below_file:
  assumes "backup_layout root s" and "\<And>c. c \<in> set cs \<Longrightarrow> CHR ''.'' \<notin> set c"
  shows "\<not> below_file s (path_key root @ cs @ [n])" "\<not> below_file s (path_key root @ cs)"
proof -
  have "os_node s (take i (path_key root @ cs)) \<noteq> Some (File t)" for i t
    using layout_no_file_above [OF assms] .
  moreover have "take i (path_key root @ cs @ [n]) = take i (path_key root @ cs)"
    if "i < length (path_key root @ cs @ [n])" for i
    using that by (simp flip: append_assoc)
  ultimately have no: "os_node s (take i (path_key root @ cs)) \<noteq> Some (File t)"
    "i < length (path_key root @ cs @ [n]) \<Longrightarrow> os_node s (take i (path_key root @ cs @ [n])) \<noteq> Some (File t)"
    for i t by metis+
  show "\<not> below_file s (path_key root @ cs)"
    using no(1) by (auto simp: below_file_def list_ex_iff split: option.splits node.splits)
  show "\<not> below_file s (path_key root @ cs @ [n])"
    using no(2) unfolding below_file_def list_ex_iff by (force split: option.splits node.splits)
qed

lemma read_file_by_hour_ok:
  assumes nf: "no_faults s" and lay: "backup_layout root s" and host: "host_ok host"
  shows "read_file_by_hour (make_day_path root host day) t s =
    Inr (file_text s (day_key root host day @ [hour_name t]))"
proof -
  obtain cs where cs: "\<And>root. day_key root host day = path_key root @ cs"
    "\<And>c. c \<in> set cs \<Longrightarrow> c \<noteq> [] \<and> CHR ''.'' \<notin> set c"
    using day_comps [OF host] by metis
  let ?k = "path_key root @ cs @ [hour_name t]"
  have key: "path_key (make_hour_path (make_day_path root host day) t) = ?k"
    using host by (simp add: path_key_hour path_key_day cs(1))
  have nr: "\<not> root_key ?k" by (auto simp: root_key_def hour_name_def append_eq_Cons_conv)
  have "os_node s ?k \<noteq> Some Dir"
    using backup_layoutD(3) [OF lay, of "cs @ [hour_name t]" Dir] nr hour_name_dotted by auto
  moreover have "\<not> below_file s ?k"
    by (rule layout_not_below_file [OF lay]) (use cs(2) in blast)
  ultimately show ?thesis
    using nf
    by (auto simp: read_file_by_hour_def os_read_all_def resolve_def key file_text_def cs(1)
        is_not_exist_def Let_def split: option.split node.split)
qed

text \<open>What the loop gathers: all the text, and for each hour that has some the range of its lines.\<close>

definition lines_before :: "(nat \<Rightarrow> string) \<Rightarrow> nat \<Rightarrow> nat" where
  "lines_before f h = lines_of (concat (map f [0..<h]))"

definition hour_range :: "(nat \<Rightarrow> string) \<Rightarrow> nat \<Rightarrow> string" where
  "hour_range f h = (if f h = [] then [] else summary_line h (int (lines_before f h)) (int (lines_of (f h))))"

lemma count_lines: "count_lines t = int (lines_of t)"
  by (simp add: count_lines_def length_split_on)

lemma collect_loop_ok:
  assumes "\<And>h. read_file_by_hour dp (day_with_hour day h) s = Inr (f h)" and "k \<le> n"
  shows "collect_loop dp day s [k..<n] (concat (map f [0..<k])) summary (int (lines_before f k)) =
    Inr (concat (map f [0..<n]), summary @ concat (map (hour_range f) [k..<n]))"
  using assms(2)
proof (induction "n - k" arbitrary: k summary)
  case 0
  then show ?case by simp
next
  case (Suc m)
  then have k: "[k..<n] = k # [Suc k..<n]" "m = n - Suc k" "Suc k \<le> n" by (simp_all add: upt_conv_Cons)
  have next_lines: "int (lines_before f k) + count_lines (f k) = int (lines_before f (Suc k))"
    by (simp add: lines_before_def count_lines)
  show ?case
    using Suc.hyps(1) [OF k(2,3), of summary]
      Suc.hyps(1) [OF k(2,3), of "summary @ summary_line k (int (lines_before f k)) (count_lines (f k))"]
      next_lines
    by (cases "f k = []") (simp_all add: k(1) assms(1) Let_def hour_range_def lines_before_def count_lines)
qed

lemma collect_hours_ok:
  assumes "no_faults s" and "backup_layout root s" and "host_ok host"
  shows "collect_hours (make_day_path root host day) day s =
    Inr (concat (map (hour_text root host day s) [0..<24]),
      concat (map (hour_range (hour_text root host day s)) [0..<24]))"
  using collect_loop_ok [of "make_day_path root host day" day s "hour_text root host day s" 0 24 "[]"]
    read_file_by_hour_ok [OF assms, of day]
  by (simp add: collect_hours_def hour_text_def lines_before_def)

section \<open>Archiving a host\<close>

definition archive_key :: "string \<Rightarrow> string \<Rightarrow> time \<Rightarrow> compression_factory \<Rightarrow> string list" where
  "archive_key root host day factory =
     host_key root host @ [date_utc day @ ''.json.lines'' @ factory_ext factory]"

definition meta_key :: "string \<Rightarrow> string \<Rightarrow> time \<Rightarrow> string list" where
  "meta_key root host day = host_key root host @ [date_utc day @ ''-parts-meta.txt'']"

lemma factory_ext_free: "CHR ''/'' \<notin> set (factory_ext factory)"
  by (cases factory) auto

lemma path_key_archive [fs_simps]:
  assumes "name_part host"
  shows "path_key (factory_filename factory (make_archive_day_path root host day))
      = archive_key root host day factory"
    and "path_key (path_dir (factory_filename factory (make_archive_day_path root host day)))
      = host_key root host"
  using path_join_file [of "[host]" "date_utc day @ ''.json.lines''" "factory_ext factory" root]
    assms date_utc_ext [of "''.json.lines''" day]
    date_utc_ext [of "''.json.lines'' @ factory_ext factory" day] factory_ext_free [of factory]
  by (simp_all add: fn.extends make_archive_day_path_def archive_key_def host_key_def)

lemma path_key_meta [fs_simps]:
  assumes "name_part host"
  shows "path_key (factory_filename NoneFactory (make_archive_day_meta_path root host day))
      = meta_key root host day"
    and "path_key (path_dir (factory_filename NoneFactory (make_archive_day_meta_path root host day)))
      = host_key root host"
  using path_join_file [of "[host]" "date_utc day @ ''-parts-meta.txt''" "[]" root]
    assms date_utc_ext [of "''-parts-meta.txt''" day]
  by (simp_all add: make_archive_day_meta_path_def meta_key_def host_key_def)

lemma host_comps:
  assumes "host_ok host"
  obtains cs where "\<And>root. host_key root host = path_key root @ cs" "length cs \<le> 1"
    "\<And>c. c \<in> set cs \<Longrightarrow> c \<noteq> [] \<and> CHR ''.'' \<notin> set c"
proof
  show "host_key root host = path_key root @ (if host = [] then [] else [host])" for root
    by (simp add: host_key_def)
  show "length (if host = [] then [] else [host]) \<le> 1" by simp
  show "c \<noteq> [] \<and> CHR ''.'' \<notin> set c" if "c \<in> set (if host = [] then [] else [host])" for c
    using assms that by (auto split: if_splits)
qed

lemma validate_dir_exist_ok:
  assumes nf: "no_faults s" and lay: "backup_layout root s" and host: "host_ok host"
  shows "validate_dir_exist (make_day_path root host day) s = None"
proof -
  obtain cs where cs: "\<And>root. day_key root host day = path_key root @ cs"
    "\<And>c. c \<in> set cs \<Longrightarrow> c \<noteq> [] \<and> CHR ''.'' \<notin> set c"
    using day_comps [OF host] by metis
  have key: "path_key (make_day_path root host day) = path_key root @ cs"
    using host by (simp add: path_key_day cs(1))
  have "\<not> below_file s (path_key root @ cs)"
    by (rule layout_not_below_file [OF lay]) (use cs(2) in blast)
  moreover have "os_node s (path_key root @ cs) = None \<or> os_node s (path_key root @ cs) = Some Dir"
    using layout_no_file_above [OF lay, of cs "length (path_key root @ cs)"] cs(2)
    by (metis node.exhaust option.exhaust take_all order_refl)
  ultimately show ?thesis
    using nf by (auto simp: validate_dir_exist_def os_stat_def resolve_def key is_not_exist_def
        split: option.split node.split)
qed

lemma layout_drop_below:
  assumes lay: "backup_layout root s" and d: "d = path_key root @ cs" "cs \<noteq> []"
  shows "backup_layout root (drop_nodes (below d) s)"
  unfolding backup_layout_iff
proof (intro conjI allI impI)
  show "tree_wf (drop_nodes (below d) s)" using tree_wf_drop_below [OF backup_layoutD(1) [OF lay]] .
  have "\<not> below d (path_key root)" using d by (auto simp: below_def dest: arg_cong [where f = length])
  then show "os_node (drop_nodes (below d) s) (path_key root) = Some Dir"
    using backup_layoutD(2) [OF lay] by (simp add: os_node_drop)
  fix ks n
  assume ks: "ks \<noteq> []" "os_node (drop_nodes (below d) s) (path_key root @ ks) = Some n"
    "\<not> root_key (path_key root @ ks)"
  then have "os_node s (path_key root @ ks) = Some n" by (auto simp: os_node_drop split: if_splits)
  then show "(n = Dir) = (CHR ''.'' \<notin> set (last ks))" using backup_layoutD(3) [OF lay ks(1,3)] by blast
qed

lemma made_dirs_host:
  assumes dirs: "made_dirs (path_key root @ cs) s s1" and lay: "backup_layout root s" and "length cs \<le> 1"
  shows "os_node s1 k = os_node s k
    \<or> k = path_key root @ cs \<and> os_node s k = None \<and> os_node s1 k = Some Dir"
proof (cases "os_node s1 k = os_node s k")
  case False
  with made_dirsD [OF dirs, of k] obtain i where i: "os_node s k = None" "os_node s1 k = Some Dir"
    "i \<le> length (path_key root @ cs)" "k = take i (path_key root @ cs)" by auto
  have "\<not> i \<le> length (path_key root)"
  proof
    assume "i \<le> length (path_key root)"
    then have "k = path_key root \<or> i < length (path_key root) \<and> k = take i (path_key root)"
      using i(4) by auto
    with i(1) backup_layoutD(2) [OF lay] tree_wf_prefix [OF backup_layoutD(1) [OF lay], of "path_key root" i]
    show False by auto
  qed
  with i(3) assms(3) have "i = length (path_key root @ cs)" by auto
  with i show ?thesis by simp
qed simp

text \<open>The three positions that archiving a day changes are apart.\<close>

lemma archive_positions:
  "archive_key root host day factory \<noteq> meta_key root host day"
  "\<not> below (day_key root host day) (archive_key root host day factory)"
  "\<not> below (day_key root host day) (meta_key root host day)"
  by (auto simp: archive_key_def meta_key_def day_key_host below_def)

lemma archive_host_result:
  assumes nf: "no_faults s" and lay: "backup_layout root s" and host: "host_ok host"
    and w: "factory_create gz zs factory = Inr w"
  shows "\<exists>s'. archive_host (factory_create gz zs) root host day factory s = (None, s') \<and>
    no_faults s' \<and> backup_layout root s' \<and>
    (let hours = hour_text root host day s; content = concat (map hours [0..<24])
     in file_text s' (archive_key root host day factory) = on_write w content @ on_close w content \<and>
        file_text s' (meta_key root host day) = concat (map (hour_range hours) [0..<24])) \<and>
    (\<forall>k. below (day_key root host day) k \<longrightarrow> os_node s' k = None) \<and>
    (\<forall>k. \<not> below (day_key root host day) k \<and> k \<noteq> archive_key root host day factory
       \<and> k \<noteq> meta_key root host day \<longrightarrow> os_node s' k = os_node s k
         \<or> k = host_key root host \<and> os_node s k = None \<and> os_node s' k = Some Dir)"
proof -
  obtain cs where cs: "\<And>root. host_key root host = path_key root @ cs" "length cs \<le> 1"
    "\<And>c. c \<in> set cs \<Longrightarrow> c \<noteq> [] \<and> CHR ''.'' \<notin> set c"
    using host_comps [OF host] by metis
  let ?content = "concat (map (hour_text root host day s) [0..<24])"
  let ?summary = "concat (map (hour_range (hour_text root host day s)) [0..<24])"
  let ?a = "archive_key root host day factory" and ?m = "meta_key root host day" and ?d = "day_key root host day"
  let ?fa = "factory_filename factory (make_archive_day_path root host day)"
  let ?fm = "factory_filename NoneFactory (make_archive_day_meta_path root host day)"
  have ka: "path_key ?fa = path_key root @ cs @ [date_utc day @ ''.json.lines'' @ factory_ext factory]"
    "path_key (path_dir ?fa) = path_key root @ cs"
    using path_key_archive host cs(1) by (simp_all add: archive_key_def)
  have km: "path_key ?fm = path_key root @ cs @ [date_utc day @ ''-parts-meta.txt'']"
    "path_key (path_dir ?fm) = path_key root @ cs"
    using path_key_meta [of host root day] host cs(1) by (simp_all add: meta_key_def)
  obtain s1 t1 where s1: "write_to_file (factory_create gz zs) (make_archive_day_path root host day)
      ?content factory s = (None, s1)" "no_faults s1" "backup_layout root s1"
    "made_dirs (path_key root @ cs) s t1"
    "\<And>k. os_node s1 k = (if k = path_key ?fa
       then Some (File (on_write w ?content @ on_close w ?content)) else os_node t1 k)"
    by (rule write_to_file_ok [where create = "factory_create gz zs" and f = ?fa
        and filename = "make_archive_day_path root host day" and lines = ?content, OF nf lay w refl ka cs(3)])
      (auto intro: that)
  obtain s2 t2 where s2: "write_to_file (factory_create gz zs) (make_archive_day_meta_path root host day)
      ?summary NoneFactory s1 = (None, s2)" "no_faults s2" "backup_layout root s2"
    "made_dirs (path_key root @ cs) s1 t2"
    "\<And>k. os_node s2 k = (if k = path_key ?fm then Some (File (on_write writer_wrapper ?summary
       @ on_close writer_wrapper ?summary)) else os_node t2 k)"
    by (rule write_to_file_ok [where create = "factory_create gz zs" and f = ?fm
        and filename = "make_archive_day_meta_path root host day" and lines = ?summary,
        OF s1(2,3) factory_create.simps(1) refl km cs(3)])
      (auto intro: that)
  define s' where "s' = drop_nodes (below ?d) s2"
  have rm: "os_remove_all s2 (make_day_path root host day) = (None, s')"
    using os_remove_all_ok [OF s2(2)] host by (simp add: path_key_day s'_def)
  have run: "archive_host (factory_create gz zs) root host day factory s = (None, s')"
    using validate_dir_exist_ok [OF nf lay host] collect_hours_ok [OF nf lay host] s1(1) s2(1) rm
    by (simp add: archive_host_def write_day_file_def write_hourly_summary_def Let_def)
  have lay': "backup_layout root s'"
    unfolding s'_def by (rule layout_drop_below [OF s2(3), of _ "cs @ [date_utc day]"]) (simp_all add: day_key_host cs(1))
  have pa: "path_key ?fa = ?a" and pm: "path_key ?fm = ?m"
    using path_key_archive path_key_meta host by simp_all
  have roots: "\<not> root_key k" if "below ?d k" for k
    using that date_utc_length [of day] by (auto simp: root_key_def below_def day_key_host split: if_splits)
  have node': "os_node s' k = (if below ?d k then None else os_node s2 k)" for k
    using roots by (auto simp: s'_def os_node_drop)
  have node2: "os_node s2 k = os_node s k \<or> k = host_key root host \<and> os_node s k = None \<and> os_node s2 k = Some Dir"
    if "k \<noteq> ?a" "k \<noteq> ?m" for k
    using s1(5) [of k] s2(5) [of k] that pa pm made_dirs_host [OF s1(4) lay cs(2), of k]
      made_dirs_host [OF s2(4) s1(3) cs(2), of k] cs(1) [of root] by auto
  have text2: "file_text s2 k = (if k = ?m then ?summary else
      if k = ?a then on_write w ?content @ on_close w ?content else file_text s k)" for k
    using s1(5) s2(5) made_dirs_text [OF s1(4), of k] made_dirs_text [OF s2(4), of k] pa pm
    by (simp add: file_text_def writer_wrapper_def)
  have text': "file_text s' k = file_text s2 k" if "\<not> below ?d k" for k
    using that node' by (simp add: file_text_def)
  show ?thesis
    using run lay' s2(2) node' text' text2 node2 archive_positions
    by (intro exI [of _ s']) (simp add: s'_def Let_def)
qed

text \<open>
  C6: with no refused call, archiving a host's day writes the texts of the 24 hour files one after the
  other into the day file, in the factory's compression, and the ranges of the hours into the summary;
  the directory of the day is gone, and nothing else changes but that the host has a directory.
\<close>

theorem archive_host_ok:
  assumes nf: "no_faults s" and lay: "backup_layout root s" and host: "host_ok host"
    and w: "factory_create gz zs factory = Inr w"
  shows "\<exists>s'. archive_host (factory_create gz zs) root host day factory s = (None, s') \<and>
    no_faults s' \<and> backup_layout root s' \<and>
    (let hours = hour_text root host day s; content = concat (map hours [0..<24])
     in file_text s' (archive_key root host day factory) = on_write w content @ on_close w content \<and>
        file_text s' (meta_key root host day) = concat (map (hour_range hours) [0..<24])) \<and>
    (\<forall>k. below (day_key root host day) k \<longrightarrow> os_node s' k = None) \<and>
    (\<forall>k. \<not> below (day_key root host day) k \<and> k \<noteq> archive_key root host day factory
       \<and> k \<noteq> meta_key root host day \<longrightarrow> os_node s' k = os_node s k
         \<or> k = host_key root host \<and> os_node s k = None \<and> os_node s' k = Some Dir)"
  using assms by (rule archive_host_result)

text \<open>A sample day: two hour files of one host.\<close>

abbreviation sample_day :: os where
  "sample_day \<equiv>
     \<lparr>tree = [([''bk''], Dir), ([''bk'', ''h''], Dir), ([''bk'', ''h'', ''1970-1-1''], Dir),
        ([''bk'', ''h'', ''1970-1-1'', ''0.json.lines''], File [CHR ''a'', newline, CHR ''b'', newline]),
        ([''bk'', ''h'', ''1970-1-1'', ''3.json.lines''], File [CHR ''c'', newline])],
      io_fault = (\<lambda>call k. None)\<rparr>"

lemma sample_day_ok: "no_faults sample_day" "backup_layout ''bk'' sample_day" "host_ok ''h''"
  "archive_key ''bk'' ''h'' 0 NoneFactory = [''bk'', ''h'', ''1970-1-1.json.lines'']"
  "day_key ''bk'' ''h'' 0 = [''bk'', ''h'', ''1970-1-1'']"
  by (simp add: no_faults_def) code_simp+

lemma archive_host_ok_witness:
  "\<exists>s'. archive_host (factory_create (\<lambda>l. writer_wrapper) (\<lambda>l. Inr writer_wrapper)) ''bk'' ''h'' 0
      NoneFactory sample_day = (None, s')
    \<and> file_text s' [''bk'', ''h'', ''1970-1-1.json.lines''] =
        concat (map (hour_text ''bk'' ''h'' 0 sample_day) [0..<24])
    \<and> os_node s' [''bk'', ''h'', ''1970-1-1''] = None"
proof -
  have "below [''bk'', ''h'', ''1970-1-1''] [''bk'', ''h'', ''1970-1-1'']" by (simp add: below_def)
  then show ?thesis
    using archive_host_ok [OF sample_day_ok(1-3) factory_create.simps(1),
        of "\<lambda>l. writer_wrapper" "\<lambda>l. Inr writer_wrapper" 0]
    unfolding Let_def sample_day_ok(4,5) writer_wrapper_def writer.simps append_Nil2 by blast
qed

section \<open>The hours of a summary\<close>

lemma hour_label:
  "hour_utc (day_with_hour day h) = itoa ((time_hour_of day + int h) mod 24)"
  by (simp add: hour_utc_def day_with_hour_def hour_of_truncate_add)

text \<open>
  label \<open>h\<close> of the summary belongs to the file of the hour \<open>h\<close> hours after that of \<open>day\<close>. The job
  runs at one in the morning, so label 0 belongs to the file of hour 1 and label 23 to that of hour 0.
\<close>

theorem hour_of_label:
  "hour_utc (day_with_hour day h) = itoa ((time_hour_of day + int h) mod 24)"
  by (rule hour_label)

text \<open>the 24 labels cover the 24 hours of the day, each once.\<close>

theorem all_hours_read:
  "set (map (\<lambda>h. hour_utc (day_with_hour day h)) [0..<24]) = itoa ` {0..<24}"
proof -
  have "(\<lambda>h. (time_hour_of day + int h) mod 24) ` {0..<24 :: nat} = {0..<24}"
  proof
    show "{0..<24} \<subseteq> (\<lambda>h. (time_hour_of day + int h) mod 24) ` {0..<24 :: nat}"
    proof
      fix x :: int
      assume x: "x \<in> {0..<24}"
      let ?h = "nat ((x - time_hour_of day) mod 24)"
      have "(time_hour_of day + int ?h) mod 24 = x"
        using x by (simp add: mod_simps)
      moreover have "?h \<in> {0..<24}" by (simp add: nat_less_iff)
      ultimately show "x \<in> (\<lambda>h. (time_hour_of day + int h) mod 24) ` {0..<24 :: nat}"
        by (intro image_eqI [where x = ?h]) (rule sym)
    qed
  qed auto
  then have "itoa ` {0..<24} = (\<lambda>h. itoa ((time_hour_of day + int h) mod 24)) ` {0..<24 :: nat}"
    by (metis image_image)
  then show ?thesis by (simp only: set_map set_upt hour_label)
qed

section \<open>A summary points at the lines of its hours\<close>

definition full_lines :: "string \<Rightarrow> bool" where
  "full_lines t = (t = [] \<or> last t = newline)"

definition text_lines :: "string \<Rightarrow> string list" where
  "text_lines t = butlast (split_on newline t)"

lemma text_lines_append:
  assumes "full_lines t"
  shows "text_lines (t @ u) = text_lines t @ text_lines u"
proof (cases "t = []")
  case True
  then show ?thesis by (simp add: text_lines_def)
next
  case False
  with assms obtain t' where t: "t = t' @ [newline]" by (metis append_butlast_last_id full_lines_def)
  show ?thesis
    using split_on_app [of newline t' u] split_on_app [of newline t' "[]"]
    by (simp add: t text_lines_def butlast_append)
qed

lemma length_text_lines: "length (text_lines t) = lines_of t"
  by (simp add: text_lines_def length_split_on)

lemma full_lines_append: "full_lines t \<Longrightarrow> full_lines u \<Longrightarrow> full_lines (t @ u)"
  by (cases "u = []") (auto simp: full_lines_def)

lemma full_lines_concat: "(\<And>t. t \<in> set ts \<Longrightarrow> full_lines t) \<Longrightarrow> full_lines (concat ts)"
proof (induction ts)
  case Nil
  then show ?case by (simp add: full_lines_def)
next
  case (Cons t ts)
  then show ?case by (simp add: full_lines_append)
qed

text \<open>
  C18: the archived text of an hour is found at the lines its entry of the summary names, as long as
  every hour file consists of full lines, which is all that the backup writes.
\<close>

theorem summary_points_at_lines:
  assumes "no_faults s" and "backup_layout root s" and "host_ok host"
    and full: "\<And>h. full_lines (hour_text root host day s h)"
    and h: "h < 24" "hour_text root host day s h \<noteq> []"
  shows "\<exists>content before after first count.
    collect_hours (make_day_path root host day) day s = Inr (content, before @ summary_line h first count @ after)
    \<and> take (nat count) (drop (nat first) (text_lines content)) = text_lines (hour_text root host day s h)"
proof -
  let ?f = "hour_text root host day s"
  have upt: "[0..<24] = [0..<h] @ h # [Suc h..<24]"
    using h(1) upt_add_eq_append [of 0 h "24 - h"] by (simp add: upt_conv_Cons)
  let ?pre = "concat (map ?f [0..<h])"
  have fl: "full_lines ?pre" by (rule full_lines_concat) (use full in auto)
  have "text_lines (concat (map ?f [0..<24])) =
      text_lines ?pre @ text_lines (?f h) @ text_lines (concat (map ?f [Suc h..<24]))"
    unfolding upt using fl full [of h] by (simp add: text_lines_append)
  then have "take (lines_of (?f h)) (drop (lines_before ?f h) (text_lines (concat (map ?f [0..<24]))))
      = text_lines (?f h)"
    using length_text_lines [of ?pre] length_text_lines [of "?f h"] by (simp add: lines_before_def)
  moreover have "concat (map (hour_range ?f) [0..<24]) = concat (map (hour_range ?f) [0..<h])
      @ summary_line h (int (lines_before ?f h)) (int (lines_of (?f h)))
      @ concat (map (hour_range ?f) [Suc h..<24])"
    unfolding upt using h(2) by (simp add: hour_range_def)
  ultimately show ?thesis
    using collect_hours_ok [OF assms(1-3), of day] by (metis nat_int)
qed

lemma summary_points_at_lines_witness:
  "\<exists>content before after first count.
    collect_hours (make_day_path ''bk'' ''h'' 0) 0 sample_day =
      Inr (content, before @ summary_line 3 first count @ after)
    \<and> take (nat count) (drop (nat first) (text_lines content)) = [''c'']"
proof -
  have "full_lines (file_text sample_day k)" for k
    by (simp add: file_text_def os_node_def full_lines_def)
  moreover have c: "hour_text ''bk'' ''h'' 0 sample_day 3 = [CHR ''c'', newline]"
    by code_simp
  ultimately show ?thesis
    using summary_points_at_lines [OF sample_day_ok(1-3), of 0 3]
    by (simp add: hour_text_def [of _ _ _ _ x for x] c text_lines_def)
qed

section \<open>Archiving a day that has no directory\<close>

lemma hour_text_missing:
  assumes "tree_wf s" and "os_node s (day_key root host day) = None"
  shows "hour_text root host day s h = []"
proof -
  have "os_node s (day_key root host day @ [hour_name (day_with_hour day h)]) = None"
    using tree_wf_node [OF assms(1), of "day_key root host day @ [hour_name (day_with_hour day h)]"] assms(2)
    by (cases "os_node s (day_key root host day @ [hour_name (day_with_hour day h)])") auto
  then show ?thesis by (simp add: hour_text_def file_text_def)
qed

text \<open>
  when the day has no directory, as after a first archiving of it, the archiver still writes: the
  day file and the summary, whatever they held, are replaced by those of no lines.
\<close>

theorem archive_missing_day:
  assumes "no_faults s" and "backup_layout root s" and "host_ok host"
    and "os_node s (day_key root host day) = None"
  shows "\<exists>s'. archive_host (factory_create gz zs) root host day NoneFactory s = (None, s') \<and>
    file_text s' (archive_key root host day NoneFactory) = [] \<and> file_text s' (meta_key root host day) = []"
proof -
  have "hour_text root host day s h = []" for h
    using hour_text_missing [OF backup_layoutD(1) [OF assms(2)] assms(4)] .
  then have "concat (map (hour_text root host day s) [0..<24]) = []"
    "concat (map (hour_range (hour_text root host day s)) [0..<24]) = []"
    by (simp_all add: hour_range_def del: upt_Suc)
  with archive_host_result [OF assms(1-3) factory_create.simps(1), of gz zs day]
  show ?thesis unfolding Let_def writer_wrapper_def writer.simps by auto
qed

lemma archive_missing_day_witness:
  "\<exists>s'. archive_host (factory_create (\<lambda>l. writer_wrapper) (\<lambda>l. Inr writer_wrapper)) ''bk'' ''h'' time_day
      NoneFactory sample_day = (None, s')
    \<and> file_text s' (archive_key ''bk'' ''h'' time_day NoneFactory) = []"
proof -
  have "os_node sample_day (day_key ''bk'' ''h'' time_day) = None" by code_simp
  from archive_missing_day [OF sample_day_ok(1-3) this, of "\<lambda>l. writer_wrapper" "\<lambda>l. Inr writer_wrapper"]
  show ?thesis by blast
qed

section \<open>Archiving every host\<close>

lemma host_ok_key: "host \<noteq> [] \<Longrightarrow> host_key root host = path_key root @ [host]"
  by (simp add: host_key_def)

lemma below_append:
  assumes "below (d @ e) k"
  shows "below d k"
proof -
  from assms have "take (length d) (take (length (d @ e)) k) = d" by (simp add: below_def)
  then show ?thesis by (simp add: below_def)
qed

lemma below_host:
  assumes "host \<noteq> []"
  shows "below (path_key root @ [host]) (archive_key root host day factory)"
    and "below (path_key root @ [host]) (meta_key root host day)"
    and "below (path_key root @ [host]) (day_key root host day @ ks)"
    and "below (day_key root host day) k \<Longrightarrow> below (path_key root @ [host]) k"
  using assms below_append [of "path_key root @ [host]" "[date_utc day]" k]
  by (simp_all add: archive_key_def meta_key_def day_key_host host_ok_key below_def)

lemma below_one_host: "below (d @ [a]) k \<Longrightarrow> below (d @ [b]) k \<Longrightarrow> a = b"
  by (auto simp: below_def)

definition archived :: "string \<Rightarrow> time \<Rightarrow> compression_factory \<Rightarrow> writer \<Rightarrow> os \<Rightarrow> os \<Rightarrow> string \<Rightarrow> bool" where
  "archived root day factory w s s' host =
     (file_text s' (archive_key root host day factory) =
        on_write w (concat (map (hour_text root host day s) [0..<24]))
        @ on_close w (concat (map (hour_text root host day s) [0..<24])) \<and>
      file_text s' (meta_key root host day) = concat (map (hour_range (hour_text root host day s)) [0..<24]) \<and>
      os_node s' (day_key root host day) = None)"

definition hosts_of :: "(string \<times> bool) list \<Rightarrow> string list" where
  "hosts_of files = map fst (filter snd files)"

definition below_hosts :: "string \<Rightarrow> string list \<Rightarrow> string list \<Rightarrow> bool" where
  "below_hosts root hosts k = list_ex (\<lambda>h. below (path_key root @ [h]) k) hosts"

lemma hour_text_cong:
  assumes "\<And>k. below (path_key root @ [host]) k \<Longrightarrow> file_text s' k = file_text s k" and "host \<noteq> []"
  shows "hour_text root host day s' = hour_text root host day s"
  using assms(1) below_host(3) [OF assms(2)] by (simp add: hour_text_def fun_eq_iff)

lemma archive_host_elsewhere:
  assumes "no_faults s" and "backup_layout root s" and "host_ok host" "host \<noteq> []"
    and "factory_create gz zs factory = Inr w"
  obtains s' where "archive_host (factory_create gz zs) root host day factory s = (None, s')"
    "no_faults s'" "backup_layout root s'" "archived root day factory w s s' host"
    "\<And>k. \<not> below (path_key root @ [host]) k \<Longrightarrow> os_node s' k = os_node s k"
proof -
  note ok = archive_host_result [OF assms(1-3,5), of day]
  have refl: "below (day_key root host day) (day_key root host day)"
    "below (path_key root @ [host]) (host_key root host)"
    using assms(4) by (simp_all add: below_def host_key_def)
  from ok obtain s' where s': "archive_host (factory_create gz zs) root host day factory s = (None, s')"
    "no_faults s'" "backup_layout root s'" "archived root day factory w s s' host"
    "\<And>k. \<not> below (day_key root host day) k \<Longrightarrow> k \<noteq> archive_key root host day factory
       \<Longrightarrow> k \<noteq> meta_key root host day \<Longrightarrow> os_node s' k = os_node s k
         \<or> k = host_key root host \<and> os_node s k = None \<and> os_node s' k = Some Dir"
    unfolding Let_def archived_def using refl(1) by blast
  have "os_node s' k = os_node s k" if "\<not> below (path_key root @ [host]) k" for k
    using s'(5) [of k] that below_host(1,2,4) [OF assms(4)] refl(2) by blast
  with that s'(1-4) show ?thesis by blast
qed

lemma archived_step:
  assumes "archived root day factory w s s' host" and "host \<noteq> []"
    and "\<And>k. below (path_key root @ [host]) k \<Longrightarrow> os_node t k = os_node s k"
    and "\<And>k. below (path_key root @ [host]) k \<Longrightarrow> os_node t' k = os_node s' k"
  shows "archived root day factory w t t' host"
proof -
  have "hour_text root host day t = hour_text root host day s"
    using assms(3) by (intro hour_text_cong assms(2)) (simp add: file_text_def)
  with assms(1,4) below_host [OF assms(2)] below_host(3) [OF assms(2), of root day "[]"] show ?thesis
    by (simp add: archived_def file_text_def)
qed

text \<open>Hosts do not disturb one another.\<close>

lemma archive_hosts_ok:
  assumes "no_faults s" and "backup_layout root s" and "distinct (hosts_of files)"
    and "\<And>h. h \<in> set (hosts_of files) \<Longrightarrow> host_ok h \<and> h \<noteq> []"
    and w: "factory_create gz zs factory = Inr w"
  shows "\<exists>s'. archive_hosts (factory_create gz zs) root files day factory s = (None, s')
    \<and> no_faults s' \<and> backup_layout root s'
    \<and> (\<forall>h \<in> set (hosts_of files). archived root day factory w s s' h)
    \<and> (\<forall>k. \<not> below_hosts root (hosts_of files) k \<longrightarrow> os_node s' k = os_node s k)"
  using assms(1-4)
proof (induction files arbitrary: s)
  case Nil
  then show ?case by (simp add: hosts_of_def)
next
  case (Cons f files)
  obtain h d where f: "f = (h, d)" by (cases f)
  show ?case
  proof (cases d)
    case False
    have same: "hosts_of (f # files) = hosts_of files" using f False by (simp add: hosts_of_def)
    show ?thesis using Cons.IH [OF Cons.prems(1,2)] Cons.prems(3,4) f False unfolding same by simp
  next
    case True
    have hs: "hosts_of (f # files) = h # hosts_of files" using f True by (simp add: hosts_of_def)
    have h: "host_ok h" "h \<noteq> []" "h \<notin> set (hosts_of files)"
      using Cons.prems(3) Cons.prems(4) [of h] unfolding hs by auto
    obtain t where t: "archive_host (factory_create gz zs) root h day factory s = (None, t)"
      "no_faults t" "backup_layout root t" "archived root day factory w s t h"
      "\<And>k. \<not> below (path_key root @ [h]) k \<Longrightarrow> os_node t k = os_node s k"
      using archive_host_elsewhere [OF Cons.prems(1,2) h(1,2) w] by metis
    obtain s' where s': "archive_hosts (factory_create gz zs) root files day factory t = (None, s')"
      "no_faults s'" "backup_layout root s'"
      "\<forall>h \<in> set (hosts_of files). archived root day factory w t s' h"
      "\<forall>k. \<not> below_hosts root (hosts_of files) k \<longrightarrow> os_node s' k = os_node t k"
      using Cons.IH [OF t(2,3)] Cons.prems(3,4) unfolding hs by auto
    have "archived root day factory w s s' h'" if "h' \<in> set (hosts_of files)" for h'
    proof -
      have "h' \<noteq> []" "h' \<noteq> h" using that h(3) Cons.prems(4) [of h'] unfolding hs by auto
      with s'(4) that show ?thesis
        by (intro archived_step [of root day factory w t s' h' s s'])
          (auto intro!: t(5) [symmetric] dest: below_one_host)
    qed
    moreover have "archived root day factory w s s' h"
    proof (rule archived_step [OF t(4) h(2)])
      show "os_node s' k = os_node t k" if "below (path_key root @ [h]) k" for k
      proof -
        have "\<not> below_hosts root (hosts_of files) k"
          using that h(3) below_one_host [OF that] unfolding below_hosts_def list_ex_iff by blast
        with s'(5) show ?thesis by blast
      qed
    qed simp
    moreover have "os_node s' k = os_node s k" if "\<not> below_hosts root (h # hosts_of files) k" for k
      using that s'(5) t(5) by (simp add: below_hosts_def)
    ultimately show ?thesis
      using t(1) s'(1-3) f True unfolding hs by (intro exI [of _ s']) simp
  qed
qed

text \<open>
  C7: archiving a day archives every host that has a directory, each from its own hour files as they
  were before, and changes nothing outside the directories of the hosts.
\<close>

theorem archive_day_ok:
  assumes "no_faults s" and "backup_layout root s" and w: "factory_create gz zs factory = Inr w"
    and "\<And>h. h \<in> set (hosts_of (dir_entries s (path_key root))) \<Longrightarrow> host_ok h \<and> h \<noteq> []"
  shows "\<exists>s'. archive_day (factory_create gz zs) root day factory s = (None, s')
    \<and> (\<forall>h \<in> set (hosts_of (dir_entries s (path_key root))). archived root day factory w s s' h)
    \<and> (\<forall>k. \<not> below_hosts root (hosts_of (dir_entries s (path_key root))) k \<longrightarrow> os_node s' k = os_node s k)"
proof -
  have root: "os_node s (path_key root) = Some Dir" using backup_layoutD(2) [OF assms(2)] .
  then have "os_read_dir s root = Inr (dir_entries s (path_key root))"
    using assms(1) tree_wf_not_below_file [OF backup_layoutD(1) [OF assms(2)], of "path_key root"]
    by (simp add: os_read_dir_def resolve_def)
  moreover have dist: "distinct (hosts_of (dir_entries s (path_key root)))"
    by (auto simp: hosts_of_def dir_entries_def comp_def distinct_map inj_on_def)
  ultimately show ?thesis
    using archive_hosts_ok [OF assms(1,2) dist assms(4) w, where day = day]
    by (simp add: archive_day_def) blast
qed

lemma archive_day_ok_witness:
  "\<exists>s'. archive_day (factory_create (\<lambda>l. writer_wrapper) (\<lambda>l. Inr writer_wrapper)) ''bk'' 0 NoneFactory
      sample_day = (None, s') \<and> archived ''bk'' 0 NoneFactory writer_wrapper sample_day s' ''h''"
proof -
  have hosts: "hosts_of (dir_entries sample_day (path_key ''bk'')) = [''h'']" by code_simp
  have "host_ok h \<and> h \<noteq> []" if "h \<in> set (hosts_of (dir_entries sample_day (path_key ''bk'')))" for h
    using that sample_day_ok(3) unfolding hosts by simp
  from archive_day_ok [OF sample_day_ok(1,2) factory_create.simps(1) this,
      of "\<lambda>l. writer_wrapper" "\<lambda>l. Inr writer_wrapper" 0]
  show ?thesis unfolding hosts by auto
qed

end
