(* ===== verification/Backup_Service.thy ===== *)
theory Backup_Service
  imports Archive
begin

text \<open>
  The backup service (\<open>backup/interface.go\<close>, \<open>null.go\<close>, \<open>single.go\<close>, \<open>service.go\<close>, \<open>factory.go\<close>): three
  directories, each with its queue of requests. The batcher and the cron table are third-party; of
  the batcher the queue of requests it has not yet handed to \<open>do\<close> is kept, in the order of the calls
  of \<open>Run\<close>, and it hands them out from the front in batches of any size. Each goroutine of \<open>SaveAsync\<close>
  is one step.
\<close>

section \<open>backup/single.go\<close>

record single_backup =
  sb_directory :: string
  sb_factory :: compression_factory
  sb_queue :: "param list"

definition new_single_file_backup :: "string \<Rightarrow> compression_factory \<Rightarrow> single_backup" where
  "new_single_file_backup directory factory =
     \<lparr>sb_directory = directory, sb_factory = factory, sb_queue = []\<rparr>"

text \<open>
  The goroutine of \<open>SaveAsync\<close>. The parameters are a map shared with the event: adding to them changes
  the event.
\<close>

definition for_archiving :: "event \<Rightarrow> url_values" where
  "for_archiving e =
     (let forArchiving = RequestParameters e; h = marshal_values forArchiving
      in values_add forArchiving ''request_headers'' h)"

definition single_save_async :: "event \<Rightarrow> single_backup \<Rightarrow> event \<times> single_backup" where
  "single_save_async e b =
     (e\<lparr>RequestParameters := for_archiving e\<rparr>,
      b\<lparr>sb_queue := sb_queue b @ [Values (for_archiving e)]\<rparr>)"

definition single_compress :: "(compression_factory \<Rightarrow> go_error + writer) \<Rightarrow> time \<Rightarrow> single_backup
    \<Rightarrow> os \<Rightarrow> os" where
  "single_compress create now b s =
     (let day = add_date now 0 0 (-1);
          (err, s) = archive_day create (sb_directory b) day (sb_factory b) s
      in s)"

text \<open>The batcher hands out its first \<open>n\<close> requests; \<open>Flush\<close> makes it hand out all of them.\<close>

definition single_batch :: "(string \<Rightarrow> time) \<Rightarrow> (string \<Rightarrow> bool) \<Rightarrow> (backup_list \<Rightarrow> string list) \<Rightarrow> nat
    \<Rightarrow> single_backup \<Rightarrow> os \<Rightarrow> (single_backup \<times> os) run" where
  "single_batch now closed order n b s =
     run_bind (backup_do now closed order (take n (sb_queue b)) (sb_directory b) s)
       (\<lambda>s. Value (b\<lparr>sb_queue := drop n (sb_queue b)\<rparr>, s))"

definition single_flush :: "(string \<Rightarrow> time) \<Rightarrow> (string \<Rightarrow> bool) \<Rightarrow> (backup_list \<Rightarrow> string list)
    \<Rightarrow> single_backup \<Rightarrow> os \<Rightarrow> (single_backup \<times> os) run" where
  "single_flush now closed order b s = single_batch now closed order (length (sb_queue b)) b s"

section \<open>backup/service.go and backup/null.go\<close>

datatype backup_type = Archive_backup | Expired_backup | Unknown_backup

record file_backup =
  fb_archive :: single_backup
  fb_expired :: single_backup
  fb_unknown :: single_backup

datatype backup = NullBackup | FileBackup file_backup

definition new_file_backup :: "single_backup \<Rightarrow> single_backup \<Rightarrow> single_backup \<Rightarrow> file_backup" where
  "new_file_backup archive expired unknown =
     \<lparr>fb_archive = archive, fb_expired = expired, fb_unknown = unknown\<rparr>"

definition compress_day :: "(compression_factory \<Rightarrow> go_error + writer) \<Rightarrow> (backup_type \<Rightarrow> time)
    \<Rightarrow> file_backup \<Rightarrow> os \<Rightarrow> os" where
  "compress_day create now b s =
     (let s = single_compress create (now Archive_backup) (fb_archive b) s;
          s = single_compress create (now Expired_backup) (fb_expired b) s
      in single_compress create (now Unknown_backup) (fb_unknown b) s)"

fun save_async :: "event \<Rightarrow> backup \<Rightarrow> event \<times> backup" where
  "save_async e NullBackup = (e, NullBackup)"
| "save_async e (FileBackup b) =
     (let (e, a) = single_save_async e (fb_archive b) in (e, FileBackup (b\<lparr>fb_archive := a\<rparr>)))"

fun save_expired :: "event \<Rightarrow> backup \<Rightarrow> event \<times> backup" where
  "save_expired e NullBackup = (e, NullBackup)"
| "save_expired e (FileBackup b) =
     (let (e, a) = single_save_async e (fb_expired b) in (e, FileBackup (b\<lparr>fb_expired := a\<rparr>)))"

fun save_unknown :: "event \<Rightarrow> backup \<Rightarrow> event \<times> backup" where
  "save_unknown e NullBackup = (e, NullBackup)"
| "save_unknown e (FileBackup b) =
     (let (e, a) = single_save_async e (fb_unknown b) in (e, FileBackup (b\<lparr>fb_unknown := a\<rparr>)))"

fun flush :: "(string \<Rightarrow> time) \<Rightarrow> (string \<Rightarrow> bool) \<Rightarrow> (backup_list \<Rightarrow> string list) \<Rightarrow> backup \<Rightarrow> os
    \<Rightarrow> (backup \<times> os) run" where
  "flush now closed order NullBackup s = Value (NullBackup, s)"
| "flush now closed order (FileBackup b) s =
     run_bind (single_flush now closed order (fb_archive b) s) (\<lambda>(a, s).
     run_bind (single_flush now closed order (fb_expired b) s) (\<lambda>(e, s).
     run_bind (single_flush now closed order (fb_unknown b) s) (\<lambda>(u, s).
       Value (FileBackup \<lparr>fb_archive = a, fb_expired = e, fb_unknown = u\<rparr>, s))))"

section \<open>backup/factory.go\<close>

fun backup_type_name :: "backup_type \<Rightarrow> string" where
  "backup_type_name Archive_backup = ''archive''"
| "backup_type_name Expired_backup = ''expired''"
| "backup_type_name Unknown_backup = ''unknown''"

definition make_single :: "backup_type \<Rightarrow> string \<Rightarrow> compression_factory \<Rightarrow> os
    \<Rightarrow> (go_error + single_backup) \<times> os" where
  "make_single singleBackupType baseDirectory compressionFactory s =
     (let directory = path_join [baseDirectory, backup_type_name singleBackupType]
      in case os_mkdir_all s directory of
           (Some err, s) \<Rightarrow> (Inl (''cannot create directory['' @ directory @ '']''), s)
         | (None, s) \<Rightarrow> (Inr (new_single_file_backup directory compressionFactory), s))"

definition new_backup :: "bool \<Rightarrow> string \<Rightarrow> compression_factory \<Rightarrow> os \<Rightarrow> (go_error + backup) \<times> os" where
  "new_backup enabled baseDirectory compressionFactory s =
     (if \<not> enabled then (Inr NullBackup, s)
      else case make_single Archive_backup baseDirectory compressionFactory s of
        (Inl err, s) \<Rightarrow> (Inl err, s)
      | (Inr archive, s) \<Rightarrow>
          (case make_single Expired_backup baseDirectory compressionFactory s of
             (Inl err, s) \<Rightarrow> (Inl err, s)
           | (Inr expired, s) \<Rightarrow>
               (case make_single Unknown_backup baseDirectory compressionFactory s of
                  (Inl err, s) \<Rightarrow> (Inl err, s)
                | (Inr unknown, s) \<Rightarrow> (Inr (FileBackup (new_file_backup archive expired unknown)), s))))"

lemmas backup_service_defs [go_defs] = new_single_file_backup_def for_archiving_def
  single_save_async_def single_compress_def single_batch_def single_flush_def new_file_backup_def
  compress_day_def make_single_def new_backup_def

section \<open>The contract of a backup\<close>

text \<open>
  What the callers rely on: a save concerns one of the three backups only, and puts at most one
  request at the end of its queue.
\<close>

locale backup_contract =
  fixes save :: "backup_type \<Rightarrow> event \<Rightarrow> 'b \<Rightarrow> 'b"
    and queue :: "backup_type \<Rightarrow> 'b \<Rightarrow> param list"
  assumes save_other: "k' \<noteq> k \<Longrightarrow> queue k' (save k e b) = queue k' b"
    and save_own: "queue k (save k e b) = queue k b \<or> (\<exists>p. queue k (save k e b) = queue k b @ [p])"
begin

fun saves :: "(backup_type \<times> event) list \<Rightarrow> 'b \<Rightarrow> 'b" where
  "saves [] b = b"
| "saves ((k, e) # kes) b = saves kes (save k e b)"

lemma saves_extend: "\<exists>ps. queue k (saves kes b) = queue k b @ ps
  \<and> length ps \<le> length (filter (\<lambda>ke. fst ke = k) kes)"
proof (induction kes b rule: saves.induct)
  case (1 b)
  then show ?case by simp
next
  case (2 k' e kes b)
  then obtain ps where ps: "queue k (saves kes (save k' e b)) = queue k (save k' e b) @ ps"
    "length ps \<le> length (filter (\<lambda>ke. fst ke = k) kes)" by blast
  show ?case
  proof (cases "k = k'")
    case True
    with ps save_own [of k' e b] show ?thesis by fastforce
  next
    case False
    with ps save_other [of k k' e b] show ?thesis by auto
  qed
qed

end

fun save_event :: "backup_type \<Rightarrow> event \<Rightarrow> backup \<Rightarrow> event \<times> backup" where
  "save_event Archive_backup e b = save_async e b"
| "save_event Expired_backup e b = save_expired e b"
| "save_event Unknown_backup e b = save_unknown e b"

fun single_of :: "backup_type \<Rightarrow> file_backup \<Rightarrow> single_backup" where
  "single_of Archive_backup b = fb_archive b"
| "single_of Expired_backup b = fb_expired b"
| "single_of Unknown_backup b = fb_unknown b"

fun backup_queue :: "backup_type \<Rightarrow> backup \<Rightarrow> param list" where
  "backup_queue k NullBackup = []"
| "backup_queue k (FileBackup b) = sb_queue (single_of k b)"

interpretation bk: backup_contract "\<lambda>k e b. snd (save_event k e b)" backup_queue
proof
  fix k k' :: backup_type and e :: event and b :: backup
  show "k' \<noteq> k \<Longrightarrow> backup_queue k' (snd (save_event k e b)) = backup_queue k' b"
    by (cases b; cases k; cases k') (simp_all add: single_save_async_def)
  show "backup_queue k (snd (save_event k e b)) = backup_queue k b
    \<or> (\<exists>p. backup_queue k (snd (save_event k e b)) = backup_queue k b @ [p])"
    by (cases b; cases k) (simp_all add: single_save_async_def)
qed

section \<open>What is archived of a request\<close>

text \<open>
  The record of a request does not depend on its headers: under the name \<open>request_headers\<close> it
  archives the JSON of the parameters, or what the request itself sent under that name.
\<close>

theorem archived_headers:
  "snd (single_save_async (e\<lparr>Headers := h\<rparr>) b) = snd (single_save_async e b) \<and>
   values_get (for_archiving e) ''request_headers'' =
     (if values_lookup (RequestParameters e) ''request_headers'' = [] then marshal_values (RequestParameters e)
      else values_get (RequestParameters e) ''request_headers'')"
  by (simp add: single_save_async_def for_archiving_def Let_def values_get_add)

section \<open>A new backup\<close>

definition backup_dir :: "backup_type \<Rightarrow> string \<Rightarrow> string" where
  "backup_dir k base = path_join [base, backup_type_name k]"

lemma path_key_backup_dir: "path_key (backup_dir k base) = path_key base @ [backup_type_name k]"
proof -
  have "name_part p" if "p \<in> set [backup_type_name k]" for p
    using that by (cases k) (auto simp: name_part_def plain_name_def)
  from path_key_join [of "[backup_type_name k]" base, OF this] show ?thesis
    by (cases k) (simp_all add: backup_dir_def)
qed

lemma backup_dirs_apart:
  assumes "k \<noteq> k'" and "below (path_key (backup_dir k base)) p"
  shows "\<not> below (path_key (backup_dir k' base)) p"
  using assms below_one_host [where d = "path_key base" and a = "backup_type_name k" and b = "backup_type_name k'" and k = p]
  unfolding path_key_backup_dir by (cases k; cases k') auto

text \<open>A layout is not disturbed by changes elsewhere.\<close>

lemma backup_layout_cong:
  assumes "backup_layout root s" and "tree_wf s'"
    and "\<And>k. below (path_key root) k \<Longrightarrow> os_node s' k = os_node s k"
  shows "backup_layout root s'"
  using assms(1,2) assms(3) unfolding backup_layout_iff by (auto simp: below_def)

definition backup_ok :: "string \<Rightarrow> file_backup \<Rightarrow> os \<Rightarrow> bool" where
  "backup_ok base b s = (no_faults s \<and>
     list_all (\<lambda>k. sb_directory (single_of k b) = backup_dir k base \<and> backup_layout (backup_dir k base) s)
       [Archive_backup, Expired_backup, Unknown_backup])"

lemma backup_ok_iff:
  "backup_ok base b s \<longleftrightarrow> no_faults s \<and>
     (\<forall>k. sb_directory (single_of k b) = backup_dir k base \<and> backup_layout (backup_dir k base) s)"
proof -
  have "(\<forall>k. P k) \<longleftrightarrow> P Archive_backup \<and> P Expired_backup \<and> P Unknown_backup" for P
    by (metis backup_type.exhaust)
  then show ?thesis by (simp add: backup_ok_def)
qed

lemma hour_key_below: "below (path_key root) (hour_key root h t)"
  by (simp add: below_def hour_key_def day_key_def)

text \<open>
  One batch of one of the three: its hour files get the records, the files of the other two are left
  alone, and the layouts stay.
\<close>

lemma single_batch_ok:
  assumes ok: "backup_ok base b s" and ps: "params_ok (take n (sb_queue (single_of k b)))"
    and order: "\<And>m. map_order m (order m)"
  obtains s' where "single_batch now closed order n (single_of k b) s =
      Value (single_of k b\<lparr>sb_queue := drop n (sb_queue (single_of k b))\<rparr>, s')"
    "no_faults s'" "\<And>k'. backup_layout (backup_dir k' base) s'"
    "\<And>k' h. file_text s' (hour_key (backup_dir k' base) h (now h)) =
       file_text s (hour_key (backup_dir k' base) h (now h))
       @ (if k' = k \<and> \<not> closed h then host_lines (take n (sb_queue (single_of k b))) h else [])"
proof -
  let ?ps = "take n (sb_queue (single_of k b))" and ?d = "backup_dir k base"
  have nf: "no_faults s" and lay: "backup_layout (backup_dir k' base) s"
    and dir: "sb_directory (single_of k b) = ?d" for k'
    using ok by (simp_all add: backup_ok_iff)
  obtain s' where s': "backup_do now closed order ?ps ?d s = Value s'" "no_faults s'" "backup_layout ?d s'"
    "\<And>h. file_text s' (hour_key ?d h (now h)) =
       file_text s (hour_key ?d h (now h)) @ (if closed h then [] else host_lines ?ps h)"
    using backup_do_text [OF nf lay ps order, of now closed] by blast
  have "rooted_at ?d s"
    unfolding rooted_at_iff using tree_wf_prefix [OF backup_layoutD(1) [OF lay]] backup_layoutD(2) [OF lay]
    by (metis (no_types, lifting) linorder_not_less option.distinct(1) take_all)
  from backup_do_outside [OF s'(1) this order]
  have out: "\<not> below (path_key ?d) p \<Longrightarrow> os_node s' p = os_node s p" for p .
  have other: "os_node s' p = os_node s p" if "k' \<noteq> k" "below (path_key (backup_dir k' base)) p" for k' p
    using out backup_dirs_apart [OF that] by blast
  have lay': "backup_layout (backup_dir k' base) s'" for k'
  proof (cases "k' = k")
    case False
    then show ?thesis
      using backup_layout_cong [OF lay backup_layoutD(1) [OF s'(3)]] other by blast
  qed (use s'(3) in simp)
  have files: "file_text s' (hour_key (backup_dir k' base) h (now h)) =
       file_text s (hour_key (backup_dir k' base) h (now h))
       @ (if k' = k \<and> \<not> closed h then host_lines ?ps h else [])" for k' h
  proof (cases "k' = k")
    case False
    then show ?thesis using other [OF False hour_key_below] by (simp add: file_text_def)
  qed (use s'(4) in simp)
  have "single_batch now closed order n (single_of k b) s =
      Value (single_of k b\<lparr>sb_queue := drop n (sb_queue (single_of k b))\<rparr>, s')"
    using s'(1) by (simp add: single_batch_def dir)
  from that [OF this s'(2) lay' files] show ?thesis .
qed

fun set_single :: "backup_type \<Rightarrow> single_backup \<Rightarrow> file_backup \<Rightarrow> file_backup" where
  "set_single Archive_backup x b = b\<lparr>fb_archive := x\<rparr>"
| "set_single Expired_backup x b = b\<lparr>fb_expired := x\<rparr>"
| "set_single Unknown_backup x b = b\<lparr>fb_unknown := x\<rparr>"

lemma single_of_set [simp]: "single_of k' (set_single k x b) = (if k' = k then x else single_of k' b)"
  by (cases k; cases k') simp_all

text \<open>The state after a batch of one of the three, as far as the other operations see it.\<close>

lemma single_batch_step:
  assumes ok: "backup_ok base b s" and ps: "params_ok (take n (sb_queue (single_of k b)))"
    and order: "\<And>m. map_order m (order m)"
  obtains x s' where "single_batch now (\<lambda>h. False) order n (single_of k b) s = Value (x, s')"
    "sb_queue x = drop n (sb_queue (single_of k b))" "backup_ok base (set_single k x b) s'"
    "\<And>k' h. file_text s' (hour_key (backup_dir k' base) h (now h)) =
       file_text s (hour_key (backup_dir k' base) h (now h))
       @ (if k' = k then host_lines (take n (sb_queue (single_of k b))) h else [])"
proof -
  let ?x = "single_of k b\<lparr>sb_queue := drop n (sb_queue (single_of k b))\<rparr>"
  obtain s' where s': "single_batch now (\<lambda>h. False) order n (single_of k b) s = Value (?x, s')" "no_faults s'"
    "\<And>k'. backup_layout (backup_dir k' base) s'"
    "\<And>k' h. file_text s' (hour_key (backup_dir k' base) h (now h)) =
       file_text s (hour_key (backup_dir k' base) h (now h))
       @ (if k' = k \<and> \<not> False then host_lines (take n (sb_queue (single_of k b))) h else [])"
    using single_batch_ok [OF ok ps order, where closed = "\<lambda>h. False" and now = now] by metis
  have "backup_ok base (set_single k ?x b) s'" using ok s'(2,3) by (simp add: backup_ok_iff)
  with that [OF s'(1) _ this] s'(4) show ?thesis by simp
qed

section \<open>Flushing\<close>

lemma flush_ok:
  assumes ok: "backup_ok base b s" and ps: "\<And>k. params_ok (sb_queue (single_of k b))"
    and order: "\<And>m. map_order m (order m)"
  shows "\<exists>b' s'. flush now (\<lambda>h. False) order (FileBackup b) s = Value (FileBackup b', s')
    \<and> backup_ok base b' s' \<and> (\<forall>k. sb_queue (single_of k b') = [])
    \<and> (\<forall>k h. file_text s' (hour_key (backup_dir k base) h (now h)) =
         file_text s (hour_key (backup_dir k base) h (now h)) @ host_lines (sb_queue (single_of k b)) h)"
proof -
  let ?q = "\<lambda>k. sb_queue (single_of k b)"
  have p: "params_ok (take n (?q k))" for n k using ps [of k] by (auto simp: params_ok_def list_all_iff dest: in_set_takeD)
  obtain x1 s1 where 1: "single_batch now (\<lambda>h. False) order (length (?q Archive_backup)) (fb_archive b) s = Value (x1, s1)"
    "sb_queue x1 = []" "backup_ok base (set_single Archive_backup x1 b) s1"
    "\<And>k' h. file_text s1 (hour_key (backup_dir k' base) h (now h)) =
       file_text s (hour_key (backup_dir k' base) h (now h))
       @ (if k' = Archive_backup then host_lines (?q Archive_backup) h else [])"
    by (rule single_batch_step [OF ok p [of "length (?q Archive_backup)" Archive_backup] order, where now = now])
      (simp_all add: that)
  let ?b1 = "set_single Archive_backup x1 b"
  have q1: "params_ok (take n (sb_queue (single_of Expired_backup ?b1)))" for n using p [of n Expired_backup] by simp
  obtain x2 s2 where 2: "single_batch now (\<lambda>h. False) order (length (?q Expired_backup)) (fb_expired b) s1 = Value (x2, s2)"
    "sb_queue x2 = []" "backup_ok base (set_single Expired_backup x2 ?b1) s2"
    "\<And>k' h. file_text s2 (hour_key (backup_dir k' base) h (now h)) =
       file_text s1 (hour_key (backup_dir k' base) h (now h))
       @ (if k' = Expired_backup then host_lines (?q Expired_backup) h else [])"
    by (rule single_batch_step [OF 1(3) q1 [of "length (?q Expired_backup)"] order, where now = now]) (simp_all add: that)
  let ?b2 = "set_single Expired_backup x2 ?b1"
  have q2: "params_ok (take n (sb_queue (single_of Unknown_backup ?b2)))" for n using p [of n Unknown_backup] by simp
  obtain x3 s3 where 3: "single_batch now (\<lambda>h. False) order (length (?q Unknown_backup)) (fb_unknown b) s2 = Value (x3, s3)"
    "sb_queue x3 = []" "backup_ok base (set_single Unknown_backup x3 ?b2) s3"
    "\<And>k' h. file_text s3 (hour_key (backup_dir k' base) h (now h)) =
       file_text s2 (hour_key (backup_dir k' base) h (now h))
       @ (if k' = Unknown_backup then host_lines (?q Unknown_backup) h else [])"
    by (rule single_batch_step [OF 2(3) q2 [of "length (?q Unknown_backup)"] order, where now = now]) (simp_all add: that)
  let ?b3 = "set_single Unknown_backup x3 ?b2"
  have b3: "?b3 = \<lparr>fb_archive = x1, fb_expired = x2, fb_unknown = x3\<rparr>" by simp
  have "flush now (\<lambda>h. False) order (FileBackup b) s = Value (FileBackup ?b3, s3)"
    using 1(1) 2(1) 3(1) by (simp add: single_flush_def)
  moreover have "sb_queue (single_of k ?b3) = []" for k using 1(2) 2(2) 3(2) by (cases k) simp_all
  moreover have "file_text s3 (hour_key (backup_dir k base) h (now h)) =
         file_text s (hour_key (backup_dir k base) h (now h)) @ host_lines (?q k) h" for k h
    unfolding 3(4) 2(4) 1(4) by (cases k) simp_all
  ultimately show ?thesis using 3(3) by blast
qed

text \<open>
  Before shutdown, flushing brings the queued requests of all three backups to their files and leaves
  no queue.
\<close>

theorem flush_empties:
  assumes ok: "backup_ok base b s" and ps: "\<And>k. params_ok (sb_queue (single_of k b))"
    and order: "\<And>m. map_order m (order m)"
  shows "\<exists>b' s'. flush now (\<lambda>h. False) order (FileBackup b) s = Value (FileBackup b', s')
    \<and> backup_ok base b' s' \<and> (\<forall>k. sb_queue (single_of k b') = [])
    \<and> (\<forall>k h. file_text s' (hour_key (backup_dir k base) h (now h)) =
         file_text s (hour_key (backup_dir k base) h (now h)) @ host_lines (sb_queue (single_of k b)) h)"
  using assms by (rule flush_ok)

text \<open>An event of a beacon with a URL, queued in the archive of an empty backup in \<open>bk\<close>.\<close>

abbreviation sample_backup :: "param list \<Rightarrow> file_backup" where
  "sample_backup q \<equiv> \<lparr>fb_archive = \<lparr>sb_directory = ''bk/archive'', sb_factory = NoneFactory, sb_queue = q\<rparr>,
     fb_expired = \<lparr>sb_directory = ''bk/expired'', sb_factory = NoneFactory, sb_queue = []\<rparr>,
     fb_unknown = \<lparr>sb_directory = ''bk/unknown'', sb_factory = NoneFactory, sb_queue = []\<rparr>\<rparr>"

abbreviation sample_dirs :: os where
  "sample_dirs \<equiv> \<lparr>tree = [([''bk''], Dir), ([''bk'', ''archive''], Dir), ([''bk'', ''expired''], Dir),
     ([''bk'', ''unknown''], Dir)], io_fault = (\<lambda>call k. None)\<rparr>"

lemma sample_dirs_layout: "backup_layout ''bk/archive'' sample_dirs" "backup_layout ''bk/expired'' sample_dirs"
  "backup_layout ''bk/unknown'' sample_dirs"
  by code_simp+

lemma sample_dirs_names: "backup_dir Archive_backup ''bk'' = ''bk/archive''"
  "backup_dir Expired_backup ''bk'' = ''bk/expired''" "backup_dir Unknown_backup ''bk'' = ''bk/unknown''"
  by code_simp+

lemma sample_backup_ok: "backup_ok ''bk'' (sample_backup q) sample_dirs"
  using sample_dirs_layout sample_dirs_names by (simp add: backup_ok_def no_faults_def)

lemma flush_empties_witness:
  "\<exists>b' s'. flush (\<lambda>h. 0) (\<lambda>h. False) (\<lambda>m. remdups (map fst m)) (FileBackup (sample_backup sample_params))
      sample_dirs = Value (FileBackup b', s')
    \<and> file_text s' (hour_key ''bk/archive'' ''a_b'' 0) =
        file_text sample_dirs (hour_key ''bk/archive'' ''a_b'' 0) @ host_lines sample_params ''a_b''"
proof -
  have q: "params_ok (sb_queue (single_of k (sample_backup sample_params)))" for k
    using sample_ok(3) by (cases k) (simp_all add: params_ok_def)
  obtain b' s' where r: "flush (\<lambda>h. 0) (\<lambda>h. False) (\<lambda>m. remdups (map fst m))
      (FileBackup (sample_backup sample_params)) sample_dirs = Value (FileBackup b', s')"
    "\<forall>k h. file_text s' (hour_key (backup_dir k ''bk'') h 0) = file_text sample_dirs (hour_key (backup_dir k ''bk'') h 0)
        @ host_lines (sb_queue (single_of k (sample_backup sample_params))) h"
    using flush_empties [OF sample_backup_ok q sample_ok(4), where now = "\<lambda>h. 0"] by blast
  from r(2) [rule_format, of Archive_backup "''a_b''"]
  have "file_text s' (hour_key ''bk/archive'' ''a_b'' 0) =
        file_text sample_dirs (hour_key ''bk/archive'' ''a_b'' 0) @ host_lines sample_params ''a_b''"
    by (simp only: sample_dirs_names single_of.simps file_backup.simps single_backup.simps)
  with r(1) show ?thesis by blast
qed

section \<open>Saving, batching and the files\<close>

text \<open>
  The steps of a running backup while an hour lasts: a goroutine of a save reaches the batcher, or the
  batcher hands out a batch. The last component of a state records what has been saved.
\<close>

type_synonym backup_state = "file_backup \<times> os \<times> (backup_type \<Rightarrow> param list)"

inductive backup_step :: "(string \<Rightarrow> time) \<Rightarrow> (backup_list \<Rightarrow> string list) \<Rightarrow> backup_state \<Rightarrow> backup_state \<Rightarrow> bool"
  for now order where
  save: "save_event k e (FileBackup b) = (e', FileBackup b') \<Longrightarrow>
     backup_step now order (b, s, saved) (b', s, saved(k := saved k @ [Values (for_archiving e)]))"
| batch: "single_batch now (\<lambda>h. False) order n (single_of k b) s = Value (x, s') \<Longrightarrow>
     backup_step now order (b, s, saved) (set_single k x b, s', saved)"

inductive backup_runs :: "(string \<Rightarrow> time) \<Rightarrow> (backup_list \<Rightarrow> string list) \<Rightarrow> backup_state \<Rightarrow> backup_state \<Rightarrow> bool"
  for now order where
  here: "backup_runs now order st st"
| step: "backup_runs now order st st' \<Longrightarrow> backup_step now order st' st'' \<Longrightarrow> backup_runs now order st st''"

lemma save_event_file:
  "save_event k e (FileBackup b) = (e\<lparr>RequestParameters := for_archiving e\<rparr>,
     FileBackup (set_single k (single_of k b\<lparr>sb_queue := sb_queue (single_of k b) @ [Values (for_archiving e)]\<rparr>) b))"
  by (cases k) (simp_all add: single_save_async_def)

definition accounted :: "string \<Rightarrow> (string \<Rightarrow> time) \<Rightarrow> os \<Rightarrow> backup_state \<Rightarrow> bool" where
  "accounted base now s0 st = (case st of (b, s, saved) \<Rightarrow>
     backup_ok base b s \<and> (\<forall>k h. file_text s (hour_key (backup_dir k base) h (now h)) @ host_lines (sb_queue (single_of k b)) h =
       file_text s0 (hour_key (backup_dir k base) h (now h)) @ host_lines (saved k) h))"

lemma accounted_step:
  assumes "backup_step now order st st'" and "accounted base now s0 st"
    and order: "\<And>m. map_order m (order m)"
  shows "accounted base now s0 st'"
  using assms(1)
proof cases
  case (save k e b e' b' s saved)
  then have b': "b' = set_single k (single_of k b\<lparr>sb_queue := sb_queue (single_of k b) @ [Values (for_archiving e)]\<rparr>) b"
    by (simp add: save_event_file)
  have lines: "file_text s (hour_key (backup_dir k' base) h (now h)) @ host_lines (sb_queue (single_of k' b)) h =
      file_text s0 (hour_key (backup_dir k' base) h (now h)) @ host_lines (saved k') h" for k' h
    using assms(2) save(1) by (simp add: accounted_def)
  have "backup_ok base b' s" using assms(2) save(1) by (simp add: accounted_def backup_ok_iff b')
  moreover have "file_text s (hour_key (backup_dir k' base) h (now h)) @ host_lines (sb_queue (single_of k' b')) h =
      file_text s0 (hour_key (backup_dir k' base) h (now h))
      @ host_lines ((saved(k := saved k @ [Values (for_archiving e)])) k') h" for k' h
    using lines [of k' h] by (cases "k' = k") (simp_all add: b' host_lines_append flip: append_assoc)
  ultimately show ?thesis unfolding save(2) accounted_def by simp
next
  case (batch n k b s x s' saved)
  have ok: "backup_ok base b s" using assms(2) batch(1) by (simp add: accounted_def)
  let ?ps = "take n (sb_queue (single_of k b))"
  have "\<not> panics (make_backup_list ?ps)"
    using batch(3) by (auto simp: single_batch_def backup_do_def run_bind_Value_iff)
  then have ps: "params_ok ?ps" using make_backup_list_lookup [of ?ps] by (auto split: if_splits)
  obtain x1 s1 where s1: "single_batch now (\<lambda>h. False) order n (single_of k b) s = Value (x1, s1)"
    "sb_queue x1 = drop n (sb_queue (single_of k b))" "backup_ok base (set_single k x1 b) s1"
    "\<And>k' h. file_text s1 (hour_key (backup_dir k' base) h (now h)) =
       file_text s (hour_key (backup_dir k' base) h (now h)) @ (if k' = k then host_lines ?ps h else [])"
    by (rule single_batch_step [OF ok ps order, where now = now]) (simp_all add: that)
  have x: "x = x1" "s' = s1" using batch(3) s1(1) by simp_all
  have split: "host_lines (sb_queue (single_of k b)) h = host_lines ?ps h @ host_lines (sb_queue x1) h" for h
    using host_lines_append [of ?ps "drop n (sb_queue (single_of k b))" h] by (simp add: s1(2))
  have "file_text s1 (hour_key (backup_dir k' base) h (now h)) @ host_lines (sb_queue (single_of k' (set_single k x1 b))) h =
      file_text s0 (hour_key (backup_dir k' base) h (now h)) @ host_lines (saved k') h" for k' h
  proof -
    have "file_text s1 (hour_key (backup_dir k' base) h (now h)) @ host_lines (sb_queue (single_of k' (set_single k x1 b))) h =
        file_text s (hour_key (backup_dir k' base) h (now h)) @ host_lines (sb_queue (single_of k' b)) h"
      by (cases "k' = k") (simp_all add: s1(4) split)
    also have "\<dots> = file_text s0 (hour_key (backup_dir k' base) h (now h)) @ host_lines (saved k') h"
      using assms(2) batch(1) by (simp add: accounted_def)
    finally show ?thesis .
  qed
  with s1(3) show ?thesis unfolding batch(2) accounted_def x by simp
qed



section \<open>A new backup keeps the invariant from the start\<close>

definition fresh :: "string \<Rightarrow> os \<Rightarrow> bool" where
  "fresh root s = list_all (\<lambda>k. \<not> below (path_key root) k) (map fst (tree s))"

lemma fresh_node: "fresh root s \<Longrightarrow> below (path_key root) k \<Longrightarrow> \<not> root_key k \<Longrightarrow> os_node s k = None"
  by (auto simp: fresh_def list_all_iff os_node_def map_of_eq_None_iff)

lemma layout_of_empty:
  assumes "tree_wf s" and "os_node s (path_key root) = Some Dir"
    and "\<And>ks. ks \<noteq> [] \<Longrightarrow> \<not> root_key (path_key root @ ks) \<Longrightarrow> os_node s (path_key root @ ks) = None"
  shows "backup_layout root s"
  unfolding backup_layout_iff using assms by auto

lemma backup_dir_not_root: "\<not> root_key (path_key (backup_dir k base) @ ks)"
  unfolding path_key_backup_dir by (cases k) (auto simp: root_key_def append_eq_Cons_conv)

lemma make_single_ok:
  assumes nf: "no_faults s" and wf: "tree_wf s" and base: "os_node s (path_key base) = Some Dir"
    and none: "\<And>ks. os_node s (path_key (backup_dir k base) @ ks) = None"
  obtains s' where "make_single k base f s = (Inr (new_single_file_backup (backup_dir k base) f), s')"
    "no_faults s'" "tree_wf s'" "backup_layout (backup_dir k base) s'"
    "\<And>p. \<not> below (path_key (backup_dir k base)) p \<Longrightarrow> os_node s' p = os_node s p"
proof -
  let ?d = "backup_dir k base"
  have key: "path_key ?d = path_key base @ [backup_type_name k]" by (rule path_key_backup_dir)
  have up: "os_node s (take i (path_key base)) = Some Dir" for i
    using tree_wf_prefix [OF wf, of "path_key base" i] base by (cases "i < length (path_key base)") auto
  have "os_node s (take i (path_key ?d)) \<noteq> Some (File t)" for i t
    using up [of i] none [of "[]"] by (cases "i \<le> length (path_key base)") (auto simp: key)
  then obtain s' where s': "os_mkdir_all s ?d = (None, s')" "made_dirs (path_key ?d) s s'" "no_faults s'"
    "tree_wf s \<Longrightarrow> tree_wf s'" "os_node s' (path_key ?d) = Some Dir"
    using os_mkdir_all_ok [OF nf, of ?d] by metis
  have out: "os_node s' p = os_node s p" if "p \<noteq> path_key ?d" for p
  proof (rule ccontr)
    assume "os_node s' p \<noteq> os_node s p"
    with made_dirsD [OF s'(2), of p] obtain i where i: "os_node s p = None" "p = take i (path_key ?d)" by auto
    with that have "i \<le> length (path_key base)" by (cases "i \<le> length (path_key base)") (auto simp: key)
    with i up [of i] show False by (simp add: key)
  qed
  have "backup_layout ?d s'"
    using s'(4) [OF wf] s'(5) out none by (intro layout_of_empty) auto
  moreover have "os_node s' p = os_node s p" if "\<not> below (path_key ?d) p" for p
    using that by (intro out) (auto simp: below_def)
  moreover have "make_single k base f s = (Inr (new_single_file_backup ?d f), s')"
    using s'(1) by (simp add: make_single_def backup_dir_def Let_def)
  ultimately show ?thesis using that s'(3) s'(4) [OF wf] by blast
qed



end
