(* ===== verification/Processing.thy ===== *)
theory Processing
  imports Subscriptions Backup_Service
begin

text \<open>
  The event processing (\<open>service/service.go\<close>). The state of a \<open>Service\<close> is its map of hosts, the cache of
  its subscription service, the database and the backup. The factory of events, the adapter and the
  subscription service are arguments. \<open>Run\<close> is a step relation: the goroutines of \<open>SaveAsync\<close> that wait
  at the unbuffered channel are a list from which \<open>select\<close> takes any, or the ticker fires.
\<close>

section \<open>The operations\<close>

type_synonym hosts = "(string \<times> string) list"

record 'd service =
  sv_hosts :: hosts
  sv_cache :: sub_cache
  sv_db :: 'd
  sv_backup :: backup

type_synonym 'd get_sub = "time \<Rightarrow> string \<Rightarrow> string \<Rightarrow> (sub_cache \<times> 'd, sub_answer) call"

definition new_service :: "sub_cache \<Rightarrow> 'd \<Rightarrow> backup \<Rightarrow> 'd service" where
  "new_service cache d b = \<lparr>sv_hosts = [], sv_cache = cache, sv_db = d, sv_backup = b\<rparr>"

text \<open>An error of \<open>Save\<close> is logged; the host is noted all the same.\<close>

definition process_rum_event :: "'d adapter \<Rightarrow> rum_event \<Rightarrow> 'd service \<Rightarrow> 'd service run" where
  "process_rum_event A rumEvent s =
     run_bind (ad_Save A rumEvent (sv_db s)) (\<lambda>(err, d).
       Value (s\<lparr>sv_db := d,
         sv_hosts := AList.update (re_Hostname rumEvent) (re_Created_At rumEvent) (sv_hosts s)\<rparr>))"

definition process_event :: "(event \<Rightarrow> rum_event run) \<Rightarrow> 'd adapter \<Rightarrow> 'd get_sub \<Rightarrow> time
    \<Rightarrow> event option \<Rightarrow> 'd service \<Rightarrow> 'd service run" where
  "process_event create A get now e s =
     (case e of None \<Rightarrow> Value s
      | Some e \<Rightarrow>
          run_bind (create e) (\<lambda>rumEvent.
          run_bind (get now (re_SubscriptionID rumEvent) (re_Hostname rumEvent) (sv_cache s, sv_db s))
            (\<lambda>((lookup, err), (c, d)).
              let s = s\<lparr>sv_cache := c, sv_db := d\<rparr>
              in if err \<noteq> None then Value s
                 else if lookup = found_lookup then process_rum_event A rumEvent s
                 else if lookup = expired_lookup then
                   Value (s\<lparr>sv_backup := snd (save_expired e (sv_backup s))\<rparr>)
                 else if lookup = not_found_lookup then
                   Value (s\<lparr>sv_backup := snd (save_unknown e (sv_backup s))\<rparr>)
                 else Value s)))"

definition save_host :: "'d adapter \<Rightarrow> string \<Rightarrow> string \<Rightarrow> 'd \<Rightarrow> 'd run" where
  "save_host A hostname createdAt d =
     run_bind (ad_SaveHost A (new_hostname_event hostname createdAt) d) (\<lambda>(err, d). Value d)"

fun save_hosts :: "'d adapter \<Rightarrow> hosts \<Rightarrow> 'd \<Rightarrow> 'd run" where
  "save_hosts A [] d = Value d"
| "save_hosts A ((hostname, createdAt) # hs) d =
     run_bind (save_host A hostname createdAt d) (\<lambda>d. save_hosts A hs d)"

definition clear_hosts :: "'d service \<Rightarrow> 'd service" where
  "clear_hosts s = s\<lparr>sv_hosts := []\<rparr>"

text \<open>The map is ranged over in an order the runtime chooses: \<open>order\<close> lists the hosts.\<close>

definition process_hosts :: "'d adapter \<Rightarrow> (hosts \<Rightarrow> string list) \<Rightarrow> 'd service \<Rightarrow> 'd service run" where
  "process_hosts A order s =
     run_bind (save_hosts A (map (\<lambda>h. (h, the (map_of (sv_hosts s) h))) (order (sv_hosts s))) (sv_db s))
       (\<lambda>d. Value (clear_hosts (s\<lparr>sv_db := d\<rparr>)))"

definition register_hostname :: "'d adapter \<Rightarrow> string \<Rightarrow> time \<Rightarrow> string \<Rightarrow> string \<Rightarrow> ('d, go_error option) call" where
  "register_hostname A uuid now hostname username =
     (let sub = new_subscription uuid now;
          ownerHostname = new_owner_hostname username hostname sub
      in ad_InsertOwnerHostname A ownerHostname)"

definition service_delete_hostname :: "'d adapter \<Rightarrow> string \<Rightarrow> string \<Rightarrow> ('d, go_error option) call" where
  "service_delete_hostname A hostname username = ad_DeleteOwnerHostname A hostname username"

text \<open>After an error \<open>GetData\<close> is the empty slice, not the nil one.\<close>

definition get_data :: "'d adapter \<Rightarrow> ('d, event_rows) call" where
  "get_data A = call_bind (ad_GetEvents A) (\<lambda>(d, err). case err of None \<Rightarrow> call_ret d
     | Some err \<Rightarrow> call_ret (Some []))"

lemmas processing_defs [go_defs] = new_service_def process_rum_event_def process_event_def
  save_host_def clear_hosts_def process_hosts_def register_hostname_def
  service_delete_hostname_def get_data_def

section \<open>Where an event goes\<close>

text \<open>
  An event whose conversion succeeds, by the answer of the subscription service: stored in the database and
  noted in the hosts, added to the queue of the expired or of the unknown backup, or dropped.
\<close>

datatype destination = Stored rum_event | To_backup backup_type | Dropped

definition destination :: "(event \<Rightarrow> rum_event run) \<Rightarrow> sub_answer \<Rightarrow> event \<Rightarrow> destination" where
  "destination create a e =
     (case (create e, a) of
        (Value r, (l, None)) \<Rightarrow>
          if l = found_lookup then Stored r
          else if l = expired_lookup then To_backup Expired_backup
          else if l = not_found_lookup then To_backup Unknown_backup
          else Dropped
      | _ \<Rightarrow> Dropped)"

lemma process_event_split:
  assumes "process_event create A get now (Some e) s = Value s'"
  obtains r a c d where "create e = Value r"
    "get now (re_SubscriptionID r) (re_Hostname r) (sv_cache s, sv_db s) = Value (a, (c, d))"
    "case destination create a e of
       Stored r \<Rightarrow> process_rum_event A r (s\<lparr>sv_cache := c, sv_db := d\<rparr>) = Value s'
     | To_backup k \<Rightarrow> s' = s\<lparr>sv_cache := c, sv_db := d, sv_backup := snd (save_event k e (sv_backup s))\<rparr>
     | Dropped \<Rightarrow> s' = s\<lparr>sv_cache := c, sv_db := d\<rparr>"
proof -
  from assms obtain r where r: "create e = Value r"
    by (auto simp: process_event_def run_bind_Value_iff)
  with assms obtain l err c d
    where g: "get now (re_SubscriptionID r) (re_Hostname r) (sv_cache s, sv_db s) = Value ((l, err), (c, d))"
    by (auto simp: process_event_def run_bind_Value_iff)
  show ?thesis
  proof (rule that [OF r g])
    show "case destination create (l, err) e of
       Stored r \<Rightarrow> process_rum_event A r (s\<lparr>sv_cache := c, sv_db := d\<rparr>) = Value s'
     | To_backup k \<Rightarrow> s' = s\<lparr>sv_cache := c, sv_db := d, sv_backup := snd (save_event k e (sv_backup s))\<rparr>
     | Dropped \<Rightarrow> s' = s\<lparr>sv_cache := c, sv_db := d\<rparr>"
      using assms r g by (auto simp: process_event_def destination_def split: option.splits if_splits)
  qed
qed

section \<open>Run\<close>

text \<open>The first component of a state records what \<open>SaveAsync\<close> was called with so far.\<close>

type_synonym 'd run_state = "event option list \<times> event option list \<times> 'd service"

inductive run_step :: "(event \<Rightarrow> rum_event run) \<Rightarrow> 'd adapter \<Rightarrow> 'd get_sub \<Rightarrow> (hosts \<Rightarrow> string list)
    \<Rightarrow> 'd run_state \<Rightarrow> 'd run_state \<Rightarrow> bool"
  for create A get order where
  arrive: "run_step create A get order (arrived, waiting, s) (arrived @ [e], waiting @ [e], s)"
| take_event: "process_event create A get now e s = Value s' \<Longrightarrow>
     run_step create A get order (arrived, xs @ e # ys, s) (arrived, xs @ ys, s')"
| tick: "process_hosts A order s = Value s' \<Longrightarrow>
     run_step create A get order (arrived, waiting, s) (arrived, waiting, s')"

inductive_cases run_step_cases: "run_step create A get order (arrived, waiting, s) st"

inductive service_runs :: "(event \<Rightarrow> rum_event run) \<Rightarrow> 'd adapter \<Rightarrow> 'd get_sub \<Rightarrow> (hosts \<Rightarrow> string list)
    \<Rightarrow> 'd run_state \<Rightarrow> 'd run_state \<Rightarrow> bool"
  for create A get order where
  here: "service_runs create A get order st st"
| step: "service_runs create A get order st st' \<Longrightarrow> run_step create A get order st' st'' \<Longrightarrow>
     service_runs create A get order st st''"

text \<open>What every step keeps holds in every state that is reached.\<close>

lemma service_runs_invariant:
  assumes "service_runs create A get order st st'" and "P st"
    and "\<And>st st'. P st \<Longrightarrow> run_step create A get order st st' \<Longrightarrow> P st'"
  shows "P st'"
  using assms(1,2) by (induction rule: service_runs.induct) (auto intro: assms(3))

lemma service_runs_snoc2:
  "run_step create A get order st st' \<Longrightarrow> run_step create A get order st' st'' \<Longrightarrow>
   service_runs create A get order st st''"
  by (blast intro: service_runs.intros)

fun present :: "event option list \<Rightarrow> event list" where
  "present [] = []"
| "present (None # es) = present es"
| "present (Some e # es) = e # present es"

lemma present_append [simp]: "present (xs @ ys) = present xs @ present ys"
  by (induction xs rule: present.induct) auto

section \<open>No event is lost\<close>

text \<open>
  A database that never reports an error and whose events can be read off as \<open>log\<close>: a save appends one,
  everything else leaves them alone.
\<close>

definition reliable_store :: "'d adapter \<Rightarrow> 'd get_sub \<Rightarrow> ('d \<Rightarrow> rum_event list) \<Rightarrow> bool" where
  "reliable_store A get log \<longleftrightarrow>
     (\<forall>r d err d'. ad_Save A r d = Value (err, d') \<longrightarrow> err = None \<and> log d' = log d @ [r]) \<and>
     (\<forall>e d err d'. ad_SaveHost A e d = Value (err, d') \<longrightarrow> log d' = log d) \<and>
     (\<forall>now i h c d l err c' d'. get now i h (c, d) = Value ((l, err), (c', d')) \<longrightarrow> err = None \<and> log d' = log d)"

lemma reliable_storeD:
  assumes "reliable_store A get log"
  shows "ad_Save A r d = Value (err, d') \<Longrightarrow> err = None \<and> log d' = log d @ [r]"
    and "ad_SaveHost A e d = Value (err, d') \<Longrightarrow> log d' = log d"
    and "get now i h (c, d) = Value ((l, err), (c', d')) \<Longrightarrow> err = None \<and> log d' = log d"
  using assms unfolding reliable_store_def by blast+

lemma save_hosts_keeps:
  assumes "save_hosts A hs d = Value d'" and "P d"
    and "\<And>e d err d'. ad_SaveHost A e d = Value (err, d') \<Longrightarrow> P d \<Longrightarrow> P d'"
  shows "P d'"
  using assms(1,2)
proof (induction hs arbitrary: d)
  case (Cons h hs)
  obtain hostname createdAt where h: "h = (hostname, createdAt)" by fastforce
  with Cons.prems(1) obtain err d1 where d1: "ad_SaveHost A (new_hostname_event hostname createdAt) d = Value (err, d1)"
    "save_hosts A hs d1 = Value d'"
    by (auto simp: save_host_def run_bind_Value_iff)
  then show ?case using Cons.IH [OF d1(2)] assms(3) [OF d1(1)] Cons.prems(2) by blast
qed simp

definition conserved :: "(event \<Rightarrow> rum_event run) \<Rightarrow> ('d \<Rightarrow> rum_event list) \<Rightarrow> 'd service
    \<Rightarrow> 'd run_state \<Rightarrow> bool" where
  "conserved create log s0 st = (case st of (arrived, waiting, s) \<Rightarrow>
     \<exists>stored expd unk saved bi b. mset (present arrived) = mset (present waiting) + mset stored + mset expd + mset unk
       \<and> list_all2 (\<lambda>e r. create e = Value r) stored saved \<and> log (sv_db s) = log (sv_db s0) @ saved
       \<and> sv_backup s0 = FileBackup bi \<and> sv_backup s = FileBackup b
       \<and> sb_queue (fb_expired b) = sb_queue (fb_expired bi) @ map (\<lambda>e. Values (for_archiving e)) expd
       \<and> sb_queue (fb_unknown b) = sb_queue (fb_unknown bi) @ map (\<lambda>e. Values (for_archiving e)) unk
       \<and> fb_archive b = fb_archive bi)"

lemma conservedI:
  assumes "mset (present arrived) = mset (present waiting) + mset stored + mset expd + mset unk"
    and "list_all2 (\<lambda>e r. create e = Value r) stored saved" and "log (sv_db s) = log (sv_db s0) @ saved"
    and "sv_backup s0 = FileBackup bi" and "sv_backup s = FileBackup b"
    and "sb_queue (fb_expired b) = sb_queue (fb_expired bi) @ map (\<lambda>e. Values (for_archiving e)) expd"
    and "sb_queue (fb_unknown b) = sb_queue (fb_unknown bi) @ map (\<lambda>e. Values (for_archiving e)) unk"
    and "fb_archive b = fb_archive bi"
  shows "conserved create log s0 (arrived, waiting, s)"
  using assms unfolding conserved_def by auto

lemma conservedE:
  assumes "conserved create log s0 (arrived, waiting, s)"
  obtains stored expd unk saved bi b where
    "mset (present arrived) = mset (present waiting) + mset stored + mset expd + mset unk"
    "list_all2 (\<lambda>e r. create e = Value r) stored saved" "log (sv_db s) = log (sv_db s0) @ saved"
    "sv_backup s0 = FileBackup bi" "sv_backup s = FileBackup b"
    "sb_queue (fb_expired b) = sb_queue (fb_expired bi) @ map (\<lambda>e. Values (for_archiving e)) expd"
    "sb_queue (fb_unknown b) = sb_queue (fb_unknown bi) @ map (\<lambda>e. Values (for_archiving e)) unk"
    "fb_archive b = fb_archive bi"
  using assms unfolding conserved_def by auto

text \<open>The event that is taken moves from the waiting ones to one of the three destinations.\<close>

lemma conserved_take:
  assumes rel: "reliable_store A get log" and sub: "subscription_service get"
    and c: "conserved create log s0 (arrived, xs @ e # ys, s)"
    and p: "process_event create A get now e s = Value s'"
  shows "conserved create log s0 (arrived, xs @ ys, s')"
proof (cases e)
  case None
  with p have "s' = s" by (simp add: process_event_def)
  with c None show ?thesis by (simp add: conserved_def)
next
  case e: (Some x)
  obtain stored expd unk saved bi b where st:
    "mset (present arrived) = mset (present (xs @ e # ys)) + mset stored + mset expd + mset unk"
    "list_all2 (\<lambda>e r. create e = Value r) stored saved" "log (sv_db s) = log (sv_db s0) @ saved"
    "sv_backup s0 = FileBackup bi" "sv_backup s = FileBackup b"
    "sb_queue (fb_expired b) = sb_queue (fb_expired bi) @ map (\<lambda>e. Values (for_archiving e)) expd"
    "sb_queue (fb_unknown b) = sb_queue (fb_unknown bi) @ map (\<lambda>e. Values (for_archiving e)) unk"
    "fb_archive b = fb_archive bi"
    using c by (rule conservedE)
  have ms: "mset (present arrived) = add_mset x (mset (present (xs @ ys)) + mset stored + mset expd + mset unk)"
    using st(1) by (simp add: e)
  from p [unfolded e] obtain r l err c d where r: "create x = Value r"
    and g: "get now (re_SubscriptionID r) (re_Hostname r) (sv_cache s, sv_db s) = Value ((l, err), (c, d))"
    and s': "case destination create (l, err) x of
       Stored r \<Rightarrow> process_rum_event A r (s\<lparr>sv_cache := c, sv_db := d\<rparr>) = Value s'
     | To_backup k \<Rightarrow> s' = s\<lparr>sv_cache := c, sv_db := d, sv_backup := snd (save_event k x (sv_backup s))\<rparr>
     | Dropped \<Rightarrow> s' = s\<lparr>sv_cache := c, sv_db := d\<rparr>"
    by (elim process_event_split) fastforce
  have err: "err = None" and log: "log d = log (sv_db s)" using reliable_storeD(3) [OF rel g] by auto
  consider "l = found_lookup" | "l = not_found_lookup" | "l = expired_lookup"
    using subscription_service.answer [OF sub g] by blast
  then show ?thesis
  proof cases
    case 1
    with s' r err obtain err' d' where sv: "ad_Save A r d = Value (err', d')"
      "s' = s\<lparr>sv_cache := c, sv_db := d', sv_hosts := AList.update (re_Hostname r) (re_Created_At r) (sv_hosts s)\<rparr>"
      by (auto simp: destination_def process_rum_event_def run_bind_Value_iff)
    have "log d' = log (sv_db s0) @ saved @ [r]" using reliable_storeD(1) [OF rel sv(1)] log st(3) by simp
    then show ?thesis using ms st r
      by (intro conservedI [where stored = "stored @ [x]" and expd = expd and unk = unk and saved = "saved @ [r]" and bi = bi and b = b])
        (simp_all add: sv(2) list_all2_appendI)
  next
    case 2
    with s' r err have s': "s' = s\<lparr>sv_cache := c, sv_db := d, sv_backup := snd (save_event Unknown_backup x (sv_backup s))\<rparr>"
      by (simp add: destination_def)
    show ?thesis using ms st log
      by (intro conservedI [where stored = stored and expd = expd and unk = "unk @ [x]" and saved = saved and bi = bi
          and b = "b\<lparr>fb_unknown := snd (single_save_async x (fb_unknown b))\<rparr>"])
        (simp_all add: s' single_save_async_def)
  next
    case 3
    with s' r err have s': "s' = s\<lparr>sv_cache := c, sv_db := d, sv_backup := snd (save_event Expired_backup x (sv_backup s))\<rparr>"
      by (simp add: destination_def)
    show ?thesis using ms st log
      by (intro conservedI [where stored = stored and expd = "expd @ [x]" and unk = unk and saved = saved and bi = bi
          and b = "b\<lparr>fb_expired := snd (single_save_async x (fb_expired b))\<rparr>"])
        (simp_all add: s' single_save_async_def)
  qed
qed

lemma conserved_step:
  assumes rel: "reliable_store A get log" and sub: "subscription_service get"
    and c: "conserved create log s0 st" and step: "run_step create A get order st st'"
  shows "conserved create log s0 st'"
  using step
proof cases
  case (arrive arrived waiting s e)
  with c show ?thesis by (cases e) (auto elim!: conservedE intro: conservedI)
next
  case (take_event now e s s' arrived xs ys)
  with c conserved_take [OF rel sub] show ?thesis by blast
next
  case (tick s s' arrived waiting)
  from tick(3) obtain hs d where d: "save_hosts A hs (sv_db s) = Value d"
    and s': "s' = clear_hosts (s\<lparr>sv_db := d\<rparr>)"
    by (auto simp: process_hosts_def run_bind_Value_iff)
  have "log d = log (sv_db s)"
    using save_hosts_keeps [OF d, of "\<lambda>d. log d = log (sv_db s)"] reliable_storeD(2) [OF rel] by simp
  with c tick s' show ?thesis by (auto simp: clear_hosts_def elim!: conservedE intro: conservedI)
qed

text \<open>A database given by what a save does to it, which knows no subscriptions, for the examples.\<close>

definition plain_adapter :: "(rum_event \<Rightarrow> 'd \<Rightarrow> 'd) \<Rightarrow> (hostname_event \<Rightarrow> 'd \<Rightarrow> 'd) \<Rightarrow> 'd adapter" where
  "plain_adapter save_rum put_host = \<lparr>ad_Open = (\<lambda>c. call_ret None), ad_Close = call_ret None, ad_IsOpen = (\<lambda>d. True),
     ad_GetDbVersion = call_ret (1, None), ad_CheckDbVersion = call_ret None, ad_GetName = (\<lambda>d. ''plain''),
     ad_SetMaxResults = (\<lambda>n. call_ret None), ad_CreateDb = (\<lambda>r. call_ret None), ad_UpgradeDb = call_ret None,
     ad_Version = (\<lambda>d. 1), ad_Stats = call_ret None,
     ad_Save = (\<lambda>r d. Value (None, save_rum r d)), ad_SaveHost = (\<lambda>h d. Value (None, put_host h d)),
     ad_InsertOwnerHostname = (\<lambda>o'. call_ret None), ad_DeleteOwnerHostname = (\<lambda>h u. call_ret None),
     ad_GetSubscriptions = call_ret (Some [], None), ad_GetSubscription = (\<lambda>i. call_ret (None, None)),
     ad_GetEvents = call_ret (None, None)\<rparr>"

type_synonym list_db = "rum_event list \<times> hostname_event list"

definition list_adapter :: "list_db adapter" where
  "list_adapter = plain_adapter (\<lambda>r (rs, hs). (rs @ [r], hs)) (\<lambda>h (rs, hs). (rs, hs @ [h]))"

definition sample_event :: event where
  "sample_event = new_event [(''u'', [''//a.b''])] [] [] []"

definition sample_rum_event :: rum_event where
  "sample_rum_event = \<lparr>re_Created_At = [], re_Hostname = ''a.b'', re_SubscriptionID = [], re_Country = [],
     re_Geo_City_Name = [], re_Device_Type = [], re_Latency = [], re_StatusCode = [], re_Up = [],
     re_Cdir = [], re_Ans = []\<rparr>"

definition sample_service :: "list_db service" where
  "sample_service = new_service new_caching ([], []) (FileBackup (new_file_backup
     (new_single_file_backup ''a'' NoneFactory) (new_single_file_backup ''e'' NoneFactory)
     (new_single_file_backup ''u'' NoneFactory)))"

lemma create_sample_event: "create_rum_event None sample_event = Value sample_rum_event"
proof -
  have "url_parse (values_get (RequestParameters sample_event) ''u'') = Inr ''a.b''" by code_simp
  moreover have "url_hostname ''a.b'' = ''a.b''" by code_simp
  ultimately show ?thesis
    by (simp add: create_rum_event_def convert_to_rum_event_def from_event_def sample_rum_event_def
        sample_event_def new_event_def values_get_def values_lookup_def)
qed

lemma list_adapter_reliable: "reliable_store list_adapter disabled_get fst"
  by (auto simp: reliable_store_def list_adapter_def plain_adapter_def disabled_get_def disabled_get_subscription_def)

lemma conserved_refl: "sv_backup s = FileBackup b \<Longrightarrow> conserved create log s ([], [], s)"
  by (intro conservedI [where stored = "[]" and expd = "[]" and unk = "[]" and saved = "[]"]) simp_all



section \<open>No event waits for ever\<close>

text \<open>Taking the given events in turn, at the given times.\<close>

fun take_in_turn :: "(event \<Rightarrow> rum_event run) \<Rightarrow> 'd adapter \<Rightarrow> 'd get_sub \<Rightarrow> (time \<times> event option) list
    \<Rightarrow> 'd service \<Rightarrow> 'd service run" where
  "take_in_turn create A get [] s = Value s"
| "take_in_turn create A get ((now, e) # picks) s =
     run_bind (process_event create A get now e s) (take_in_turn create A get picks)"

lemma service_runs_trans:
  "service_runs create A get order st' st'' \<Longrightarrow> service_runs create A get order st st' \<Longrightarrow>
   service_runs create A get order st st''"
  by (induction rule: service_runs.induct) (auto intro: service_runs.intros)

lemma take_in_turn_runs:
  assumes "take_in_turn create A get picks s = Value s'" and "mset (map snd picks) = mset waiting"
  shows "service_runs create A get order (arrived, waiting, s) (arrived, [], s')"
  using assms
proof (induction create A get picks s arbitrary: waiting rule: take_in_turn.induct)
  case (1 create A get s)
  then show ?case by (auto intro: service_runs.intros)
next
  case (2 create A get now e picks s)
  then obtain s1 where s1: "process_event create A get now e s = Value s1" "take_in_turn create A get picks s1 = Value s'"
    by (auto simp: run_bind_Value_iff)
  have "e \<in> set waiting" using 2(3) by (metis list.set_intros(1) list.simps(9) set_mset_mset snd_conv)
  then obtain xs ys where w: "waiting = xs @ e # ys" by (auto dest: split_list)
  with 2(3) have "mset (map snd picks) = mset (xs @ ys)" by simp
  from "2.IH" [OF s1(2) this] service_runs.step [OF service_runs.here run_step.take_event [OF s1(1), of _ arrived xs ys]]
  show ?case unfolding w by (rule service_runs_trans)
qed

lemma process_event_returns:
  assumes "\<And>x. e = Some x \<Longrightarrow> \<not> panics (create x)" and "\<And>now i h st. \<not> panics (get now i h st)"
    and "\<And>r d. \<not> panics (ad_Save A r d)"
  shows "\<exists>s'. process_event create A get now e s = Value s'"
proof (cases e)
  case (Some x)
  obtain r where r: "create x = Value r" using assms(1) [OF Some] by (auto simp: not_panics_iff)
  obtain l err c d where "get now (re_SubscriptionID r) (re_Hostname r) (sv_cache s, sv_db s) = Value ((l, err), (c, d))"
    using assms(2) by (metis not_panics_iff prod.exhaust)
  moreover obtain err' d' where "ad_Save A r d = Value (err', d')"
    using assms(3) by (metis not_panics_iff prod.exhaust)
  ultimately show ?thesis by (simp add: process_event_def Some r process_rum_event_def Let_def)
qed (simp add: process_event_def)

lemma take_in_turn_returns:
  assumes "\<And>x. x \<in> set (present (map snd picks)) \<Longrightarrow> \<not> panics (create x)"
    and "\<And>now i h st. \<not> panics (get now i h st)" and "\<And>r d. \<not> panics (ad_Save A r d)"
  shows "\<exists>s'. take_in_turn create A get picks s = Value s'"
  using assms(1)
proof (induction picks arbitrary: s)
  case (Cons p picks)
  obtain now e where p: "p = (now, e)" by fastforce
  have "\<exists>s1. process_event create A get now e s = Value s1"
    by (rule process_event_returns) (use Cons.prems assms(2,3) in \<open>simp_all add: p\<close>)
  then obtain s1 where "process_event create A get now e s = Value s1" by blast
  moreover have "\<exists>s'. take_in_turn create A get picks s1 = Value s'"
    using Cons.prems by (intro Cons.IH) (cases e; simp add: p)
  ultimately show ?case by (auto simp: p)
qed simp

lemma save_hosts_returns:
  "(\<And>e d. \<not> panics (ad_SaveHost A e d)) \<Longrightarrow> \<exists>d'. save_hosts A hs d = Value d'"
proof (induction A hs d rule: save_hosts.induct)
  case (2 A hostname createdAt hs d)
  obtain err d1 where "ad_SaveHost A (new_hostname_event hostname createdAt) d = Value (err, d1)"
    using "2.prems" by (metis not_panics_iff prod.exhaust)
  with 2 show ?case by (simp add: save_host_def)
qed simp

lemma set_present: "x \<in> set (present es) \<longleftrightarrow> Some x \<in> set es"
  by (induction es rule: present.induct) auto

text \<open>
  C39: When no call panics, \<open>Run\<close> never gets stuck: the waiting events can be taken in whatever order \<open>select\<close>
  prefers and whatever the lookups and the database answer, errors included, and a tick then leaves
  nothing waiting and no host noted.
\<close>

theorem service_drains:
  assumes "\<And>x. x \<in> set (present waiting) \<Longrightarrow> \<not> panics (create x)"
    and "\<And>now i h st. \<not> panics (get now i h st)"
    and "\<And>r d. \<not> panics (ad_Save A r d)" and "\<And>e d. \<not> panics (ad_SaveHost A e d)"
    and "mset (map snd picks) = mset waiting"
  shows "\<exists>s1 s2. take_in_turn create A get picks s = Value s1 \<and> process_hosts A order s1 = Value s2
    \<and> service_runs create A get order (arrived, waiting, s) (arrived, [], s2) \<and> sv_hosts s2 = []"
proof -
  have "set (map snd picks) = set waiting" using assms(5) by (metis set_mset_mset)
  then have "set (present (map snd picks)) = set (present waiting)" by (auto simp: set_present)
  then have "\<exists>s1. take_in_turn create A get picks s = Value s1"
    by (intro take_in_turn_returns) (use assms(1-3) in simp_all)
  then obtain s1 where s1: "take_in_turn create A get picks s = Value s1" by blast
  obtain d where d: "save_hosts A (map (\<lambda>h. (h, the (map_of (sv_hosts s1) h))) (order (sv_hosts s1))) (sv_db s1) = Value d"
    using save_hosts_returns [OF assms(4)] by blast
  then have s2: "process_hosts A order s1 = Value (clear_hosts (s1\<lparr>sv_db := d\<rparr>))" by (simp add: process_hosts_def)
  from service_runs.step [OF take_in_turn_runs [OF s1 assms(5)] run_step.tick [OF s2]]
  have "service_runs create A get order (arrived, waiting, s) (arrived, [], clear_hosts (s1\<lparr>sv_db := d\<rparr>))" .
  moreover have "sv_hosts (clear_hosts (s1\<lparr>sv_db := d\<rparr>)) = []" by (simp add: clear_hosts_def)
  ultimately show ?thesis using s1 s2 by blast
qed

lemma service_drains_witness:
  "\<exists>s1 s2. take_in_turn (create_rum_event None) list_adapter disabled_get [(0, None), (0, Some sample_event)] sample_service = Value s1
    \<and> service_runs (create_rum_event None) list_adapter disabled_get (map fst)
        ([], [Some sample_event, None], sample_service) ([], [], s2) \<and> sv_hosts s2 = []"
proof -
  have c: "\<not> panics (create_rum_event None x)" if "x \<in> set (present [Some sample_event, None])" for x
    using that create_sample_event by simp
  have "\<exists>s1 s2. take_in_turn (create_rum_event None) list_adapter disabled_get [(0, None), (0, Some sample_event)] sample_service = Value s1
    \<and> process_hosts list_adapter (map fst) s1 = Value s2
    \<and> service_runs (create_rum_event None) list_adapter disabled_get (map fst)
        ([], [Some sample_event, None], sample_service) ([], [], s2) \<and> sv_hosts s2 = []"
    by (rule service_drains [OF c])
      (simp_all add: list_adapter_def plain_adapter_def disabled_get_def disabled_get_subscription_def)
  then show ?thesis by blast
qed

section \<open>With subscriptions enabled nothing is stored\<close>

text \<open>
  The conversion leaves the subscription id empty, so an event is looked up under the empty id. Where
  the database has no subscription with that id, no event reaches it.
\<close>

definition turned_away :: "(string \<Rightarrow> subscription_with_hostname option \<times> go_error option) \<Rightarrow> ('d \<Rightarrow> bool)
    \<Rightarrow> 'd service \<Rightarrow> 'd run_state \<Rightarrow> bool" where
  "turned_away f I s0 st = (case st of (arrived, waiting, s) \<Rightarrow>
     I (sv_db s) \<and> cache_agrees f (sv_cache s) \<and> sv_hosts s = [] \<and>
     (\<exists>unk. mset (present arrived) = mset (present waiting) + mset unk
       \<and> backup_queue Unknown_backup (sv_backup s) =
           backup_queue Unknown_backup (sv_backup s0) @ map (\<lambda>e. Values (for_archiving e)) unk
       \<and> (\<exists>b. sv_backup s = FileBackup b)))"

lemma turned_away_step:
  assumes db: "db_answers q f I" and none: "f [] = (None, None)" and order: "order [] = []"
    and t: "turned_away f I s0 st"
    and step: "run_step (create_rum_event geo) A (caching_get_subscription q) order st st'"
  shows "turned_away f I s0 st'"
  using step
proof cases
  case (arrive arrived waiting s e)
  with t show ?thesis by (cases e) (auto simp: turned_away_def)
next
  case (tick s s' arrived waiting)
  with t order show ?thesis by (auto simp: turned_away_def process_hosts_def clear_hosts_def)
next
  case (take_event now e s s' arrived xs ys)
  show ?thesis
  proof (cases e)
    case None
    with t take_event show ?thesis by (simp add: turned_away_def process_event_def)
  next
    case e: (Some x)
    from t take_event(1) obtain unk b where
      st: "I (sv_db s)" "cache_agrees f (sv_cache s)" "sv_hosts s = []"
      "mset (present arrived) = mset (present (xs @ e # ys)) + mset unk"
      "backup_queue Unknown_backup (sv_backup s) =
         backup_queue Unknown_backup (sv_backup s0) @ map (\<lambda>e. Values (for_archiving e)) unk"
      "sv_backup s = FileBackup b"
      by (auto simp: turned_away_def)
    from take_event(3) [unfolded e] obtain r a c d where r: "create_rum_event geo x = Value r"
      and g: "caching_get_subscription q now (re_SubscriptionID r) (re_Hostname r) (sv_cache s, sv_db s) = Value (a, (c, d))"
      and s': "case destination (create_rum_event geo) a x of
         Stored r \<Rightarrow> process_rum_event A r (s\<lparr>sv_cache := c, sv_db := d\<rparr>) = Value s'
       | To_backup k \<Rightarrow> s' = s\<lparr>sv_cache := c, sv_db := d, sv_backup := snd (save_event k x (sv_backup s))\<rparr>
       | Dropped \<Rightarrow> s' = s\<lparr>sv_cache := c, sv_db := d\<rparr>"
      by (elim process_event_split) fastforce
    have "re_SubscriptionID r = []" using create_rum_event_subscription [OF r] .
    with g caching_transparent [OF db st(1,2), of now "[]" "re_Hostname r"] none
    have a: "a = (not_found_lookup, None)" and new: "cache_agrees f c" "I d"
      by (auto simp: direct_lookup_def)
    from s' r have s': "s' = s\<lparr>sv_cache := c, sv_db := d, sv_backup := snd (save_event Unknown_backup x (sv_backup s))\<rparr>"
      by (simp add: destination_def a)
    show ?thesis unfolding take_event(2) turned_away_def using st new
      by (auto simp: s' e single_save_async_def intro!: exI [of _ "unk @ [x]"])
  qed
qed

text \<open>
  C31: With subscriptions enabled, a database without a subscription of the empty id, and a cache that agrees
  with it, every event that is processed goes to the unknown backup, whatever subscriptions there are:
  the database sees lookups only and no host is noted.
\<close>

theorem enabled_subscriptions_store_nothing:
  assumes "service_runs (create_rum_event geo) A (caching_get_subscription q) order ([], [], s0) st"
    and "db_answers q f I" and "f [] = (None, None)" and "order [] = []"
    and "I (sv_db s0)" and "cache_agrees f (sv_cache s0)" and "sv_hosts s0 = []" and "sv_backup s0 = FileBackup b"
  shows "turned_away f I s0 st"
proof (rule service_runs_invariant [OF assms(1), where P = "turned_away f I s0"])
  show "turned_away f I s0 ([], [], s0)" using assms(5-8) by (simp add: turned_away_def)
qed (rule turned_away_step [where q = q and f = f and I = I and order = order and geo = geo and A = A, OF assms(2-4)])

lemma enabled_subscriptions_store_nothing_witness:
  "\<exists>s. service_runs (create_rum_event None) list_adapter
        (caching_get_subscription (\<lambda>k. call_ret (if k = ''a'' then Some (sample_item ''a'' ''a.b'' 5) else None, None)))
        (map fst) ([], [], sample_service) ([Some sample_event], [], s)
    \<and> turned_away (\<lambda>k. (if k = ''a'' then Some (sample_item ''a'' ''a.b'' 5) else None, None)) (\<lambda>d. d = ([], []))
        sample_service ([Some sample_event], [], s)"
proof -
  let ?f = "\<lambda>k. (if k = ''a'' then Some (sample_item ''a'' ''a.b'' 5) else None, None)"
  let ?get = "caching_get_subscription (\<lambda>k. call_ret (?f k)) :: list_db get_sub"
  let ?s = "sample_service\<lparr>sv_backup := snd (save_unknown sample_event (sv_backup sample_service))\<rparr>"
  have "process_event (create_rum_event None) list_adapter ?get 0 (Some sample_event) sample_service = Value ?s"
    by (simp add: process_event_def create_sample_event caching_get_subscription_def new_caching_def cache_get_def
        sample_service_def new_service_def sample_rum_event_def call_ret_def)
  from run_step.take_event [OF this, of _ "[Some sample_event]" "[]" "[]"]
  have run: "service_runs (create_rum_event None) list_adapter ?get (map fst) ([], [], sample_service)
      ([Some sample_event], [], ?s)"
    using run_step.arrive [of "create_rum_event None" list_adapter ?get "map fst" "[]" "[]" sample_service "Some sample_event"]
    by (intro service_runs_snoc2 [where st' = "([Some sample_event], [Some sample_event], sample_service)"]) simp_all
  have db: "db_answers (\<lambda>k. call_ret (?f k)) ?f (\<lambda>d. d = ([], []) :: bool)"
    by (simp add: db_answers_def call_ret_def)
  have "turned_away ?f (\<lambda>d. d = ([], [])) sample_service ([Some sample_event], [], ?s)"
    by (rule enabled_subscriptions_store_nothing [OF run db])
      (simp_all add: sample_service_def new_service_def new_caching_def cache_agrees_def)
  with run show ?thesis by blast
qed

section \<open>The hosts\<close>

definition hosts_order :: "hosts \<Rightarrow> string list \<Rightarrow> bool" where
  "hosts_order m hs = (distinct hs \<and> set hs = fst ` set m)"

lemma save_hosts_fold:
  assumes "\<And>h t d. save_host A h t d = Value (upd h t d)"
  shows "save_hosts A (map (\<lambda>h. (h, g h)) hs) d = Value (fold (\<lambda>h. upd h (g h)) hs d)"
  using assms by (induction hs arbitrary: d) simp_all

text \<open>
  C25: Where writing two different hosts commutes, the order in which the runtime ranges over the map makes
  no difference to the tick: the database gets one row for each host noted since the last tick, with the
  time of its last event, and the map is emptied.
\<close>

theorem process_hosts_any_order:
  assumes "\<And>h t d. save_host A h t d = Value (upd h t d)"
    and "\<And>h t h' t' d. h \<noteq> h' \<Longrightarrow> upd h t (upd h' t' d) = upd h' t' (upd h t d)"
    and "hosts_order (sv_hosts s) (order (sv_hosts s))" and "distinct (map fst (sv_hosts s))"
  shows "process_hosts A order s =
     Value (s\<lparr>sv_hosts := [], sv_db := fold (\<lambda>(h, t). upd h t) (sv_hosts s) (sv_db s)\<rparr>)"
proof -
  let ?m = "sv_hosts s" and ?g = "\<lambda>h. the (map_of (sv_hosts s) h)"
  have "fold (\<lambda>h. upd h (?g h)) (order ?m) (sv_db s) = fold (\<lambda>h. upd h (?g h)) (map fst ?m) (sv_db s)"
    using assms(2-4) by (intro fold_permute) (auto simp: hosts_order_def fun_eq_iff)
  also have "\<dots> = fold (\<lambda>(h, t). upd h t) ?m (sv_db s)"
    unfolding fold_map comp_def using assms(4) by (intro fold_cong) auto
  finally show ?thesis
    by (simp add: process_hosts_def save_hosts_fold [OF assms(1)] clear_hosts_def)
qed

lemma process_hosts_any_order_witness:
  "process_hosts (plain_adapter (\<lambda>r d. d) (\<lambda>h d. d(he_Hostname h := Some (he_UpdatedAt h)))) (\<lambda>m. rev (map fst m))
      (new_service new_caching Map.empty NullBackup\<lparr>sv_hosts := [(''a'', ''1''), (''b'', ''2'')]\<rparr>)
    = Value (new_service new_caching [''a'' \<mapsto> ''1'', ''b'' \<mapsto> ''2''] NullBackup)"
proof -
  let ?A = "plain_adapter (\<lambda>r d. d) (\<lambda>h d. d(he_Hostname h := Some (he_UpdatedAt h)))"
  let ?s = "new_service new_caching (Map.empty :: string \<Rightarrow> string option) NullBackup\<lparr>sv_hosts := [(''a'', ''1''), (''b'', ''2'')]\<rparr>"
  have "process_hosts ?A (\<lambda>m. rev (map fst m)) ?s =
      Value (?s\<lparr>sv_hosts := [], sv_db := fold (\<lambda>(h, t). (\<lambda>d. d(h \<mapsto> t))) (sv_hosts ?s) (sv_db ?s)\<rparr>)"
    by (rule process_hosts_any_order [where upd = "\<lambda>h t d. d(h \<mapsto> t)" and A = ?A and s = ?s and order = "\<lambda>m. rev (map fst m)"])
      (auto simp: plain_adapter_def save_host_def new_hostname_event_def fun_upd_twist hosts_order_def new_service_def)
  then show ?thesis by (simp add: new_service_def)
qed

end
