(* ===== verification/Go_Json_Read.thy ===== *)
theory Go_Json_Read
  imports Go_Json
begin

text \<open>
  \<open>encoding/json.Unmarshal\<close> of Go 1.21 into the two types that are read back, \<open>map[string]string\<close> and
  \<open>map[string][]string\<close>. A text that is no JSON and one of another shape are both errors, so only
  texts of the shape are read: objects whose values are strings, arrays of strings, or null.
\<close>

section \<open>Strings\<close>

abbreviation quote :: char where "quote \<equiv> CHR 0x22"
abbreviation backslash :: char where "backslash \<equiv> CHR 0x5C"

definition replacement_rune :: string where
  "replacement_rune = map (char_of :: nat \<Rightarrow> char) [0xEF, 0xBF, 0xBD]"

definition utf8_encode :: "nat \<Rightarrow> string" where
  "utf8_encode n = map (char_of :: nat \<Rightarrow> char)
     (if n < 0x80 then [n]
      else if n < 0x800 then [0xC0 + n div 0x40, 0x80 + n mod 0x40]
      else if n < 0x10000 then [0xE0 + n div 0x1000, 0x80 + n div 0x40 mod 0x40, 0x80 + n mod 0x40]
      else [0xF0 + n div 0x40000, 0x80 + n div 0x1000 mod 0x40, 0x80 + n div 0x40 mod 0x40, 0x80 + n mod 0x40])"

fun hex4 :: "string \<Rightarrow> nat option" where
  "hex4 (a # b # c # d # cs) =
     (if is_hex a \<and> is_hex b \<and> is_hex c \<and> is_hex d
      then Some (((unhex a * 16 + unhex b) * 16 + unhex c) * 16 + unhex d) else None)"
| "hex4 cs = None"

definition simple_escape :: "char \<Rightarrow> char option" where
  "simple_escape c =
     (if c \<in> {quote, backslash, CHR ''/''} then Some c
      else if c = CHR ''b'' then Some (CHR 0x08)
      else if c = CHR ''f'' then Some (CHR 0x0C)
      else if c = CHR ''n'' then Some (CHR 0x0A)
      else if c = CHR ''r'' then Some (CHR 0x0D)
      else if c = CHR ''t'' then Some (CHR 0x09)
      else None)"

text \<open>The second half of a surrogate pair, when an escape follows that is one.\<close>

definition low_surrogate :: "string \<Rightarrow> nat option" where
  "low_surrogate s =
     (if take 2 s = [backslash, CHR ''u''] then
        (case hex4 (drop 2 s) of
           Some v \<Rightarrow> if 0xDC00 \<le> v \<and> v < 0xE000 then Some v else None
         | None \<Rightarrow> None)
      else None)"

text \<open>
  One character of a string, or one escape: the bytes it stands for, and how many bytes after the first it
  takes.
\<close>

definition read_escape :: "string \<Rightarrow> (string \<times> nat) option" where
  "read_escape cs =
     (case cs of [] \<Rightarrow> None
      | e # rest \<Rightarrow>
          (case simple_escape e of
             Some x \<Rightarrow> Some ([x], 1)
           | None \<Rightarrow>
               if e \<noteq> CHR ''u'' then None
               else (case hex4 rest of
                   None \<Rightarrow> None
                 | Some u \<Rightarrow>
                     if 0xD800 \<le> u \<and> u < 0xE000 then
                       (case low_surrogate (drop 4 rest) of
                          Some v \<Rightarrow>
                            if u < 0xDC00 then
                              Some (utf8_encode (0x10000 + (u - 0xD800) * 0x400 + (v - 0xDC00)), 11)
                            else Some (replacement_rune, 5)
                        | None \<Rightarrow> Some (replacement_rune, 5))
                     else Some (utf8_encode u, 5))))"

definition read_piece :: "char \<Rightarrow> string \<Rightarrow> (string \<times> nat) option" where
  "read_piece c cs =
     (if c = backslash then read_escape cs
      else if (of_char c :: nat) < 32 then None
      else if (of_char c :: nat) < 128 then Some ([c], 0)
      else if rune_length (c # cs) = 0 then Some (replacement_rune, 0)
      else Some (take (rune_length (c # cs)) (c # cs), rune_length (c # cs) - 1))"

text \<open>After the opening quote: the text up to the closing one, and what follows it.\<close>

function read_body :: "string \<Rightarrow> (string \<times> string) option" where
  "read_body [] = None"
| "read_body (c # cs) =
     (if c = quote then Some ([], cs)
      else case read_piece c cs of
          None \<Rightarrow> None
        | Some (p, n) \<Rightarrow> map_option (\<lambda>(t, r). (p @ t, r)) (read_body (drop n cs)))"
  by pat_completeness auto
termination
  by (relation "measure length") auto

lemma read_body_shorter: "read_body s = Some (t, r) \<Longrightarrow> length r < length s"
  by (induction s arbitrary: t rule: read_body.induct) (fastforce split: if_splits option.splits)+

section \<open>Tokens\<close>

datatype json_token = Punct char | Text string | Null

definition json_space :: "char \<Rightarrow> bool" where
  "json_space c = (c \<in> {CHR '' '', CHR 0x09, CHR 0x0A, CHR 0x0D})"

function json_tokens :: "string \<Rightarrow> json_token list option" where
  "json_tokens [] = Some []"
| "json_tokens (c # cs) =
     (if json_space c then json_tokens cs
      else if c \<in> set ''{}[],:'' then map_option ((#) (Punct c)) (json_tokens cs)
      else if c = quote then
        (case read_body cs of
           None \<Rightarrow> None
         | Some (t, r) \<Rightarrow> map_option ((#) (Text t)) (json_tokens r))
      else if take 4 (c # cs) = ''null'' then map_option ((#) Null) (json_tokens (drop 3 cs))
      else None)"
  by pat_completeness auto
termination
  by (relation "measure length") (auto dest: read_body_shorter)

section \<open>Objects\<close>

text \<open>An array of strings is made one item; a null in it is the empty string.\<close>

datatype json_item = Mark char | Scalar string | Array "string list" | NullItem

fun array_element :: "json_token \<Rightarrow> string option" where
  "array_element (Text t) = Some t"
| "array_element Null = Some []"
| "array_element (Punct c) = None"

fun json_items :: "json_token list \<Rightarrow> json_item list option"
  and in_array :: "string list \<Rightarrow> json_token list \<Rightarrow> json_item list option" where
  "json_items [] = Some []"
| "json_items (Text t # ts) = map_option ((#) (Scalar t)) (json_items ts)"
| "json_items (Null # ts) = map_option ((#) NullItem) (json_items ts)"
| "json_items (Punct c # ts) =
     (if c \<noteq> CHR ''['' then map_option ((#) (Mark c)) (json_items ts)
      else case ts of
          [] \<Rightarrow> None
        | t # ts' \<Rightarrow>
            if t = Punct CHR '']'' then map_option ((#) (Array [])) (json_items ts')
            else in_array [] ts)"
| "in_array xs (t # Punct c # ts) =
     (case array_element t of
        None \<Rightarrow> None
      | Some x \<Rightarrow>
          if c = CHR '']'' then map_option ((#) (Array (xs @ [x]))) (json_items ts)
          else if c = CHR '','' then in_array (xs @ [x]) ts
          else None)"
| "in_array xs ts = None"

text \<open>The members of an object; the last of several with the same key counts.\<close>

fun read_members :: "(json_item \<Rightarrow> 'a option) \<Rightarrow> (string \<times> 'a) list \<Rightarrow> json_item list \<Rightarrow> (string \<times> 'a) list option" where
  "read_members f m (Scalar k # Mark c # v # Mark d # ts) =
     (case f v of
        None \<Rightarrow> None
      | Some x \<Rightarrow>
          if c \<noteq> CHR '':'' then None
          else if d = CHR ''}'' then (if ts = [] then Some (AList.update k x m) else None)
          else if d = CHR '','' then read_members f (AList.update k x m) ts
          else None)"
| "read_members f m ts = None"

text \<open>The JSON text \<open>null\<close> leaves the map nil, without an error.\<close>

fun read_object :: "(json_item \<Rightarrow> 'a option) \<Rightarrow> json_item list \<Rightarrow> (string \<times> 'a) list option" where
  "read_object f (Mark c # ts) =
     (if c \<noteq> CHR ''{'' then None
      else if ts = [Mark CHR ''}''] then Some []
      else read_members f [] ts)"
| "read_object f ts = (if ts = [NullItem] then Some [] else None)"

definition unmarshal_map :: "(json_item \<Rightarrow> 'a option) \<Rightarrow> string \<Rightarrow> (string \<times> 'a) list option" where
  "unmarshal_map f text =
     (case json_tokens text of
        None \<Rightarrow> None
      | Some ts \<Rightarrow> (case json_items ts of None \<Rightarrow> None | Some items \<Rightarrow> read_object f items))"

fun string_item :: "json_item \<Rightarrow> string option" where
  "string_item (Scalar t) = Some t"
| "string_item NullItem = Some []"
| "string_item v = None"

fun strings_item :: "json_item \<Rightarrow> string list option" where
  "strings_item (Array xs) = Some xs"
| "strings_item NullItem = Some []"
| "strings_item v = None"

definition unmarshal_flat :: "string \<Rightarrow> (string \<times> string) list option" where
  "unmarshal_flat = unmarshal_map string_item"

definition unmarshal_values :: "string \<Rightarrow> url_values option" where
  "unmarshal_values = unmarshal_map strings_item"

lemmas json_read_defs [go_defs] = replacement_rune_def utf8_encode_def simple_escape_def low_surrogate_def
  read_escape_def read_piece_def json_space_def unmarshal_map_def unmarshal_flat_def unmarshal_values_def

section \<open>What was marshalled is read back\<close>

text \<open>Go replaces each byte that is no part of a well-formed rune.\<close>

function to_valid :: "string \<Rightarrow> string" where
  "to_valid [] = []"
| "to_valid (c # cs) =
     (if (of_char c :: nat) < 128 then c # to_valid cs
      else if rune_length (c # cs) = 0 then replacement_rune @ to_valid cs
      else take (rune_length (c # cs)) (c # cs) @ to_valid (drop (rune_length (c # cs) - 1) cs))"
  by pat_completeness auto
termination
  by (relation "measure length") auto

lemma hex_digits: "n < 16 \<Longrightarrow> is_hex (hex_digit n) \<and> unhex (hex_digit n) = n"
proof -
  assume "n < 16"
  moreover from this have "(of_char (hex_digit n) :: nat) = (if n < 10 then 48 + n else 87 + n)" by (simp add: hex_digit_def)
  ultimately show ?thesis by (simp add: is_hex_def unhex_def is_digit_def)
qed

lemma hex4_byte:
  "n < 256 \<Longrightarrow> hex4 (''00'' @ hex_digit (n div 16) # hex_digit (n mod 16) # s) = Some n"
proof -
  assume "n < 256"
  then have "n div 16 < 16" "n mod 16 < 16" by simp_all
  moreover have "is_hex CHR ''0'' \<and> unhex CHR ''0'' = 0" by (simp add: is_hex_def unhex_def is_digit_def)
  moreover have "n div 16 * 16 + n mod 16 = n" by simp
  ultimately show ?thesis using hex_digits by simp
qed

lemma read_body_piece:
  assumes "c \<noteq> quote" and "read_piece c (cs @ s) = Some (p, length cs)"
  shows "read_body ((c # cs) @ s) = map_option (\<lambda>(t, r). (p @ t, r)) (read_body s)"
  using assms by simp

lemma ascii_piece:
  assumes "(of_char c :: nat) < 128"
  shows "read_body (json_ascii c @ s) = map_option (\<lambda>(t, r). (c # t, r)) (read_body s)"
proof -
  have u: "read_body ([backslash, CHR ''u'', CHR ''0'', CHR ''0'', hex_digit (of_char c div 16),
      hex_digit (of_char c mod 16)] @ s) = map_option (\<lambda>(t, r). (c # t, r)) (read_body s)"
  proof -
    have "hex4 (''00'' @ hex_digit (of_char c div 16) # hex_digit (of_char c mod 16) # s) = Some (of_char c)"
      using hex4_byte [of "of_char c"] by simp
    with assms show ?thesis
      by (subst read_body_piece [where p = "[c]"]) (simp_all add: read_piece_def read_escape_def simple_escape_def utf8_encode_def)
  qed
  have e: "read_body ([backslash, d] @ s) = map_option (\<lambda>(t, r). (c # t, r)) (read_body s)" if "simple_escape d = Some c" for d
    using that by (subst read_body_piece [where p = "[c]"]) (simp_all add: read_piece_def read_escape_def)
  have char: "(of_char c :: nat) = 9 \<Longrightarrow> c = CHR 0x09" "(of_char c :: nat) = 10 \<Longrightarrow> c = CHR 0x0A"
    "(of_char c :: nat) = 13 \<Longrightarrow> c = CHR 0x0D"
    using of_char_eq_iff [of c "CHR 0x09", where ?'a = nat] of_char_eq_iff [of c "CHR 0x0A", where ?'a = nat]
      of_char_eq_iff [of c "CHR 0x0D", where ?'a = nat] by simp_all
  show ?thesis
  proof (cases "c = quote \<or> c = backslash")
    case True
    then have "json_ascii c = [backslash, c]" "simple_escape c = Some c" by (auto simp: json_ascii_def simple_escape_def)
    with e show ?thesis by (simp only:)
  next
    case plain: False
    show ?thesis
    proof (cases "(of_char c :: nat) \<in> {9, 10, 13}")
      case True
      then consider "c = CHR 0x09" | "c = CHR 0x0A" | "c = CHR 0x0D" using char by blast
      then show ?thesis
      proof cases
        case 1
        then show ?thesis using e [of "CHR ''t''"] by (simp add: json_ascii_def simple_escape_def del: read_body.simps)
      next
        case 2
        then show ?thesis using e [of "CHR ''n''"] by (simp add: json_ascii_def simple_escape_def del: read_body.simps)
      next
        case 3
        then show ?thesis using e [of "CHR ''r''"] by (simp add: json_ascii_def simple_escape_def del: read_body.simps)
      qed
    next
      case False
      show ?thesis
      proof (cases "(of_char c :: nat) < 32 \<or> c \<in> set ''<>&''")
        case True
        with False plain have "json_ascii c = [backslash, CHR ''u'', CHR ''0'', CHR ''0'', hex_digit (of_char c div 16),
            hex_digit (of_char c mod 16)]" by (simp add: json_ascii_def Let_def)
        with u show ?thesis by (simp only:)
      next
        case low: False
        with False plain have "json_ascii c = [c]" by (auto simp: json_ascii_def Let_def)
        with low plain assms show ?thesis by (simp add: read_piece_def)
      qed
    qed
  qed
qed

text \<open>How long a rune is, is seen from its bytes alone.\<close>

lemma rune_length_le: "rune_length s \<le> length s"
proof (cases s)
  case (Cons c cs)
  then show ?thesis by (cases cs; cases "tl cs"; cases "tl (tl cs)") (auto simp: rune_length_def Let_def)
qed (simp add: rune_length_def)

lemma rune_length_take:
  assumes "rune_length s = n" and "0 < n"
  shows "rune_length (take n s @ t) = n"
proof (cases s)
  case (Cons c cs)
  have "n - 1 \<le> length cs" using rune_length_le [of s] assms Cons by simp
  then have nth: "(take (n - 1) cs @ t) ! i = cs ! i" "i < length cs" if "i < n - 1" for i
    using that by (simp_all add: nth_append)
  have "n = 2 \<or> n = 3 \<or> n = 4" using assms by (auto simp: Cons rune_length_def Let_def split: if_splits)
  then show ?thesis
  proof (elim disjE)
    assume "n = 2"
    with assms(1) nth [of 0] show ?thesis
      by (simp add: Cons rune_length_def Let_def split: if_splits)
  next
    assume "n = 3"
    with assms(1) nth [of 0] nth [of 1] show ?thesis
      by (simp add: Cons rune_length_def Let_def split: if_splits)
  next
    assume "n = 4"
    with assms(1) nth [of 0] nth [of 1] nth [of 2] show ?thesis
      by (simp add: Cons rune_length_def Let_def split: if_splits)
  qed
qed (use assms in \<open>simp add: rune_length_def\<close>)

lemma json_rune_piece:
  assumes "\<not> (of_char c :: nat) < 128" and "rune_length (c # cs) = n" and "0 < n"
  shows "read_body (json_rune (take n (c # cs)) @ s) = map_option (\<lambda>(t, r). (take n (c # cs) @ t, r)) (read_body s)"
proof -
  let ?r = "take n (c # cs)"
  have n: "n \<le> Suc (length cs)" using rune_length_le [of "c # cs"] assms(2) by simp
  have line: "read_body ((backslash # ''u'' @ h) @ s) = map_option (\<lambda>(t, r). (?r @ t, r)) (read_body s)"
    if "hex4 (h @ s) = Some u" "length h = 4" "\<not> 0xD800 \<le> u" "utf8_encode u = ?r" for h u
    using that by (subst read_body_piece [where p = ?r]) (simp_all add: read_piece_def read_escape_def simple_escape_def)
  consider "?r = map (char_of :: nat \<Rightarrow> char) [0xE2, 0x80, 0xA8]"
    | "?r = map (char_of :: nat \<Rightarrow> char) [0xE2, 0x80, 0xA9]" | "json_rune ?r = ?r"
    unfolding json_rune_def by metis
  then show ?thesis
  proof cases
    case 1
    then show ?thesis
      using line [of "''2028''" "0x2028"] by (simp add: json_rune_def utf8_encode_def is_hex_def is_digit_def unhex_def)
  next
    case 2
    then show ?thesis
      using line [of "''2029''" "0x2029"] by (simp add: json_rune_def utf8_encode_def is_hex_def is_digit_def unhex_def)
  next
    case 3
    obtain m where m: "n = Suc m" using assms(3) by (cases n) auto
    have "rune_length (c # take m cs @ s) = n" using rune_length_take [OF assms(2,3), of s] by (simp add: m)
    moreover have "length (take m cs) = m" using n m by simp
    ultimately have "read_piece c (take m cs @ s) = Some (?r, length (take m cs))"
      using assms by (auto simp: read_piece_def m)
    moreover have "c \<noteq> quote" using assms(1) by auto
    ultimately show ?thesis using read_body_piece [of c "take m cs" s ?r] 3 by (simp add: m)
  qed
qed

lemma replacement_piece:
  "read_body ((backslash # ''ufffd'') @ s) = map_option (\<lambda>(t, r). (replacement_rune @ t, r)) (read_body s)"
  by (subst read_body_piece [where p = replacement_rune])
    (simp_all add: read_piece_def read_escape_def simple_escape_def is_hex_def is_digit_def unhex_def
      utf8_encode_def replacement_rune_def)

lemma read_json_body: "read_body (json_body t @ quote # s) = Some (to_valid t, s)"
proof (induction t rule: json_body.induct)
  case (2 c cs)
  let ?n = "rune_length (c # cs)"
  consider "(of_char c :: nat) < 128" | "\<not> (of_char c :: nat) < 128" "?n = 0" | "\<not> (of_char c :: nat) < 128" "0 < ?n" by blast
  then show ?case
  proof cases
    case 1
    then show ?thesis using "2.IH"(1) by (simp add: ascii_piece del: read_body.simps)
  next
    case b: 2
    have "json_body (c # cs) @ quote # s = (backslash # ''ufffd'') @ (json_body cs @ quote # s)" using b by simp
    then show ?thesis using "2.IH"(2) b by (simp only: replacement_piece) simp
  next
    case b: 3
    have "json_body (c # cs) @ quote # s = json_rune (take ?n (c # cs)) @ (json_body (drop (?n - 1) cs) @ quote # s)"
      using b by simp
    then show ?thesis using "2.IH"(3) b by (simp only: json_rune_piece [OF b(1) refl b(2)]) simp
  qed
qed simp

lemma json_tokens_string: "json_tokens (json_string t @ s) = map_option ((#) (Text (to_valid t))) (json_tokens s)"
  by (simp add: json_string_def json_space_def read_json_body del: read_body.simps)

subsection \<open>Objects\<close>

fun sep_by :: "'a \<Rightarrow> 'a list list \<Rightarrow> 'a list" where
  "sep_by c [] = []"
| "sep_by c [p] = p"
| "sep_by c (p # q # ps) = p @ c # sep_by c (q # ps)"

lemma json_tokens_punct: "c \<in> set ''{}[],:'' \<Longrightarrow> json_tokens (c # s) = map_option ((#) (Punct c)) (json_tokens s)"
  by (auto simp: json_space_def)

text \<open>Tokens or items before the rest, if the rest can be read.\<close>

definition before :: "'a list \<Rightarrow> 'a list option \<Rightarrow> 'a list option" where
  "before p rest = map_option (\<lambda>r. p @ r) rest"

lemma before_simps [simp]: "before [] x = x" "before p (before q x) = before (p @ q) x"
  "before p (Some r) = Some (p @ r)"
  by (simp_all add: before_def option.map_comp comp_def option.map_ident)

lemma map_option_Cons: "map_option ((#) p) x = before [p] x"
  unfolding before_def by (rule option.map_cong0) simp

lemma json_tokens_join:
  assumes "\<And>x s. x \<in> set xs \<Longrightarrow> json_tokens (p x @ s) = before (tk x) (json_tokens s)"
  shows "json_tokens (join_with '','' (map p xs) @ s) = before (sep_by (Punct CHR '','') (map tk xs)) (json_tokens s)"
  using assms
proof (induction xs)
  case (Cons x xs)
  then show ?case
  proof (cases xs)
    case (Cons y ys)
    have "json_tokens (join_with '','' (map p xs) @ s) = before (sep_by (Punct CHR '','') (map tk xs)) (json_tokens s)"
      using Cons.IH Cons.prems by simp
    then show ?thesis
      using Cons.prems [of x] by (simp add: Cons json_tokens_punct map_option_Cons del: json_tokens.simps)
  qed simp
qed (simp add: option.map_ident)

definition array_tokens :: "string list \<Rightarrow> json_token list" where
  "array_tokens xs = Punct CHR ''['' # sep_by (Punct CHR '','') (map (\<lambda>x. [Text (to_valid x)]) xs) @ [Punct CHR '']'']"

lemma json_tokens_array: "json_tokens (json_array xs @ s) = before (array_tokens xs) (json_tokens s)"
proof -
  have "json_tokens (join_with '','' (map json_string xs) @ CHR '']'' # s)
      = before (sep_by (Punct CHR '','') (map (\<lambda>x. [Text (to_valid x)]) xs)) (json_tokens (CHR '']'' # s))"
    by (rule json_tokens_join) (simp add: json_tokens_string map_option_Cons)
  then show ?thesis
    by (simp add: json_array_def array_tokens_def json_tokens_punct map_option_Cons del: json_tokens.simps)
qed

lemma in_array_all:
  "in_array ys (sep_by (Punct CHR '','') (map (\<lambda>x. [Text (g x)]) (x # xs)) @ Punct CHR '']'' # ts)
    = map_option ((#) (Array (ys @ map g (x # xs)))) (json_items ts)"
  by (induction xs arbitrary: x ys) simp_all

lemma json_items_array:
  "json_items (array_tokens xs @ ts) = before [Array (map to_valid xs)] (json_items ts)"
proof (cases xs)
  case (Cons x xs')
  then have "json_items (array_tokens xs @ ts)
      = in_array [] (sep_by (Punct CHR '','') (map (\<lambda>x. [Text (to_valid x)]) (x # xs')) @ Punct CHR '']'' # ts)"
    by (cases xs') (simp_all add: array_tokens_def)
  then show ?thesis unfolding in_array_all by (simp add: Cons map_option_Cons)
qed (simp add: array_tokens_def map_option_Cons)

text \<open>Members whose values have the text \<open>f\<close>, the tokens \<open>tf\<close>, the item \<open>it\<close> and are read back as \<open>w\<close>.\<close>

lemma json_items_members:
  assumes "\<And>x ts. json_items (tf x @ ts) = before [it x] (json_items ts)"
  shows "json_items (sep_by (Punct CHR '','') (map (\<lambda>k. Text (g k) # Punct CHR '':'' # tf (v k)) ks) @ ts)
    = before (sep_by (Mark CHR '','') (map (\<lambda>k. [Scalar (g k), Mark CHR '':'', it (v k)]) ks)) (json_items ts)"
proof (induction ks)
  case (Cons k ks)
  then show ?case
    by (cases ks) (simp_all add: assms map_option_Cons)
qed (simp add: option.map_ident)

lemma update_fresh: "k \<notin> fst ` set m \<Longrightarrow> AList.update k x m = m @ [(k, x)]"
  by (induction m) auto

lemma read_members_all:
  assumes "\<And>k. k \<in> set (k0 # ks) \<Longrightarrow> f (it k) = Some (w k)"
    and "distinct (k0 # ks)" and "fst ` set m \<inter> set (k0 # ks) = {}"
  shows "read_members f m (sep_by (Mark CHR '','') (map (\<lambda>k. [Scalar k, Mark CHR '':'', it k]) (k0 # ks)) @ [Mark CHR ''}''])
    = Some (m @ map (\<lambda>k. (k, w k)) (k0 # ks))"
  using assms
proof (induction ks arbitrary: k0 m)
  case Nil
  then show ?case by (simp add: update_fresh)
next
  case (Cons k1 ks)
  have "read_members f (m @ [(k0, w k0)])
      (sep_by (Mark CHR '','') (map (\<lambda>k. [Scalar k, Mark CHR '':'', it k]) (k1 # ks)) @ [Mark CHR ''}''])
    = Some ((m @ [(k0, w k0)]) @ map (\<lambda>k. (k, w k)) (k1 # ks))"
    by (rule Cons.IH) (use Cons.prems in auto)
  then show ?case using Cons.prems by (simp add: update_fresh)
qed

lemma unmarshal_object:
  assumes "\<And>x s. json_tokens (f x @ s) = before (tf x) (json_tokens s)"
    and "\<And>x ts. json_items (tf x @ ts) = before [it x] (json_items ts)"
    and "\<And>x. g (it x) = Some (w x)" and "\<And>k. k \<in> fst ` set m \<Longrightarrow> to_valid k = k"
  shows "unmarshal_map g (json_object f m) = Some (map (\<lambda>k. (k, w (the (map_of m k)))) (sorted_keys m))"
proof -
  let ?v = "\<lambda>k. the (map_of m k)" and ?ks = "sorted_keys m"
  have valid: "to_valid k = k" if "k \<in> set ?ks" for k using that assms(4) by (simp add: sorted_keys_def)
  have "json_tokens (join_with '','' (map (\<lambda>k. json_string k @ '':'' @ f (?v k)) ?ks) @ ''}'')
      = before (sep_by (Punct CHR '','') (map (\<lambda>k. Text k # Punct CHR '':'' # tf (?v k)) ?ks)) (json_tokens ''}'')"
    by (rule json_tokens_join)
      (simp add: json_tokens_string valid assms(1) json_tokens_punct map_option_Cons del: json_tokens.simps)
  then have "json_tokens (json_object f m)
      = Some (Punct CHR ''{'' # sep_by (Punct CHR '','') (map (\<lambda>k. Text k # Punct CHR '':'' # tf (?v k)) ?ks) @ [Punct CHR ''}''])"
    by (simp add: json_object_def json_tokens_punct map_option_Cons del: json_tokens.simps(2))
  moreover have "json_items (Punct CHR ''{'' # sep_by (Punct CHR '','') (map (\<lambda>k. Text k # Punct CHR '':'' # tf (?v k)) ?ks) @ [Punct CHR ''}''])
      = Some (Mark CHR ''{'' # sep_by (Mark CHR '','') (map (\<lambda>k. [Scalar k, Mark CHR '':'', it (?v k)]) ?ks) @ [Mark CHR ''}''])"
    using json_items_members [where tf = tf and it = it and g = "\<lambda>k. k" and v = ?v and ks = ?ks and ts = "[Punct CHR ''}'']", OF assms(2)]
    by (simp add: map_option_Cons)
  moreover have "read_object g (Mark CHR ''{'' # sep_by (Mark CHR '','') (map (\<lambda>k. [Scalar k, Mark CHR '':'', it (?v k)]) ?ks) @ [Mark CHR ''}''])
      = Some (map (\<lambda>k. (k, w (?v k))) ?ks)"
  proof (cases ?ks)
    case (Cons k0 ks)
    have d: "distinct (k0 # ks)" unfolding Cons [symmetric] by (simp add: sorted_keys_def)
    have "sep_by (Mark CHR '','') (map (\<lambda>k. [Scalar k, Mark CHR '':'', it (?v k)]) (k0 # ks)) @ [Mark CHR ''}''] \<noteq> [Mark CHR ''}'']"
      by (cases ks) simp_all
    with read_members_all [of k0 ks g "\<lambda>k. it (?v k)" "\<lambda>k. w (?v k)" "[]", OF assms(3) d]
    show ?thesis by (simp add: Cons)
  qed simp
  ultimately show ?thesis by (simp add: unmarshal_map_def)
qed

lemma unmarshal_marshal_flat:
  assumes "\<And>k. k \<in> fst ` set m \<Longrightarrow> to_valid k = k"
  shows "unmarshal_flat (marshal_flat m) = Some (map (\<lambda>k. (k, to_valid (the (map_of m k)))) (sorted_keys m))"
  unfolding unmarshal_flat_def marshal_flat_def
  by (rule unmarshal_object [where tf = "\<lambda>x. [Text (to_valid x)]" and it = "\<lambda>x. Scalar (to_valid x)"])
    (simp_all add: json_tokens_string map_option_Cons assms)

lemma unmarshal_marshal_values:
  assumes "\<And>k. k \<in> fst ` set m \<Longrightarrow> to_valid k = k"
  shows "unmarshal_values (marshal_values m) = Some (map (\<lambda>k. (k, map to_valid (the (map_of m k)))) (sorted_keys m))"
  unfolding unmarshal_values_def marshal_values_def
  by (rule unmarshal_object [where tf = array_tokens and it = "\<lambda>xs. Array (map to_valid xs)"])
    (simp_all add: json_tokens_array json_items_array assms)

subsection \<open>Marshalled text is valid\<close>

definition well_formed :: "string \<Rightarrow> bool" where
  "well_formed p \<longleftrightarrow> (\<forall>t. to_valid (p @ t) = p @ to_valid t)"

lemma well_formed_valid: "well_formed p \<Longrightarrow> to_valid p = p"
  using spec [of "\<lambda>t. to_valid (p @ t) = p @ to_valid t" "[]"] by (simp add: well_formed_def)

lemma well_formed_append: "well_formed p \<Longrightarrow> well_formed q \<Longrightarrow> well_formed (p @ q)"
  by (simp add: well_formed_def)

lemma well_formed_ascii: "list_all (\<lambda>c. (of_char c :: nat) < 128) p \<Longrightarrow> well_formed p"
  unfolding well_formed_def by (induction p) simp_all

lemma well_formed_rune:
  assumes "\<not> (of_char c :: nat) < 128" and "rune_length (c # cs) = n" and "0 < n"
  shows "well_formed (take n (c # cs))"
  unfolding well_formed_def
proof
  fix t
  obtain m where m: "n = Suc m" using assms(3) by (cases n) auto
  have "m \<le> length cs" using rune_length_le [of "c # cs"] assms(2) m by simp
  moreover have "rune_length (c # take m cs @ t) = Suc m" using rune_length_take [OF assms(2,3), of t] by (simp add: m)
  ultimately show "to_valid (take n (c # cs) @ t) = take n (c # cs) @ to_valid t" using assms(1) by (simp add: m)
qed

lemma json_ascii_ascii: "(of_char c :: nat) < 128 \<Longrightarrow> list_all (\<lambda>c. (of_char c :: nat) < 128) (json_ascii c)"
proof -
  have "(of_char (hex_digit n) :: nat) < 128" if "n < 16" for n using that by (simp add: hex_digit_def)
  moreover assume "(of_char c :: nat) < 128"
  ultimately show ?thesis by (auto simp: json_ascii_def Let_def)
qed

lemma well_formed_json_rune:
  assumes "well_formed r" shows "well_formed (json_rune r)"
proof -
  have "well_formed (backslash # ''u2028'')" "well_formed (backslash # ''u2029'')" by (rule well_formed_ascii; simp)+
  with assms show ?thesis unfolding json_rune_def by (simp only: split: if_split) blast
qed

lemma well_formed_json_body: "well_formed (json_body s)"
proof (induction s rule: json_body.induct)
  case 1
  then show ?case by (simp add: well_formed_def)
next
  case (2 c cs)
  have "well_formed (backslash # ''ufffd'')" by (rule well_formed_ascii) simp
  with 2 show ?case
    using well_formed_append [of "json_ascii c"] well_formed_append [of "backslash # ''ufffd''"]
      well_formed_append [OF well_formed_json_rune [OF well_formed_rune [of c cs]]] well_formed_ascii [OF json_ascii_ascii, of c]
    by simp
qed

lemma well_formed_json_string: "well_formed (json_string s)"
proof -
  have "well_formed [quote]" by (rule well_formed_ascii) simp
  from well_formed_append [OF this well_formed_append [OF well_formed_json_body this], of s]
  show ?thesis by (simp add: json_string_def)
qed

lemma well_formed_join:
  assumes "well_formed sep" and "\<And>p. p \<in> set ps \<Longrightarrow> well_formed p"
  shows "well_formed (join_with sep ps)"
  using assms by (induction sep ps rule: join_with.induct) (auto intro!: well_formed_append simp: well_formed_ascii)

lemma well_formed_json_object:
  assumes "\<And>x. well_formed (f x)"
  shows "well_formed (json_object f m)"
proof -
  have mark: "well_formed [c]" if "(of_char c :: nat) < 128" for c using that by (intro well_formed_ascii) simp
  have "well_formed (json_string k @ '':'' @ f x)" for k x
    by (intro well_formed_append well_formed_json_string mark assms) simp
  then show ?thesis unfolding json_object_def
    by (intro well_formed_append well_formed_join mark) auto
qed

lemma well_formed_marshal_values: "well_formed (marshal_values m)"
  unfolding marshal_values_def
proof (rule well_formed_json_object)
  fix xs
  show "well_formed (json_array xs)" unfolding json_array_def
    by (intro well_formed_append well_formed_join) (auto intro: well_formed_json_string well_formed_ascii)
qed

end
