(* ===== verification/Go_Json_Scan.thy ===== *)
theory Go_Json_Scan
  imports Go_Json_Read
begin

text \<open>
  The scanner of \<open>encoding/json\<close> of Go 1.21 as the automaton it is there, one state for each of its step
  functions and a stack of what is being read; how \<open>json.Decoder\<close> cuts the first value off a stream with it;
  and what \<open>Decode\<close> makes of that value when its target is an interface that holds a pointer to a struct with
  one string field, the shape of the bodies the server reads.
\<close>

section \<open>The scanner\<close>

datatype scan_pos =
    BeginValueOrEmpty | BeginValue | BeginStringOrEmpty | BeginString | EndValue | EndTop
  | InString | InStringEsc | InStringEscU nat
  | Neg | Digit1 | Digit0 | Dot | DotDigit | Exp | ExpSign | ExpDigit
  | InWord string string

datatype parse_state = ObjectKey | ObjectValue | ArrayValue

type_synonym scanner = "scan_pos \<times> parse_state list"

text \<open>\<open>quoteChar\<close>: a byte as \<open>strconv.Quote\<close> shows the rune of its number.\<close>

definition quote_char :: "char \<Rightarrow> string" where
  "quote_char c =
     (let b = (of_char c :: nat); hex = [hex_digit (b div 16), hex_digit (b mod 16)];
          word = [(7, CHR ''a''), (8, CHR ''b''), (9, CHR ''t''), (10, CHR ''n''), (11, CHR ''v''), (12, CHR ''f''),
            (13, CHR ''r''), (92, backslash), (39, CHR 0x27)]
      in CHR 0x27 # (case map_of word b of
             Some e \<Rightarrow> [backslash, e]
           | None \<Rightarrow> if b < 32 \<or> b = 127 then backslash # CHR ''x'' # hex
               else if b < 127 then [c]
               else if b < 161 \<or> b = 173 then backslash # ''u00'' @ hex
               else utf8_encode b) @ [CHR 0x27])"

definition scan_error :: "char \<Rightarrow> string \<Rightarrow> go_error + scanner" where
  "scan_error c context = Inl (''invalid character '' @ quote_char c @ '' '' @ context)"

definition max_nesting_depth :: nat where "max_nesting_depth = 10000"

definition push_state :: "char \<Rightarrow> scan_pos \<Rightarrow> parse_state \<Rightarrow> parse_state list \<Rightarrow> go_error + scanner" where
  "push_state c q p ps =
     (if length ps < max_nesting_depth then Inr (q, p # ps) else scan_error c ''exceeded max depth'')"

definition pop_state :: "parse_state list \<Rightarrow> scanner" where
  "pop_state ps = (if ps = [] then EndTop else EndValue, ps)"

text \<open>
  A value of the top level that has no closing character is over at whatever follows it; what that is, a
  \<open>Decoder\<close> leaves to its next reading.
\<close>

fun end_value :: "parse_state list \<Rightarrow> char \<Rightarrow> go_error + scanner" where
  "end_value [] c = Inr (EndTop, [])"
| "end_value (p # ps) c =
     (if json_space c then Inr (EndValue, p # ps)
      else case p of
          ObjectKey \<Rightarrow>
            if c = CHR '':'' then Inr (BeginValue, ObjectValue # ps) else scan_error c ''after object key''
        | ObjectValue \<Rightarrow>
            if c = CHR '','' then Inr (BeginString, ObjectKey # ps)
            else if c = CHR ''}'' then Inr (pop_state ps)
            else scan_error c ''after object key:value pair''
        | ArrayValue \<Rightarrow>
            if c = CHR '','' then Inr (BeginValue, ArrayValue # ps)
            else if c = CHR '']'' then Inr (pop_state ps)
            else scan_error c ''after array element'')"

definition begin_value :: "parse_state list \<Rightarrow> char \<Rightarrow> go_error + scanner" where
  "begin_value ps c =
     (if json_space c then Inr (BeginValue, ps)
      else if c = CHR ''{'' then push_state c BeginStringOrEmpty ObjectKey ps
      else if c = CHR ''['' then push_state c BeginValueOrEmpty ArrayValue ps
      else if c = quote then Inr (InString, ps)
      else if c = CHR ''-'' then Inr (Neg, ps)
      else if c = CHR ''0'' then Inr (Digit0, ps)
      else if c = CHR ''t'' then Inr (InWord ''true'' ''rue'', ps)
      else if c = CHR ''f'' then Inr (InWord ''false'' ''alse'', ps)
      else if c = CHR ''n'' then Inr (InWord ''null'' ''ull'', ps)
      else if is_digit c then Inr (Digit1, ps)
      else scan_error c ''looking for beginning of value'')"

definition begin_string :: "scan_pos \<Rightarrow> parse_state list \<Rightarrow> char \<Rightarrow> go_error + scanner" where
  "begin_string q ps c =
     (if json_space c then Inr (q, ps)
      else if c = quote then Inr (InString, ps)
      else scan_error c ''looking for beginning of object key string'')"

definition in_string :: "parse_state list \<Rightarrow> char \<Rightarrow> go_error + scanner" where
  "in_string ps c =
     (if c = quote then Inr (EndValue, ps)
      else if c = backslash then Inr (InStringEsc, ps)
      else if (of_char c :: nat) < 32 then scan_error c ''in string literal''
      else Inr (InString, ps))"

definition in_exp_sign :: "parse_state list \<Rightarrow> char \<Rightarrow> go_error + scanner" where
  "in_exp_sign ps c =
     (if is_digit c then Inr (ExpDigit, ps) else scan_error c ''in exponent of numeric literal'')"

definition in_digit0 :: "parse_state list \<Rightarrow> char \<Rightarrow> go_error + scanner" where
  "in_digit0 ps c =
     (if c = CHR ''.'' then Inr (Dot, ps)
      else if c \<in> {CHR ''e'', CHR ''E''} then Inr (Exp, ps)
      else end_value ps c)"

fun scan_one :: "scanner \<Rightarrow> char \<Rightarrow> go_error + scanner" where
  "scan_one (BeginValueOrEmpty, ps) c =
     (if json_space c then Inr (BeginValueOrEmpty, ps)
      else if c = CHR '']'' then end_value ps c
      else begin_value ps c)"
| "scan_one (BeginValue, ps) c = begin_value ps c"
| "scan_one (BeginStringOrEmpty, ps) c =
     (if json_space c then Inr (BeginStringOrEmpty, ps)
      else if c = CHR ''}'' then end_value (ObjectValue # tl ps) c
      else begin_string BeginStringOrEmpty ps c)"
| "scan_one (BeginString, ps) c = begin_string BeginString ps c"
| "scan_one (EndValue, ps) c = end_value ps c"
| "scan_one (EndTop, ps) c = Inr (EndTop, ps)"
| "scan_one (InString, ps) c = in_string ps c"
| "scan_one (InStringEsc, ps) c =
     (if c \<in> set ''bfnrt/'' \<or> c = backslash \<or> c = quote then Inr (InString, ps)
      else if c = CHR ''u'' then Inr (InStringEscU 3, ps)
      else scan_error c ''in string escape code'')"
| "scan_one (InStringEscU n, ps) c =
     (if is_hex c then Inr (if n = 0 then InString else InStringEscU (n - 1), ps)
      else scan_error c (''in '' @ backslash # ''u hexadecimal character escape''))"
| "scan_one (Neg, ps) c =
     (if c = CHR ''0'' then Inr (Digit0, ps)
      else if is_digit c then Inr (Digit1, ps)
      else scan_error c ''in numeric literal'')"
| "scan_one (Digit1, ps) c = (if is_digit c then Inr (Digit1, ps) else in_digit0 ps c)"
| "scan_one (Digit0, ps) c = in_digit0 ps c"
| "scan_one (Dot, ps) c =
     (if is_digit c then Inr (DotDigit, ps) else scan_error c ''after decimal point in numeric literal'')"
| "scan_one (DotDigit, ps) c =
     (if is_digit c then Inr (DotDigit, ps)
      else if c \<in> {CHR ''e'', CHR ''E''} then Inr (Exp, ps)
      else end_value ps c)"
| "scan_one (Exp, ps) c =
     (if c \<in> {CHR ''+'', CHR ''-''} then Inr (ExpSign, ps) else in_exp_sign ps c)"
| "scan_one (ExpSign, ps) c = in_exp_sign ps c"
| "scan_one (ExpDigit, ps) c = (if is_digit c then Inr (ExpDigit, ps) else end_value ps c)"
| "scan_one (InWord w [], ps) c = end_value ps c"
| "scan_one (InWord w (d # ds), ps) c =
     (if c = d then Inr (if ds = [] then EndValue else InWord w ds, ps)
      else scan_error c (''in literal '' @ w @ '' (expecting '' @ quote_char d @ '')''))"

section \<open>The first value of a stream\<close>

text \<open>
  \<open>Decoder.readValue\<close>: the value with the white space before it, and what is left of the stream. The end of
  the stream counts as a space.
\<close>

fun cut_value :: "scanner \<Rightarrow> string \<Rightarrow> go_error + string \<times> string" where
  "cut_value q [] =
     (case scan_one q CHR '' '' of
        Inl err \<Rightarrow> Inl ''unexpected EOF''
      | Inr q' \<Rightarrow> if fst q' = EndTop then Inr ([], []) else Inl ''unexpected EOF'')"
| "cut_value q (c # cs) =
     (case scan_one q c of
        Inl err \<Rightarrow> Inl err
      | Inr q' \<Rightarrow>
          if fst q' = EndTop then Inr (if snd q = [] then ([], c # cs) else ([c], cs))
          else map_sum id (\<lambda>(v, r). (c # v, r)) (cut_value q' cs))"

definition read_value :: "string \<Rightarrow> go_error + string \<times> string" where
  "read_value s = (if list_all json_space s then Inl ''EOF'' else cut_value (BeginValue, []) s)"

text \<open>A text that is one value and nothing else.\<close>

definition json_text :: "string \<Rightarrow> bool" where
  "json_text s \<longleftrightarrow> read_value s = Inr (s, [])"

section \<open>Decoding into a struct\<close>

text \<open>
  A struct is described by its type, its name and the fields with their names in JSON; a field is a string, of the
  named type, or a \<open>bool\<close>. The result has the fields that were set; a field of another name is passed over, a null
  leaves the field alone, and a value of another shape is an error that names what it is. Only the first of several
  such errors is reported.
\<close>

datatype field_kind = KString string | KBool

record struct_target =
  st_Type :: string
  st_Name :: string
  st_Fields :: "(string \<times> field_kind) list"

datatype field_value = FString string | FBool bool

type_synonym fields = "(string \<times> field_value) list"

datatype decoded = DecodeError go_error | DecodedNull | DecodedFields fields

definition skip_space :: "string \<Rightarrow> string" where
  "skip_space s = dropWhile json_space s"

definition value_kind :: "string \<Rightarrow> string" where
  "value_kind v =
     (case skip_space v of [] \<Rightarrow> []
      | c # cs \<Rightarrow> if c = quote then ''string'' else if c = CHR ''{'' then ''object''
          else if c = CHR ''['' then ''array'' else if c = CHR ''n'' then ''null''
          else if c = CHR ''t'' \<or> c = CHR ''f'' then ''bool'' else ''number'')"

text \<open>
  A field is found by its name, or else without regard to case: \<open>foldName\<close> maps each rune to the least one it folds
  with. Of the runes outside ASCII only U+017F and U+212A, here by their bytes, fold with letters of ASCII.
\<close>

fun fold_name :: "string \<Rightarrow> string" where
  "fold_name [] = []"
| "fold_name (c # cs) =
     (if take 2 (c # cs) = [CHR 0xC5, CHR 0xBF] then CHR ''S'' # fold_name (drop 1 cs)
      else if take 3 (c # cs) = [CHR 0xE2, CHR 0x84, CHR 0xAA] then CHR ''K'' # fold_name (drop 2 cs)
      else to_upper c # fold_name cs)"

definition find_field :: "struct_target \<Rightarrow> string \<Rightarrow> (string \<times> field_kind) option" where
  "find_field T key =
     (case map_of (st_Fields T) key of
        Some k \<Rightarrow> Some (key, k)
      | None \<Rightarrow> find (\<lambda>(name, k). fold_name name = fold_name key) (st_Fields T))"

fun kind_type :: "field_kind \<Rightarrow> string" where
  "kind_type (KString t) = t"
| "kind_type KBool = ''bool''"

definition type_error :: "struct_target \<Rightarrow> string \<Rightarrow> field_kind \<Rightarrow> string \<Rightarrow> go_error" where
  "type_error T name k kind =
     ''json: cannot unmarshal '' @ kind @ '' into Go struct field '' @ st_Name T @ ''.'' @ name @ '' of type '' @ kind_type k"

definition save_error :: "go_error \<Rightarrow> go_error option \<Rightarrow> go_error option" where
  "save_error e err = (if err = None then Some e else err)"

fun field_of :: "field_kind \<Rightarrow> string \<Rightarrow> field_value option" where
  "field_of (KString t) v =
     (if value_kind v = ''string'' then map_option (\<lambda>(x, r). FString x) (read_body (tl (skip_space v))) else None)"
| "field_of KBool v =
     (if value_kind v = ''bool'' then Some (FBool (hd (skip_space v) = CHR ''t'')) else None)"

definition store_member :: "struct_target \<Rightarrow> string \<Rightarrow> string \<Rightarrow> fields \<times> go_error option \<Rightarrow> fields \<times> go_error option" where
  "store_member T key v = (\<lambda>(fs, err).
     case find_field T key of
       None \<Rightarrow> (fs, err)
     | Some (name, k) \<Rightarrow>
         if value_kind v = ''null'' then (fs, err)
         else case field_of k v of
             Some x \<Rightarrow> (AList.update name x fs, err)
           | None \<Rightarrow> (fs, save_error (type_error T name k (value_kind v)) err))"

text \<open>
  The members of an object, after its brace or a comma. \<open>None\<close> stands for a text out of phase with the scanner,
  where \<open>Decode\<close> panics; \<open>Go\_Json\_Phase\<close> shows that it is never reached.
\<close>

lemma cut_value_shorter: "cut_value q s = Inr (v, r) \<Longrightarrow> length r \<le> length s"
proof (induction q s arbitrary: v rule: cut_value.induct)
  case (1 q)
  then show ?case by (auto split: sum.splits if_splits)
next
  case (2 q c cs)
  show ?case
  proof (cases "scan_one q c")
    case (Inr q')
    have "length r \<le> length cs" if "cut_value q' cs = Inr (v', r)" "fst q' \<noteq> EndTop" for v'
      using 2(1) [OF Inr that(2,1)] .
    with 2(2) Inr show ?thesis
      by (cases "cut_value q' cs") (auto split: if_splits)
  qed (use 2(2) in simp)
qed

lemma read_value_shorter: "read_value s = Inr (v, r) \<Longrightarrow> length r \<le> length s"
  by (auto simp: read_value_def dest: cut_value_shorter split: if_splits)

lemma length_skip_space: "length (skip_space s) \<le> length s"
  by (simp add: skip_space_def length_dropWhile_le)

function store_members :: "struct_target \<Rightarrow> fields \<times> go_error option \<Rightarrow> string \<Rightarrow> (fields \<times> go_error option) option" where
  "store_members T st s =
     (case skip_space s of [] \<Rightarrow> None
      | c # cs \<Rightarrow>
          if c = CHR ''}'' then Some st
          else case read_body cs of None \<Rightarrow> None
            | Some (key, r) \<Rightarrow>
                (case read_value (tl (skip_space r)) of Inl err \<Rightarrow> None
                 | Inr (v, r') \<Rightarrow>
                     let st = store_member T key v st
                     in case skip_space r' of [] \<Rightarrow> None
                       | d # ds \<Rightarrow> if d = CHR '','' then store_members T st ds else Some st))"
  by pat_completeness auto
termination
proof (relation "measure (\<lambda>(T, st, s). length s)")
  fix T :: struct_target and st st' :: "fields \<times> go_error option" and s c cs p key r q v r' d ds
  assume a: "skip_space s = c # cs" "read_body cs = Some p" "(key, r) = p" "read_value (tl (skip_space r)) = Inr q"
    "(v, r') = q" "skip_space r' = d # ds"
  have "length ds < length r'" using a(6) length_skip_space [of r'] by simp
  also have "\<dots> \<le> length (tl (skip_space r))" using read_value_shorter [of "tl (skip_space r)" v r'] a(4,5) by simp
  also have "\<dots> \<le> length r" using length_skip_space [of r] by simp
  also have "\<dots> < length cs" using a(2,3) read_body_shorter [of cs key r] by auto
  also have "\<dots> < length s" using a(1) length_skip_space [of s] by simp
  finally show "((T, st', ds), T, st, s) \<in> measure (\<lambda>(T, st, s). length s)" by simp
qed simp

definition decode_value :: "struct_target \<Rightarrow> string \<Rightarrow> decoded" where
  "decode_value T v =
     (if value_kind v = ''null'' then DecodedNull
      else if value_kind v = ''object'' then
        (case store_members T ([], None) (tl (skip_space v)) of
           Some (fs, None) \<Rightarrow> DecodedFields fs
         | Some (fs, Some err) \<Rightarrow> DecodeError err
         | None \<Rightarrow> DecodeError [])
      else DecodeError (''json: cannot unmarshal '' @ value_kind v @ '' into Go value of type '' @ st_Type T))"

text \<open>
  \<open>Decoder.Decode\<close> takes the first value of the stream. \<open>Unmarshal\<close> wants the text to be one value and looks at it
  as a whole first; a null leaves the struct as it is.
\<close>

definition decode_stream :: "struct_target \<Rightarrow> string \<Rightarrow> decoded" where
  "decode_stream T s = (case read_value s of Inl err \<Rightarrow> DecodeError err | Inr (v, r) \<Rightarrow> decode_value T v)"

definition after_top_level :: "char \<Rightarrow> go_error" where
  "after_top_level c = ''invalid character '' @ quote_char c @ '' after top-level value''"

fun check_valid :: "scanner \<Rightarrow> string \<Rightarrow> go_error option" where
  "check_valid q [] =
     (if fst q = EndTop then None
      else case scan_one q CHR '' '' of
          Inl err \<Rightarrow> Some err
        | Inr q' \<Rightarrow> if fst q' = EndTop then None else Some ''unexpected end of JSON input'')"
| "check_valid q (c # cs) =
     (if fst q = EndTop then (if json_space c then check_valid q cs else Some (after_top_level c))
      else case scan_one q c of
          Inl err \<Rightarrow> Some err
        | Inr q' \<Rightarrow>
            if fst q' = EndTop \<and> snd q = [] \<and> \<not> json_space c then Some (after_top_level c)
            else check_valid q' cs)"

definition unmarshal_struct :: "struct_target \<Rightarrow> string \<Rightarrow> go_error + fields" where
  "unmarshal_struct T s =
     (case check_valid (BeginValue, []) s of
        Some err \<Rightarrow> Inl err
      | None \<Rightarrow>
          (case decode_value T s of
             DecodeError err \<Rightarrow> Inl err | DecodedNull \<Rightarrow> Inr [] | DecodedFields fs \<Rightarrow> Inr fs))"

text \<open>The value of a field, the zero value of its type where it was not set.\<close>

definition text_field :: "fields \<Rightarrow> string \<Rightarrow> string" where
  "text_field fs name = (case map_of fs name of Some (FString t) \<Rightarrow> t | _ \<Rightarrow> [])"

definition bool_field :: "fields \<Rightarrow> string \<Rightarrow> bool" where
  "bool_field fs name = (map_of fs name = Some (FBool True))"

lemmas json_scan_defs [go_defs] = quote_char_def scan_error_def push_state_def pop_state_def begin_value_def
  begin_string_def in_string_def in_exp_sign_def in_digit0_def read_value_def json_text_def skip_space_def
  value_kind_def find_field_def type_error_def save_error_def store_member_def decode_value_def decode_stream_def
  after_top_level_def unmarshal_struct_def text_field_def bool_field_def

section \<open>Scanning a text in pieces\<close>

fun scan_to :: "scanner \<Rightarrow> string \<Rightarrow> scanner option" where
  "scan_to q [] = Some q"
| "scan_to q (c # cs) =
     (case scan_one q c of Inl err \<Rightarrow> None
      | Inr q' \<Rightarrow> if fst q' = EndTop then None else scan_to q' cs)"

lemma scan_to_append: "scan_to q (s @ t) = Option.bind (scan_to q s) (\<lambda>q'. scan_to q' t)"
  by (induction q s rule: scan_to.induct) (auto split: sum.splits)

lemma cut_value_scan:
  "scan_to q s = Some q' \<Longrightarrow> cut_value q (s @ t) = map_sum id (\<lambda>(v, r). (s @ v, r)) (cut_value q' t)"
proof (induction q s rule: scan_to.induct)
  case (1 q)
  then show ?case by (cases "cut_value q t") auto
next
  case (2 q c cs)
  then obtain q1 where q1: "scan_one q c = Inr q1" "fst q1 \<noteq> EndTop" "scan_to q1 cs = Some q'"
    by (auto split: sum.splits if_splits)
  with 2(1) [OF q1(1,2,3)] show ?case
    by (cases "cut_value q' t") auto
qed

lemma cut_value_end: "cut_value (EndValue, []) s = Inr ([], s)"
  by (cases s) simp_all

lemma cut_value_split: "cut_value q s = Inr (v, r) \<Longrightarrow> s = v @ r"
proof (induction q s arbitrary: v rule: cut_value.induct)
  case (1 q)
  then show ?case by (auto split: sum.splits if_splits)
next
  case (2 q c cs)
  show ?case
  proof (cases "scan_one q c")
    case (Inr q')
    have "cs = v' @ r" if "cut_value q' cs = Inr (v', r)" "fst q' \<noteq> EndTop" for v'
      using 2(1) [OF Inr that(2,1)] .
    with 2(2) Inr show ?thesis
      by (cases "cut_value q' cs") (auto split: if_splits)
  qed (use 2(2) in simp)
qed

lemma read_value_split: "read_value s = Inr (v, r) \<Longrightarrow> s = v @ r"
  by (auto simp: read_value_def dest: cut_value_split split: if_splits)

lemma scan_spaces: "list_all json_space s \<Longrightarrow> scan_to (BeginValue, ps) s = Some (BeginValue, ps)"
  by (induction s) (simp_all add: begin_value_def)

lemma space_before: "\<exists>w. s = w @ skip_space s \<and> list_all json_space w"
  unfolding skip_space_def list_all_iff by (metis set_takeWhileD takeWhile_dropWhile_id)

lemma skip_space_first: "skip_space s = c # cs \<Longrightarrow> \<not> json_space c"
  unfolding skip_space_def by (metis dropWhile_eq_Cons_conv)

lemma skip_space_append: "skip_space s \<noteq> [] \<Longrightarrow> skip_space (s @ t) = skip_space s @ t"
  unfolding skip_space_def by (induction s) auto

lemma skip_spaces: "list_all json_space w \<Longrightarrow> skip_space (w @ s) = skip_space s"
  unfolding skip_space_def by (induction w) simp_all

lemma skip_space_Nil: "skip_space s = [] \<longleftrightarrow> list_all json_space s"
  by (auto simp: skip_space_def list_all_iff dropWhile_eq_Nil_conv)

text \<open>White space before a value is passed over, and taken with it.\<close>

lemma read_value_spaces:
  assumes "list_all json_space w"
  shows "read_value (w @ s) = map_sum id (\<lambda>(v, r). (w @ v, r)) (read_value s)"
  using cut_value_scan [OF scan_spaces [OF assms, of "[]"], of s] assms
  by (simp add: read_value_def)

lemma decode_stream_spaces: "list_all json_space w \<Longrightarrow> decode_stream T (w @ s) = decode_stream T s"
  by (cases "read_value s")
    (auto simp: decode_stream_def read_value_spaces decode_value_def value_kind_def skip_spaces)

section \<open>The null value\<close>

lemma read_value_first:
  assumes "read_value (c # cs) = Inr (v, r)" and "\<not> json_space c"
  obtains v' where "v = c # v'"
proof -
  have c: "cut_value (BeginValue, []) (c # cs) = Inr (v, r)" using assms by (simp add: read_value_def split: if_splits)
  obtain q where q: "scan_one (BeginValue, []) c = Inr q" "fst q \<noteq> EndTop"
    using c assms(2) by (fastforce simp: begin_value_def push_state_def scan_error_def split: if_splits sum.splits)
  with c that show ?thesis by (cases "cut_value q cs") auto
qed

lemma kind_null: "value_kind v = ''null'' \<longleftrightarrow> (\<exists>cs. skip_space v = CHR ''n'' # cs)"
  by (auto simp: value_kind_def split: list.splits if_splits)

lemma decode_value_null: "decode_value T v = DecodedNull \<longleftrightarrow> value_kind v = ''null''"
  by (auto simp: decode_value_def split: option.splits)

lemma scan_word:
  assumes "cut_value (InWord w ds, []) s = Inr (v, r)"
  shows "\<exists>t. s = ds @ t"
  using assms
proof (induction ds arbitrary: s v)
  case (Cons d ds)
  show ?case
  proof (cases s)
    case Nil
    with Cons.prems show ?thesis by (auto simp: scan_error_def split: if_splits)
  next
    case (Cons c cs)
    with Cons.prems have "c = d" by (auto simp: scan_error_def split: if_splits)
    with Cons.prems Cons Cons.IH [of cs] show ?thesis
      by (cases "ds = []"; cases "cut_value (InWord w ds, []) cs") auto
  qed
qed simp

text \<open>The null is all that is looked at: what follows it in the body is left.\<close>

lemma decode_null: "decode_stream T s = DecodedNull \<longleftrightarrow> (\<exists>r. skip_space s = ''null'' @ r)"
proof -
  obtain w where w: "s = w @ skip_space s" "list_all json_space w" using space_before by blast
  have same: "decode_stream T s = decode_stream T (skip_space s)" using decode_stream_spaces [OF w(2)] w(1) by metis
  have "decode_stream T (skip_space s) = DecodedNull \<longleftrightarrow> (\<exists>r. skip_space s = ''null'' @ r)"
  proof
    assume "decode_stream T (skip_space s) = DecodedNull"
    then obtain v r where v: "read_value (skip_space s) = Inr (v, r)" "value_kind v = ''null''"
      by (auto simp: decode_stream_def decode_value_null split: sum.splits)
    obtain c cs where s: "skip_space s = c # cs"
      using v(1) by (cases "skip_space s") (auto simp: read_value_def)
    have nosp: "\<not> json_space c" using skip_space_first [OF s] .
    obtain v' where "v = c # v'" using read_value_first [OF v(1) [unfolded s] nosp] .
    with v(2) nosp have n: "c = CHR ''n''" by (auto simp: kind_null skip_space_def)
    have "cut_value (BeginValue, []) (c # cs) = Inr (v, r)" using v(1) s nosp by (simp add: read_value_def)
    then obtain u where "cut_value (InWord ''null'' ''ull'', []) cs = Inr (u, r)"
      by (cases "cut_value (InWord ''null'' ''ull'', []) cs") (auto simp: n begin_value_def json_space_def)
    from scan_word [OF this] s n show "\<exists>r. skip_space s = ''null'' @ r" by simp
  next
    assume "\<exists>r. skip_space s = ''null'' @ r"
    then obtain r where r: "skip_space s = ''null'' @ r" by blast
    have "scan_to (BeginValue, []) ''null'' = Some (EndValue, [])" by (simp add: begin_value_def json_space_def)
    from cut_value_scan [OF this, of r] have "cut_value (BeginValue, []) (''null'' @ r) = Inr (''null'', r)"
      by (simp only: cut_value_end) simp
    then have "read_value (''null'' @ r) = Inr (''null'', r)"
      by (simp add: read_value_def json_space_def del: cut_value.simps)
    moreover have "value_kind ''null'' = ''null''" by (simp add: kind_null skip_space_def json_space_def)
    ultimately show "decode_stream T (skip_space s) = DecodedNull"
      unfolding r decode_stream_def by (simp add: decode_value_null)
  qed
  with same show ?thesis by simp
qed

section \<open>Marshalled values are scanned\<close>

lemma scan_plain: "list_all (\<lambda>c. 32 \<le> (of_char c :: nat) \<and> c \<noteq> quote \<and> c \<noteq> backslash) s
    \<Longrightarrow> scan_to (InString, ps) s = Some (InString, ps)"
  by (induction s) (simp_all add: in_string_def)

lemma scan_escape:
  "e \<in> set ''bfnrt/'' \<or> e = backslash \<or> e = quote \<Longrightarrow> scan_to (InString, ps) (backslash # e # s) = scan_to (InString, ps) s"
  by (auto simp: in_string_def)

lemma scan_unicode:
  "is_hex a \<Longrightarrow> is_hex b \<Longrightarrow> is_hex c \<Longrightarrow> is_hex d
    \<Longrightarrow> scan_to (InString, ps) (backslash # CHR ''u'' # a # b # c # d # s) = scan_to (InString, ps) s"
  by (simp add: in_string_def)

lemma hex_chars: "is_hex CHR ''0''" "is_hex CHR ''2''" "is_hex CHR ''8''" "is_hex CHR ''9''" "is_hex CHR ''d''" "is_hex CHR ''f''"
  by (simp_all add: is_hex_def is_digit_def)

lemma scan_json_ascii:
  assumes "(of_char c :: nat) < 128"
  shows "scan_to (InString, ps) (json_ascii c) = Some (InString, ps)"
proof -
  have "(of_char c :: nat) div 16 < 16" "(of_char c :: nat) mod 16 < 16" using assms by simp_all
  then have h: "is_hex (hex_digit (of_char c div 16))" "is_hex (hex_digit (of_char c mod 16))"
    using hex_digits by blast+
  let ?u = "backslash # CHR ''u'' # CHR ''0'' # CHR ''0'' # [hex_digit (of_char c div 16), hex_digit (of_char c mod 16)]"
  have u: "scan_to (InString, ps) ?u = Some (InString, ps)"
    using scan_unicode [OF hex_chars(1,1) h, of ps "[]"] by (simp del: scan_to.simps(2))
  have e: "scan_to (InString, ps) [backslash, x] = Some (InString, ps)" if "x \<in> {quote, backslash, CHR ''n'', CHR ''r'', CHR ''t''}" for x
    using scan_escape [of x ps "[]"] that by (auto simp del: scan_to.simps(2))
  have p: "scan_to (InString, ps) [c] = Some (InString, ps)" if "\<not> (of_char c :: nat) < 32" "c \<noteq> quote" "c \<noteq> backslash"
    using that by (intro scan_plain) simp
  show ?thesis unfolding json_ascii_def Let_def
    by (simp del: scan_to.simps(2) add: u e p)
qed

lemma scan_json_rune:
  assumes "\<And>x. x \<in> set r \<Longrightarrow> 128 \<le> (of_char x :: nat)"
  shows "scan_to (InString, ps) (json_rune r) = Some (InString, ps)"
proof -
  have "32 \<le> (of_char x :: nat) \<and> x \<noteq> quote \<and> x \<noteq> backslash" if "x \<in> set r" for x
    using assms [OF that] by auto
  then have "scan_to (InString, ps) r = Some (InString, ps)" by (intro scan_plain) (simp add: list_all_iff)
  moreover have "scan_to (InString, ps) (backslash # ''u2028'') = Some (InString, ps)"
    "scan_to (InString, ps) (backslash # ''u2029'') = Some (InString, ps)"
    by (simp_all add: scan_unicode hex_chars del: scan_to.simps(2))
  ultimately show ?thesis unfolding json_rune_def by (simp only: split: if_split) blast
qed

lemma scan_json_body: "scan_to (InString, ps) (json_body s) = Some (InString, ps)"
proof (induction s rule: json_body.induct)
  case (2 c cs)
  have "scan_to (InString, ps) (backslash # ''ufffd'') = Some (InString, ps)"
    by (simp add: scan_unicode hex_chars del: scan_to.simps(2))
  moreover have "scan_to (InString, ps) (json_rune (take (rune_length (c # cs)) (c # cs))) = Some (InString, ps)"
    if "\<not> (of_char c :: nat) < 128"
    using that rune_bytes_high [of c _ cs] by (intro scan_json_rune) auto
  ultimately show ?case using 2
    using scan_to_append [of "(InString, ps)" "backslash # ''ufffd''" "json_body cs"]
    by (auto simp: scan_json_ascii scan_to_append)
qed simp

lemma scan_json_string:
  "scan_to (BeginValue, ps) (json_string s) = Some (EndValue, ps)"
  "q \<in> {BeginStringOrEmpty, BeginString} \<Longrightarrow> scan_to (q, ps) (json_string s) = Some (EndValue, ps)"
  by (auto simp: json_string_def scan_to_append scan_json_body begin_value_def begin_string_def json_space_def in_string_def)

text \<open>
  A value that takes \<open>n\<close> levels, inside an object or array: the automaton comes through it and stands where a
  comma or a bracket ends it.
\<close>

definition ends :: "scanner option \<Rightarrow> parse_state list \<Rightarrow> bool" where
  "ends q ps \<longleftrightarrow> (\<exists>q'. q = Some q' \<and> snd q' = ps \<and> (\<forall>c \<in> set '',]}''. scan_one q' c = end_value ps c))"

definition scans :: "nat \<Rightarrow> string \<Rightarrow> bool" where
  "scans n v \<longleftrightarrow> (\<forall>p ps. length ps + n < max_nesting_depth \<longrightarrow> ends (scan_to (BeginValue, p # ps) v) (p # ps))"

lemma ends_value: "ends (Some (EndValue, ps)) ps"
  by (simp add: ends_def)

lemma scans_string: "scans n (json_string s)"
  by (simp add: scans_def scan_json_string ends_value)

lemma scans_plain:
  assumes "list_all (\<lambda>c. 32 \<le> (of_char c :: nat) \<and> c \<noteq> quote \<and> c \<noteq> backslash) s"
  shows "scans n (quote # s @ [quote])"
  by (simp add: scans_def ends_value scan_to_append scan_plain [OF assms] begin_value_def json_space_def in_string_def)

lemma scans_null: "scans n ''null''"
  by (simp add: scans_def ends_value begin_value_def json_space_def)

subsection \<open>Numbers\<close>

lemma scan_digits: "list_all is_digit s \<Longrightarrow> scan_to (Digit1, ps) s = Some (Digit1, ps)"
  by (induction s) simp_all

lemma itoa_nat_first: "0 < n \<Longrightarrow> \<exists>c cs. itoa_nat n = c # cs \<and> is_digit c \<and> c \<noteq> CHR ''0'' \<and> list_all is_digit cs"
proof (induction n rule: itoa_nat.induct)
  case (1 n)
  show ?case
  proof (cases "n < 10")
    case True
    have "digit_char n \<noteq> CHR ''0''"
    proof
      assume "digit_char n = CHR ''0''"
      then have "(of_char (digit_char n) :: nat) = 48" by simp
      with True 1 show False by simp
    qed
    with True show ?thesis by (subst itoa_nat.simps) simp
  next
    case False
    then have "0 < n div 10" by (simp add: div_greater_zero_iff)
    with 1 False obtain c cs where "itoa_nat (n div 10) = c # cs" "is_digit c" "c \<noteq> CHR ''0''" "list_all is_digit cs" by auto
    with False show ?thesis by (subst itoa_nat.simps) simp
  qed
qed

lemma digit_bounds: "is_digit c \<Longrightarrow> \<not> json_space c \<and> c \<notin> set ''{[-tfn'' \<and> c \<noteq> quote"
  by (auto simp: is_digit_def json_space_def)

lemma scan_itoa_nat:
  assumes "q \<in> {BeginValue, Neg}"
  shows "scan_to (q, ps) (itoa_nat n) \<in> {Some (Digit0, ps), Some (Digit1, ps)}"
proof (cases "n = 0")
  case True
  then have "itoa_nat n = ''0''" by (simp add: itoa_nat.simps digit_char_def char_of_def bit_Suc_0_iff)
  with assms show ?thesis by (auto simp: begin_value_def json_space_def)
next
  case False
  with itoa_nat_first [of n] obtain c cs where c: "itoa_nat n = c # cs" "is_digit c" "c \<noteq> CHR ''0''" "list_all is_digit cs" by auto
  with assms digit_bounds [OF c(2)] show ?thesis by (auto simp: begin_value_def scan_digits)
qed

lemma scans_itoa: "scans n (itoa i)"
proof -
  have e: "ends (Some (d, ps)) ps" if "d \<in> {Digit0, Digit1}" for d ps
    using that by (auto simp: ends_def in_digit0_def is_digit_def)
  have "scan_to (BeginValue, ps) (itoa i) \<in> {Some (Digit0, ps), Some (Digit1, ps)}" for ps
    using scan_itoa_nat [of BeginValue ps "nat i"] scan_itoa_nat [of Neg ps "nat (- i)"]
    by (auto simp: itoa_def begin_value_def json_space_def)
  with e show ?thesis unfolding scans_def by (metis insertE insertI1 insertI2 singletonD)
qed

subsection \<open>Objects and arrays\<close>

lemma ends_append:
  assumes "ends (scan_to q v) ps" and "c \<in> set '',]}''" and "end_value ps c = Inr q'" and "fst q' \<noteq> EndTop"
  shows "scan_to q (v @ c # s) = scan_to q' s"
proof -
  from assms(1,2) obtain q1 where "scan_to q v = Some q1" "scan_one q1 c = end_value ps c" by (auto simp: ends_def)
  with assms(3,4) show ?thesis by (simp add: scan_to_append)
qed

definition member_text :: "string \<times> string \<Rightarrow> string" where
  "member_text m = json_string (fst m) @ '':'' @ snd m"

lemma scan_member:
  assumes "scans n (snd m)" and "length ps + n < max_nesting_depth" and "q \<in> {BeginStringOrEmpty, BeginString}"
  shows "ends (scan_to (q, ObjectKey # ps) (member_text m)) (ObjectValue # ps)"
proof -
  have "scan_to (q, ObjectKey # ps) (member_text m) = scan_to (BeginValue, ObjectValue # ps) (snd m)"
    by (simp add: member_text_def scan_to_append scan_json_string(2) [OF assms(3)] json_space_def)
  with assms(1,2) show ?thesis by (simp add: scans_def)
qed

lemma scan_members:
  assumes "\<And>m. m \<in> set (m0 # ms) \<Longrightarrow> scans n (snd m)" and "length ps + n < max_nesting_depth"
    and "q \<in> {BeginStringOrEmpty, BeginString}"
  shows "ends (scan_to (q, ObjectKey # ps) (join_with '','' (map member_text (m0 # ms)))) (ObjectValue # ps)"
  using assms
proof (induction ms arbitrary: m0 q)
  case Nil
  then show ?case using scan_member [of n m0 ps q] by simp
next
  case (Cons m1 ms)
  have "scan_to (q, ObjectKey # ps) (member_text m0 @ CHR '','' # join_with '','' (map member_text (m1 # ms)))
      = scan_to (BeginString, ObjectKey # ps) (join_with '','' (map member_text (m1 # ms)))"
    by (rule ends_append [OF scan_member [of n]]) (use Cons.prems in \<open>auto simp: json_space_def\<close>)
  with Cons.IH [of m1 BeginString] Cons.prems show ?case by simp
qed

definition object_text :: "(string \<times> string) list \<Rightarrow> string" where
  "object_text ms = ''{'' @ join_with '','' (map member_text ms) @ ''}''"

lemma scans_object:
  assumes "\<And>m. m \<in> set ms \<Longrightarrow> scans n (snd m)"
  shows "scans (Suc (Suc n)) (object_text ms)"
  unfolding scans_def
proof (intro allI impI)
  fix p and ps :: "parse_state list"
  assume d: "length ps + Suc (Suc n) < max_nesting_depth"
  let ?ps = "p # ps"
  have open_brace: "scan_to (BeginValue, ?ps) (''{'' @ s) = scan_to (BeginStringOrEmpty, ObjectKey # ?ps) s" for s
    using d by (simp add: begin_value_def json_space_def push_state_def)
  have "scan_to (BeginStringOrEmpty, ObjectKey # ?ps) (join_with '','' (map member_text ms) @ ''}'') = Some (EndValue, ?ps)"
  proof (cases ms)
    case Nil
    then show ?thesis by (simp add: json_space_def pop_state_def)
  next
    case (Cons m0 ms')
    have "ends (scan_to (BeginStringOrEmpty, ObjectKey # ?ps) (join_with '','' (map member_text ms))) (ObjectValue # ?ps)"
      unfolding Cons by (rule scan_members [of m0 ms' n]) (use assms Cons d in auto)
    from ends_append [OF this, of "CHR ''}''" "(EndValue, ?ps)" "[]"] show ?thesis
      by (simp add: json_space_def pop_state_def)
  qed
  then show "ends (scan_to (BeginValue, ?ps) (object_text ms)) ?ps"
    unfolding object_text_def open_brace by (simp add: ends_value)
qed

lemma scan_elements:
  assumes "\<And>v. v \<in> set (v0 # vs) \<Longrightarrow> scans n v" and "length ps + n < max_nesting_depth"
  shows "ends (scan_to (BeginValue, ArrayValue # ps) (join_with '','' (v0 # vs))) (ArrayValue # ps)"
  using assms
proof (induction vs arbitrary: v0)
  case Nil
  then show ?case by (simp add: scans_def)
next
  case (Cons v1 vs)
  have "scan_to (BeginValue, ArrayValue # ps) (v0 @ CHR '','' # join_with '','' (v1 # vs))
      = scan_to (BeginValue, ArrayValue # ps) (join_with '','' (v1 # vs))"
    by (rule ends_append) (use Cons.prems in \<open>auto simp: scans_def json_space_def\<close>)
  with Cons.IH [of v1] Cons.prems show ?case by simp
qed

text \<open>The first character of a value opens it in the same way at the start of an array.\<close>

lemma scan_or_empty:
  assumes "\<not> json_space c" and "c \<noteq> CHR '']''"
  shows "scan_to (BeginValueOrEmpty, ps) (c # cs) = scan_to (BeginValue, ps) (c # cs)"
  using assms by simp

lemma array_is_text:
  assumes "\<And>v. v \<in> set vs \<Longrightarrow> scans n v \<and> v \<noteq> [] \<and> \<not> json_space (hd v) \<and> hd v \<noteq> CHR '']''" and "n < max_nesting_depth"
  shows "json_text (''['' @ join_with '','' vs @ '']'')"
proof -
  let ?j = "join_with '','' vs"
  obtain q where q: "scan_to (BeginValueOrEmpty, [ArrayValue]) ?j = Some q" "scan_one q CHR '']'' = Inr (EndTop, [])"
    "snd q \<noteq> []"
  proof (cases vs)
    case Nil
    then show ?thesis using that [of "(BeginValueOrEmpty, [ArrayValue])"] by (simp add: json_space_def pop_state_def)
  next
    case (Cons v0 vs')
    obtain c cs where v0: "v0 = c # cs" using assms(1) [of v0] Cons by (cases v0) auto
    have "?j = c # tl ?j" by (cases vs') (simp_all add: Cons v0)
    moreover have "\<not> json_space c" "c \<noteq> CHR '']''" using assms(1) [of v0] Cons v0 by auto
    ultimately have "scan_to (BeginValueOrEmpty, [ArrayValue]) ?j = scan_to (BeginValue, [ArrayValue]) ?j"
      using scan_or_empty [of c "[ArrayValue]" "tl ?j"] by metis
    moreover have "ends (scan_to (BeginValue, [ArrayValue]) ?j) [ArrayValue]"
      unfolding Cons by (rule scan_elements [of v0 vs' n]) (use assms Cons in auto)
    ultimately obtain q where "scan_to (BeginValueOrEmpty, [ArrayValue]) ?j = Some q"
      "scan_one q CHR '']'' = end_value [ArrayValue] CHR '']''" "snd q = [ArrayValue]"
      by (auto simp: ends_def)
    then show ?thesis using that by (simp add: json_space_def pop_state_def)
  qed
  have "cut_value (BeginValue, []) (''['' @ ?j @ '']'')
      = map_sum id (\<lambda>(v, r). (CHR ''['' # v, r)) (cut_value (BeginValueOrEmpty, [ArrayValue]) (?j @ '']''))"
    by (simp add: begin_value_def json_space_def push_state_def max_nesting_depth_def)
  also have "cut_value (BeginValueOrEmpty, [ArrayValue]) (?j @ '']'') = Inr (?j @ '']'', [])"
    using cut_value_scan [OF q(1), of "'']''"] q(2,3) by simp
  finally show ?thesis by (simp add: json_text_def read_value_def json_space_def)
qed

section \<open>Decoding an object\<close>

text \<open>A value that is cut off a stream as it is, whatever ends it.\<close>

definition readable :: "string \<Rightarrow> bool" where
  "readable v \<longleftrightarrow> scans 0 v \<and> skip_space v = v \<and> v \<noteq> []
    \<and> (\<forall>d \<in> set '',}''. \<forall>s. read_value (v @ d # s) = Inr (v, d # s))"

lemma skip_space_visible: "\<not> json_space c \<Longrightarrow> skip_space (c # s) = c # s"
  by (simp add: skip_space_def)

lemma read_string_value: "read_value (json_string t @ s) = Inr (json_string t, s)"
  using cut_value_scan [OF scan_json_string(1) [of "[]" t], of s]
  by (simp add: read_value_def cut_value_end json_string_def json_space_def del: cut_value.simps)

lemma skip_space_string: "skip_space (json_string t @ s) = json_string t @ s"
  by (simp add: json_string_def skip_space_visible json_space_def)

lemma readable_string: "readable (json_string t)"
proof -
  have "json_string t \<noteq> []" by (simp add: json_string_def)
  then show ?thesis
    using skip_space_string [of t "[]"] by (simp add: readable_def read_string_value scans_string)
qed

definition bool_text :: "bool \<Rightarrow> string" where
  "bool_text b = (if b then ''true'' else ''false'')"

lemma scan_bool: "scan_to (BeginValue, ps) (bool_text b) = Some (EndValue, ps)"
  by (simp add: bool_text_def begin_value_def json_space_def)

lemma readable_bool: "readable (bool_text b)"
proof -
  have "scans 0 (bool_text b)" by (simp add: scans_def scan_bool ends_value)
  moreover have "skip_space (bool_text b) = bool_text b" "bool_text b \<noteq> []" "\<not> list_all json_space (bool_text b @ s)" for s
    by (simp_all add: bool_text_def skip_space_visible json_space_def)
  ultimately show ?thesis
    using cut_value_scan [OF scan_bool [of "[]" b]]
    by (simp add: readable_def read_value_def cut_value_end del: cut_value.simps)
qed

definition stored :: "struct_target \<Rightarrow> (string \<times> string) list \<Rightarrow> fields \<times> go_error option \<Rightarrow> fields \<times> go_error option" where
  "stored T ms = fold (\<lambda>m. store_member T (to_valid (fst m)) (snd m)) ms"

lemma stored_simps [simp]: "stored T [] st = st" "stored T (m # ms) st = stored T ms (store_member T (to_valid (fst m)) (snd m) st)"
  "stored T (ms @ ms') st = stored T ms' (stored T ms st)"
  by (simp_all add: stored_def)

lemma store_one_member:
  assumes "readable (snd m)" and "d \<in> set '',}''"
  shows "store_members T st (member_text m @ d # s)
    = (if d = CHR '','' then store_members T (store_member T (to_valid (fst m)) (snd m) st) s
       else Some (store_member T (to_valid (fst m)) (snd m) st))"
proof -
  let ?s = "member_text m @ d # s"
  obtain c cs where v: "snd m = c # cs" "\<not> json_space c"
    using assms(1) skip_space_first [of "snd m"] by (cases "snd m") (auto simp: readable_def)
  have 1: "skip_space ?s = quote # json_body (fst m) @ quote # CHR '':'' # snd m @ d # s"
    by (simp add: member_text_def json_string_def skip_space_visible json_space_def)
  have 2: "tl (skip_space (CHR '':'' # snd m @ d # s)) = snd m @ d # s"
    by (simp add: skip_space_visible json_space_def)
  have 3: "read_value (snd m @ d # s) = Inr (snd m, d # s)" using assms by (auto simp: readable_def)
  have 4: "skip_space (d # s) = d # s" using assms(2) by (auto simp: skip_space_visible json_space_def)
  show ?thesis
    by (subst store_members.simps)
      (simp add: 1 2 3 4 read_json_body del: store_members.simps read_body.simps cut_value.simps)
qed

lemma store_all_members:
  assumes "\<And>m. m \<in> set (m0 # ms) \<Longrightarrow> readable (snd m)"
  shows "store_members T st (join_with '','' (map member_text (m0 # ms)) @ CHR ''}'' # s) = Some (stored T (m0 # ms) st)"
  using assms
proof (induction ms arbitrary: m0 st)
  case Nil
  then show ?case by (simp add: store_one_member del: store_members.simps)
next
  case (Cons m1 ms)
  then show ?case by (simp add: store_one_member del: store_members.simps)
qed

lemma read_object_value:
  assumes "\<And>m. m \<in> set ms \<Longrightarrow> scans n (snd m)" and "Suc n < max_nesting_depth"
  shows "read_value (object_text ms @ s) = Inr (object_text ms, s)"
proof -
  let ?j = "join_with '','' (map member_text ms)"
  obtain q where q: "scan_to (BeginStringOrEmpty, [ObjectKey]) ?j = Some q" "scan_one q CHR ''}'' = Inr (EndTop, [])"
    "snd q \<noteq> []"
  proof (cases ms)
    case Nil
    then show ?thesis using that [of "(BeginStringOrEmpty, [ObjectKey])"] by (simp add: json_space_def pop_state_def)
  next
    case (Cons m0 ms')
    have "ends (scan_to (BeginStringOrEmpty, [ObjectKey]) ?j) [ObjectValue]"
      unfolding Cons by (rule scan_members [of m0 ms' n]) (use assms Cons in auto)
    with that show ?thesis by (auto simp: ends_def json_space_def pop_state_def)
  qed
  have "cut_value (BeginValue, []) (object_text ms @ s)
      = map_sum id (\<lambda>(v, r). (CHR ''{'' # v, r)) (cut_value (BeginStringOrEmpty, [ObjectKey]) (?j @ CHR ''}'' # s))"
    by (simp add: object_text_def begin_value_def json_space_def push_state_def max_nesting_depth_def)
  also have "cut_value (BeginStringOrEmpty, [ObjectKey]) (?j @ CHR ''}'' # s) = Inr (?j @ ''}'', s)"
    using cut_value_scan [OF q(1), of "CHR ''}'' # s"] q(2,3) by simp
  finally show ?thesis by (simp add: object_text_def read_value_def json_space_def del: cut_value.simps)
qed

fun as_decoded :: "fields \<times> go_error option \<Rightarrow> decoded" where
  "as_decoded (fs, None) = DecodedFields fs"
| "as_decoded (fs, Some err) = DecodeError err"

lemma decode_object_value:
  assumes "\<And>m. m \<in> set ms \<Longrightarrow> readable (snd m)"
  shows "decode_value T (object_text ms) = as_decoded (stored T ms ([], None))"
proof -
  have "store_members T ([], None) (join_with '','' (map member_text ms) @ ''}'') = Some (stored T ms ([], None))"
  proof (cases ms)
    case Nil
    then show ?thesis by (simp add: skip_space_visible json_space_def)
  next
    case (Cons m ms')
    then show ?thesis using store_all_members [of m ms' T "([], None)" "[]"] assms by (simp del: store_members.simps stored_simps)
  qed
  then show ?thesis
    by (cases "stored T ms ([], None)"; cases "snd (stored T ms ([], None))")
      (simp_all add: decode_value_def value_kind_def object_text_def skip_space_visible json_space_def del: store_members.simps)
qed

lemma decode_object:
  assumes "list_all json_space w" and "\<And>m. m \<in> set ms \<Longrightarrow> readable (snd m)"
  shows "decode_stream T (w @ object_text ms @ s) = as_decoded (stored T ms ([], None))"
proof -
  have "read_value (object_text ms @ s) = Inr (object_text ms, s)"
    by (rule read_object_value [where n = 0]) (use assms(2) in \<open>auto simp: readable_def max_nesting_depth_def\<close>)
  then show ?thesis
    unfolding decode_stream_spaces [OF assms(1)] unfolding decode_stream_def
    by (simp add: decode_object_value [OF assms(2)])
qed

text \<open>What a member does that is a string or a boolean.\<close>

lemma string_kind: "value_kind (json_string t) = ''string''"
  using skip_space_string [of t "[]"] by (simp add: value_kind_def json_string_def)

lemma store_string_member:
  "find_field T (to_valid k) = Some (n, KString ty)
    \<Longrightarrow> store_member T (to_valid k) (json_string v) (fs, err) = (AList.update n (FString (to_valid v)) fs, err)"
proof -
  have "read_body (tl (skip_space (json_string v))) = Some (to_valid v, [])"
    using skip_space_string [of v "[]"] read_json_body [of v "[]"] by (simp add: json_string_def)
  then show "find_field T (to_valid k) = Some (n, KString ty)
    \<Longrightarrow> store_member T (to_valid k) (json_string v) (fs, err) = (AList.update n (FString (to_valid v)) fs, err)"
    by (simp add: store_member_def string_kind)
qed

lemma store_bool_member:
  "find_field T (to_valid k) = Some (n, KBool)
    \<Longrightarrow> store_member T (to_valid k) (bool_text b) (fs, err) = (AList.update n (FBool b) fs, err)"
  by (simp add: store_member_def bool_text_def value_kind_def skip_space_visible json_space_def)

lemma store_other_member: "find_field T (to_valid k) = None \<Longrightarrow> store_member T (to_valid k) v st = st"
  by (simp add: store_member_def split: prod.split)

end
