(* ===== verification/Go_Json_Phase.thy ===== *)
theory Go_Json_Phase
  imports Go_Json_Scan
begin

text \<open>
  \<open>Decode\<close> reads a value twice, first with the scanner to find its end, then to store it, and panics should the
  two disagree. Here they are shown to agree for the targets of \<open>Go\_Json\_Scan\<close>: an object that was cut off is
  stored to its end.
\<close>

section \<open>Texts the scanner takes\<close>

text \<open>A text the automaton takes as a whole, up to the end of a value.\<close>

definition through :: "scanner \<Rightarrow> string \<Rightarrow> bool" where
  "through q s \<longleftrightarrow> cut_value q s = Inr (s, [])"

lemma through_Cons: "through q (c # cs) \<longleftrightarrow>
    (\<exists>q'. scan_one q c = Inr q' \<and> (if fst q' = EndTop then snd q \<noteq> [] \<and> cs = [] else through q' cs))"
proof (cases "scan_one q c")
  case (Inr q')
  then show ?thesis by (cases "cut_value q' cs") (auto simp: through_def)
qed (simp add: through_def)

lemma through_scan: "scan_to q s = Some q' \<Longrightarrow> through q (s @ t) \<longleftrightarrow> through q' t"
  by (cases "cut_value q' t") (auto simp: through_def cut_value_scan)

text \<open>States that are left only inside an object or an array.\<close>

fun nested :: "scanner \<Rightarrow> bool" where
  "nested (pos, ps) = (pos \<noteq> EndTop \<and> (pos \<in> {BeginValueOrEmpty, BeginStringOrEmpty, BeginString} \<longrightarrow> ps \<noteq> []))"

lemmas step_defs = begin_value_def begin_string_def in_string_def in_exp_sign_def in_digit0_def push_state_def
  pop_state_def scan_error_def

lemma nested_step: "nested q \<Longrightarrow> scan_one q c = Inr q' \<Longrightarrow> fst q' \<noteq> EndTop \<Longrightarrow> nested q'"
proof -
  have e: "nested q'" if "end_value ps c = Inr q'" "fst q' \<noteq> EndTop" for ps c
    using that by (cases ps) (auto simp: scan_error_def pop_state_def split: if_splits parse_state.splits)
  assume "nested q" "scan_one q c = Inr q'" "fst q' \<noteq> EndTop"
  then show "nested q'"
    by (cases "(q, c)" rule: scan_one.cases) (auto simp: step_defs dest!: e split: if_splits)
qed

lemma ends_at_space:
  assumes "nested q" and "scan_one q c = Inr q'" and "fst q' = EndTop" and "snd q = []"
  shows "\<exists>q''. scan_one q CHR '' '' = Inr q'' \<and> fst q'' = EndTop"
  using assms
  by (cases "(q, c)" rule: scan_one.cases) (auto simp: step_defs is_digit_def split: if_splits)

lemma nested_step_deep:
  assumes "nested (pos, ps)" and "scan_one (pos, ps @ [o']) c = Inr q'"
  shows "(\<exists>pos' ps'. q' = (pos', ps' @ [o']) \<and> nested (pos', ps') \<and> scan_one (pos, ps) c = Inr (pos', ps'))
    \<or> (q' = (EndValue, [o']) \<and> ps \<noteq> [] \<and> scan_one (pos, ps) c = Inr (EndTop, []))
    \<or> (ps = [] \<and> scan_one (pos, []) c = Inr (EndTop, []) \<and> scan_one (EndValue, [o']) c = Inr q')"
proof -
  define S where "S r c \<longleftrightarrow> (\<exists>pos' ps'. q' = (pos', ps' @ [o']) \<and> nested (pos', ps') \<and> r = Inr (pos', ps'))
    \<or> (q' = (EndValue, [o']) \<and> ps \<noteq> [] \<and> r = Inr (EndTop, []))
    \<or> (ps = [] \<and> r = Inr (EndTop, []) \<and> end_value [o'] c = Inr q')" for r :: "go_error + scanner" and c
  have e: "S (end_value ps c) c" if "end_value (ps @ [o']) c = Inr q'" for c
    using that unfolding S_def
    by (cases ps) (auto simp: scan_error_def pop_state_def split: if_splits parse_state.splits)
  have on: "S (Inr (pos', ps')) c" if "q' = (pos', ps' @ [o'])" "nested (pos', ps')" for pos' ps' c
    using that unfolding S_def by blast
  have top: "S (Inr (pop_state (tl ps))) c" if "q' = pop_state (tl ps @ [o'])" "ps \<noteq> []" for c
    using that unfolding S_def by (auto simp: pop_state_def)
  have "S (scan_one (pos, ps) c) c"
    using assms
    by (cases "((pos, ps @ [o']), c)" rule: scan_one.cases)
      (auto simp: step_defs simp del: end_value.simps nested.simps intro: e top split: if_splits intro!: on, auto intro: e top)
  then show ?thesis unfolding S_def scan_one.simps(5) by blast
qed

lemma nested_no_end: "ps \<noteq> [] \<Longrightarrow> pos \<noteq> EndTop \<Longrightarrow> scan_one (pos, ps) CHR '' '' = Inr q' \<Longrightarrow> fst q' \<noteq> EndTop"
  by (cases ps; cases "((pos, ps), CHR '' '')" rule: scan_one.cases) (auto simp: step_defs json_space_def is_digit_def split: if_splits)

lemma not_through_Nil: "ps \<noteq> [] \<Longrightarrow> pos \<noteq> EndTop \<Longrightarrow> \<not> through (pos, ps) []"
  using nested_no_end [of ps pos] by (auto simp: through_def split: sum.splits if_splits)

lemma cut_value_through:
  "cut_value q s = Inr (v, r) \<Longrightarrow> nested q \<Longrightarrow> through q v"
proof (induction s arbitrary: q v)
  case Nil
  then show ?case by (auto simp: through_def split: sum.splits if_splits)
next
  case (Cons c s)
  show ?case
  proof (cases "scan_one q c")
    case (Inr q')
    show ?thesis
    proof (cases "fst q' = EndTop")
      case True
      with Cons.prems Inr ends_at_space [of q c q'] show ?thesis
        by (cases "snd q = []") (auto simp: through_def)
    next
      case False
      with Cons.prems(1) Inr obtain v' where v: "cut_value q' s = Inr (v', r)" "v = c # v'"
        by (cases "cut_value q' s") auto
      with Cons.IH [OF v(1) nested_step [OF Cons.prems(2) Inr False]] Inr False show ?thesis
        by (simp add: through_Cons)
    qed
  qed (use Cons.prems in simp)
qed

section \<open>The pieces of an object\<close>

text \<open>A value inside an object is cut off in the same way on its own.\<close>

lemma through_value:
  assumes "through (pos, ps @ [o']) s" and "nested (pos, ps)"
  shows "\<exists>v s1. cut_value (pos, ps) s = Inr (v, s1) \<and> through (EndValue, [o']) s1"
  using assms
proof (induction s arbitrary: pos ps)
  case Nil
  then show ?case using not_through_Nil [of "ps @ [o']" pos] by simp
next
  case (Cons c s)
  from Cons.prems(1) obtain q' where q': "scan_one (pos, ps @ [o']) c = Inr q'"
      "if fst q' = EndTop then s = [] else through q' s"
    by (auto simp: through_Cons split: if_splits)
  from nested_step_deep [OF Cons.prems(2) q'(1)] consider
      (on) pos' ps' where "q' = (pos', ps' @ [o'])" "nested (pos', ps')" "scan_one (pos, ps) c = Inr (pos', ps')"
    | (close) "q' = (EndValue, [o'])" "ps \<noteq> []" "scan_one (pos, ps) c = Inr (EndTop, [])"
    | (literal) "ps = []" "scan_one (pos, []) c = Inr (EndTop, [])" "scan_one (EndValue, [o']) c = Inr q'"
    by blast
  then show ?case
  proof cases
    case on
    with q'(2) have "through (pos', ps' @ [o']) s" by (auto split: if_splits)
    from Cons.IH [OF this on(2)] on show ?thesis by (auto split: if_splits)
  next
    case close
    with q'(2) show ?thesis by auto
  next
    case literal
    with q' show ?thesis by (auto simp: through_Cons)
  qed
qed

lemma through_spaces:
  assumes "\<And>c. json_space c \<Longrightarrow> scan_one q c = Inr q" and "fst q \<noteq> EndTop"
  shows "through q s \<longleftrightarrow> through q (skip_space s)"
proof -
  obtain w where w: "s = w @ skip_space s" "list_all json_space w" using space_before by blast
  have "scan_to q w = Some q" using w(2) by (induction w) (simp_all add: assms)
  from through_scan [OF this, of "skip_space s"] w(1) show ?thesis by metis
qed

lemma end_value_next:
  assumes "through (EndValue, p # ps) s"
  obtains c cs where "skip_space s = c # cs" "\<not> json_space c" "through (EndValue, p # ps) (c # cs)"
proof -
  have t: "through (EndValue, p # ps) (skip_space s)"
    using assms through_spaces [of "(EndValue, p # ps)" s] by simp
  then show ?thesis using that not_through_Nil [of "p # ps" EndValue] skip_space_first [of s]
    by (cases "skip_space s") auto
qed

lemma through_hex:
  assumes "through (InStringEscU 3, ps) s" and "ps \<noteq> []"
  shows "\<exists>u. hex4 s = Some u \<and> through (InString, ps) (drop 4 s)"
proof -
  have step: "\<exists>c cs. s = c # cs \<and> is_hex c \<and> through (if n = 0 then InString else InStringEscU (n - 1), ps) cs"
    if "through (InStringEscU n, ps) s" for n s
    using that not_through_Nil [OF assms(2), of "InStringEscU n"]
    by (cases s) (auto simp: through_Cons scan_error_def split: if_splits)
  from step [OF assms(1)] obtain a s1 where a: "s = a # s1" "is_hex a" "through (InStringEscU 2, ps) s1" by auto
  from step [OF a(3)] obtain b s2 where b: "s1 = b # s2" "is_hex b" "through (InStringEscU 1, ps) s2" by auto
  from step [OF b(3)] obtain c s3 where c: "s2 = c # s3" "is_hex c" "through (InStringEscU 0, ps) s3" by auto
  from step [OF c(3)] obtain d s4 where d: "s3 = d # s4" "is_hex d" "through (InString, ps) s4" by auto
  from a b c d show ?thesis by (simp add: eval_nat_numeral)
qed

lemma through_low_surrogate:
  assumes "through (InString, ps) s" and "low_surrogate s = Some v" and "ps \<noteq> []"
  shows "through (InString, ps) (drop 6 s)"
proof -
  from assms(2) obtain r where s: "s = backslash # CHR ''u'' # r"
    by (cases s; cases "tl s") (auto simp: low_surrogate_def split: if_splits)
  with assms(1) have "through (InStringEscU 3, ps) r" by (auto simp: through_Cons in_string_def split: if_splits)
  from through_hex [OF this assms(3)] show ?thesis by (auto simp: s)
qed

lemma through_escape:
  assumes "through (InStringEsc, ps) cs" and "ps \<noteq> []"
  shows "\<exists>p n. read_escape cs = Some (p, n) \<and> through (InString, ps) (drop n cs)"
proof -
  obtain e rest where cs: "cs = e # rest" using assms not_through_Nil [of ps InStringEsc] by (cases cs) auto
  show ?thesis
  proof (cases "simple_escape e")
    case (Some x)
    then have "scan_one (InStringEsc, ps) e = Inr (InString, ps)"
      by (auto simp: simple_escape_def split: if_splits)
    with assms(1) Some show ?thesis by (auto simp: cs through_Cons read_escape_def)
  next
    case None
    then have e: "e = CHR ''u''" "through (InStringEscU 3, ps) rest"
      using assms(1) by (auto simp: cs through_Cons simple_escape_def scan_error_def split: if_splits)
    from through_hex [OF this(2) assms(2)] obtain u where u: "hex4 rest = Some u" "through (InString, ps) (drop 4 rest)" by blast
    show ?thesis
    proof (cases "low_surrogate (drop 4 rest)")
      case (Some v)
      have "through (InString, ps) (drop 10 rest)"
        using through_low_surrogate [OF u(2) Some assms(2)] by (simp add: drop_drop)
      with u None e(1) Some show ?thesis by (auto simp: cs read_escape_def)
    next
      case no: None
      with u None e(1) show ?thesis by (auto simp: cs read_escape_def)
    qed
  qed
qed

lemma through_piece:
  assumes "through (InString, ps) (c # cs)" and "c \<noteq> quote" and "ps \<noteq> []"
  shows "\<exists>p n. read_piece c cs = Some (p, n) \<and> through (InString, ps) (drop n cs)"
proof (cases "c = backslash")
  case True
  with assms through_escape [of ps cs] show ?thesis by (auto simp: through_Cons in_string_def read_piece_def)
next
  case False
  with assms have c: "\<not> (of_char c :: nat) < 32" "through (InString, ps) cs"
    by (auto simp: through_Cons in_string_def scan_error_def split: if_splits)
  show ?thesis
  proof (cases "(of_char c :: nat) < 128 \<or> rune_length (c # cs) = 0")
    case True
    with c False show ?thesis by (auto simp: read_piece_def)
  next
    case rune: False
    let ?n = "rune_length (c # cs) - 1"
    have "set (take ?n cs) \<subseteq> set (take (rune_length (c # cs)) (c # cs))"
      using rune by (cases "rune_length (c # cs)") auto
    then have "(of_char x :: nat) \<ge> 128" if "x \<in> set (take ?n cs)" for x
      using rune_bytes_high [of c x cs] rune that by auto
    then have "list_all (\<lambda>c. 32 \<le> (of_char c :: nat) \<and> c \<noteq> quote \<and> c \<noteq> backslash) (take ?n cs)"
      unfolding list_all_iff by force
    from through_scan [OF scan_plain [OF this], of ps "drop ?n cs"] c rune False show ?thesis
      by (auto simp: read_piece_def)
  qed
qed

lemma through_string:
  assumes "through (InString, ps) s" and "ps \<noteq> []"
  shows "\<exists>t r. read_body s = Some (t, r) \<and> through (EndValue, ps) r"
  using assms(1)
proof (induction s rule: read_body.induct)
  case 1
  then show ?case using not_through_Nil [OF assms(2), of InString] by simp
next
  case (2 c cs)
  show ?case
  proof (cases "c = quote")
    case True
    with "2.prems" show ?thesis by (auto simp: through_Cons in_string_def)
  next
    case False
    obtain p n where p: "read_piece c cs = Some (p, n)" "through (InString, ps) (drop n cs)"
      using through_piece [OF "2.prems" False assms(2)] by blast
    from "2.IH" [OF False p(1) refl p(2)] p(1) False show ?thesis by auto
  qed
qed

section \<open>Storing follows the scanner\<close>

lemma store_members_in_phase:
  assumes "through (q, [ObjectKey]) s" and "q \<in> {BeginStringOrEmpty, BeginString}"
  shows "\<exists>st'. store_members T st s = Some st'"
  using assms
proof (induction "length s" arbitrary: s q st rule: less_induct)
  case less
  have "through (q, [ObjectKey]) (skip_space s)"
    using less.prems through_spaces [of "(q, [ObjectKey])" s] by (auto simp: begin_string_def)
  moreover from this obtain c cs where s: "skip_space s = c # cs"
    using not_through_Nil [of "[ObjectKey]" q] less.prems(2) by (cases "skip_space s") auto
  ultimately have c: "through (q, [ObjectKey]) (c # cs)" by simp
  show ?case
  proof (cases "c = CHR ''}''")
    case True
    then show ?thesis by (subst store_members.simps) (simp add: s)
  next
    case False
    with c less.prems(2) skip_space_first [OF s] have "c = quote" "through (InString, [ObjectKey]) cs"
      by (auto simp: through_Cons begin_string_def scan_error_def split: if_splits)
    then obtain key r where r: "read_body cs = Some (key, r)" "through (EndValue, [ObjectKey]) r"
      using through_string [of "[ObjectKey]" cs] by auto
    obtain d r1 where d: "skip_space r = d # r1" "\<not> json_space d" "through (EndValue, [ObjectKey]) (d # r1)"
      using end_value_next [OF r(2)] .
    then have t: "through (BeginValue, [] @ [ObjectValue]) r1"
      by (auto simp: through_Cons scan_error_def split: if_splits)
    from through_value [OF this] obtain v r2 where v: "cut_value (BeginValue, []) r1 = Inr (v, r2)"
      "through (EndValue, [ObjectValue]) r2" by auto
    have "\<not> list_all json_space r1"
    proof
      assume "list_all json_space r1"
      from through_scan [OF scan_spaces [OF this, of "[ObjectValue]"], of "[]"] t not_through_Nil [of "[ObjectValue]" BeginValue]
      show False by simp
    qed
    with v(1) have rv: "read_value r1 = Inr (v, r2)" by (simp add: read_value_def)
    obtain e r3 where e: "skip_space r2 = e # r3" "\<not> json_space e" "through (EndValue, [ObjectValue]) (e # r3)"
      using end_value_next [OF v(2)] .
    show ?thesis
    proof (cases "e = CHR '',''")
      case True
      have "length r3 < length r2" "length r1 < length r" "length cs < length s"
        using e(1) d(1) s length_skip_space [of r2] length_skip_space [of r] length_skip_space [of s] by simp_all
      then have "length r3 < length s"
        using read_value_shorter [OF rv] read_body_shorter [OF r(1)] by simp
      moreover from True e(3) have "through (BeginString, [ObjectKey]) r3"
        by (auto simp: through_Cons json_space_def split: if_splits)
      ultimately have "\<exists>st'. store_members T (store_member T key v st) r3 = Some st'"
        using less.hyps [of r3 BeginString] by blast
      then show ?thesis using True False
        by (subst store_members.simps) (simp add: s r(1) d(1) rv e(1) del: store_members.simps)
    next
      case e': False
      then show ?thesis using False
        by (subst store_members.simps) (simp add: s r(1) d(1) rv e(1) del: store_members.simps)
    qed
  qed
qed

text \<open>An object the scanner has cut off is decoded to its end, so the case of a text out of phase never arises.\<close>

lemma decode_in_phase:
  assumes "read_value s = Inr (v, r)" and "value_kind v = ''object''"
  shows "\<exists>st'. store_members T st (tl (skip_space v)) = Some st'"
proof -
  have "cut_value (BeginValue, []) s = Inr (v, r)" using assms(1) by (simp add: read_value_def split: if_splits)
  from cut_value_through [OF this] have t: "through (BeginValue, []) v" by simp
  have "through (BeginValue, []) (skip_space v)"
    using through_spaces [of "(BeginValue, [])" v] t by (simp add: begin_value_def)
  moreover obtain cs where cs: "skip_space v = CHR ''{'' # cs"
    using assms(2) by (auto simp: value_kind_def split: list.splits if_splits)
  ultimately have "through (BeginStringOrEmpty, [ObjectKey]) cs"
    by (auto simp: through_Cons begin_value_def json_space_def push_state_def scan_error_def split: if_splits)
  from store_members_in_phase [OF this] show ?thesis by (simp add: cs)
qed

section \<open>Unmarshalling an object\<close>

lemma check_valid_through: "through q s \<Longrightarrow> nested q \<Longrightarrow> check_valid q s = None"
proof (induction s arbitrary: q)
  case Nil
  then show ?case by (cases q) (auto simp: through_def split: sum.splits if_splits)
next
  case (Cons c s)
  then obtain q' where q': "scan_one q c = Inr q'" "if fst q' = EndTop then snd q \<noteq> [] \<and> s = [] else through q' s"
    by (auto simp: through_Cons)
  moreover have "fst q \<noteq> EndTop" using Cons.prems(2) by (cases q) simp
  ultimately show ?case using Cons.IH [of q'] nested_step [OF Cons.prems(2) q'(1)]
    by (cases "fst q' = EndTop") auto
qed

lemma unmarshal_object_text:
  assumes "\<And>m. m \<in> set ms \<Longrightarrow> readable (snd m)" and "stored T ms ([], None) = (fs, None)"
  shows "unmarshal_struct T (object_text ms) = Inr fs"
proof -
  have "read_value (object_text ms) = Inr (object_text ms, [])"
    using read_object_value [of ms 0 "[]"] assms(1) by (auto simp: readable_def max_nesting_depth_def)
  then have "through (BeginValue, []) (object_text ms)" by (simp add: through_def read_value_def split: if_splits)
  from check_valid_through [OF this] show ?thesis
    by (simp add: unmarshal_struct_def decode_object_value [OF assms(1)] assms(2))
qed

end
