(* ===== verification/Server.thy ===== *)
theory Server
  imports Processing Go_Json_Phase
begin

text \<open>
  The http layer (\<open>server/handlers.go\<close>, \<open>server/router.go\<close>). Of \<open>net/http\<close> the model has
  what a handler sees: the method, the outcome of \<open>ParseForm\<close>, the headers, the remote address and
  the body of a request; status, headers and body of a response. \<open>time.Now\<close> is an argument. A panic in a handler is
  recovered by \<open>net/http\<close>, which closes the connection without an answer.
\<close>

section \<open>Requests and responses\<close>

record request =
  rq_Method :: string
  rq_Form :: "go_error option \<times> url_values"
  rq_Header :: header
  rq_RemoteAddr :: string
  rq_Body :: string

record response =
  rs_Status :: "nat option"
  rs_Header :: header
  rs_Body :: string

definition new_response :: response where
  "new_response = \<lparr>rs_Status = None, rs_Header = [], rs_Body = []\<rparr>"

text \<open>The first \<open>WriteHeader\<close> counts; a \<open>Write\<close> without one sends 200.\<close>

definition set_header :: "string \<Rightarrow> string \<Rightarrow> response \<Rightarrow> response" where
  "set_header k v w = w\<lparr>rs_Header := values_set (rs_Header w) (canonical_key k) v\<rparr>"

definition write_header :: "nat \<Rightarrow> response \<Rightarrow> response" where
  "write_header code w = (if rs_Status w = None then w\<lparr>rs_Status := Some code\<rparr> else w)"

definition write_body :: "string \<Rightarrow> response \<Rightarrow> response" where
  "write_body t w = (let w = write_header 200 w in w\<lparr>rs_Body := rs_Body w @ t\<rparr>)"

definition http_error :: "string \<Rightarrow> nat \<Rightarrow> response \<Rightarrow> response" where
  "http_error msg code w =
     write_body (msg @ [newline]) (write_header code
       (set_header ''X-Content-Type-Options'' ''nosniff''
         (set_header ''Content-Type'' ''text/plain; charset=utf-8'' w)))"

lemmas http_defs [go_defs] = new_response_def set_header_def write_header_def write_body_def http_error_def

section \<open>server/handlers.go: responses\<close>

definition headers_no_cache :: "nat \<Rightarrow> response \<Rightarrow> response" where
  "headers_no_cache statusCode w =
     write_header statusCode
       (set_header ''Expires'' ''Fri, 01 Jan 1990 00:00:00 GMT''
         (set_header ''Pragma'' ''no-cache''
           (set_header ''Cache-Control'' ''no-cache, no-store, must-revalidate'' w)))"

definition response_no_content :: "response \<Rightarrow> response" where
  "response_no_content w = headers_no_cache 204 w"

definition response_ok :: "response \<Rightarrow> response" where
  "response_ok w = write_body ''ok'' (headers_no_cache 200 w)"

definition response_error :: "go_error \<Rightarrow> response \<Rightarrow> response" where
  "response_error err w = write_body err (headers_no_cache 400 w)"

lemmas response_defs [go_defs] = headers_no_cache_def response_no_content_def response_ok_def response_error_def

section \<open>server/handlers.go: reading a request\<close>

definition apply_event_form_defaults :: "time \<Rightarrow> url_values \<Rightarrow> url_values" where
  "apply_event_form_defaults now form =
     (if \<not> values_has form ''created_at'' then values_set form ''created_at'' (format_date_time now)
      else form)"

definition parse_event_form :: "time \<Rightarrow> request \<Rightarrow> go_error + url_values" where
  "parse_event_form now r =
     (case rq_Form r of
        (Some err, form) \<Rightarrow> Inl err
      | (None, form) \<Rightarrow> Inr (apply_event_form_defaults now form))"

text \<open>The condition is on \<open>result\<close>, the remote address, not on the header.\<close>

definition get_ip :: "request \<Rightarrow> string" where
  "get_ip r =
     (let result = rq_RemoteAddr r;
          temp = header_get (rq_Header r) ''X-Forwarded-For'';
          result = (if result \<noteq> [] then temp else result);
          parts = split_on CHR '','' result
      in parts ! 0)"

definition new_event_from_request :: "time \<Rightarrow> request \<Rightarrow> go_error + event" where
  "new_event_from_request now r =
     (case parse_event_form now r of
        Inl err \<Rightarrow> Inl err
      | Inr form \<Rightarrow>
          let ip = get_ip r
          in Inr (new_event form (rq_Header r) (header_get (rq_Header r) ''User-Agent'') ip))"

definition grafana_user_header :: string where "grafana_user_header = ''X-Grafana-User''"
definition private_token_header :: string where "private_token_header = ''X-Token''"

definition parse_grafana_user :: "request \<Rightarrow> go_error + string" where
  "parse_grafana_user r =
     (let result = header_get (rq_Header r) grafana_user_header
      in if result = [] then Inl (''required header['' @ grafana_user_header @ '']'') else Inr result)"

text \<open>
  The two request types, for creating and deleting, have the same field and the same \<open>Validate\<close>; their names
  show in the errors of the decoder. The decoder gets a pointer to the interface value: the JSON text \<open>null\<close> sets
  the interface itself to nil.
\<close>

record hostname_request =
  hr_Hostname :: string

definition create_hostname_request :: struct_target where
  "create_hostname_request = \<lparr>st_Type = ''server.CreateHostnameRequest'', st_Name = ''CreateHostnameRequest'',
     st_Fields = [(''hostname'', KString ''string'')]\<rparr>"

definition delete_hostname_request :: struct_target where
  "delete_hostname_request = \<lparr>st_Type = ''server.DeleteHostnameRequest'', st_Name = ''DeleteHostnameRequest'',
     st_Fields = [(''hostname'', KString ''string'')]\<rparr>"

definition validate_hostname :: "hostname_request \<Rightarrow> go_error option" where
  "validate_hostname r = (if hr_Hostname r = [] then Some ''hostname is required'' else None)"

definition parse_request :: "struct_target \<Rightarrow> request \<Rightarrow> (go_error + hostname_request) run" where
  "parse_request T r =
     (case decode_stream T (rq_Body r) of
        DecodeError err \<Rightarrow> Value (Inl err)
      | DecodedNull \<Rightarrow> Panic ''nil pointer dereference''
      | DecodedFields fs \<Rightarrow>
          let req = \<lparr>hr_Hostname = text_field fs ''hostname''\<rparr>
          in case validate_hostname req of Some err \<Rightarrow> Value (Inl err) | None \<Rightarrow> Value (Inr req))"

lemmas request_defs [go_defs] = apply_event_form_defaults_def parse_event_form_def get_ip_def
  new_event_from_request_def grafana_user_header_def private_token_header_def parse_grafana_user_def
  create_hostname_request_def delete_hostname_request_def
  validate_hostname_def parse_request_def

section \<open>server/handlers.go: the handlers\<close>

text \<open>
  The goroutines of the two \<open>SaveAsync\<close> share the event: archiving adds a parameter to it. \<open>archived_first\<close>
  says whether that happens before the event is taken from the channel.
\<close>

definition catcher :: "'d adapter \<Rightarrow> time \<Rightarrow> bool \<Rightarrow> request \<Rightarrow> 'd run_state \<Rightarrow> (response \<times> 'd run_state) run" where
  "catcher A now archived_first r = (\<lambda>(arrived, waiting, s).
     let w = new_response in
     if rq_Method r = ''GET'' then
       run_bind (get_data A (sv_db s)) (\<lambda>(myArray, d).
         let s = s\<lparr>sv_db := d\<rparr> in
         case marshal_event_rows myArray of
           Inl err \<Rightarrow> Value (http_error ''Failed to encode JSON'' 500 w, (arrived, waiting, s))
         | Inr jsonData \<Rightarrow>
             Value (write_body jsonData (set_header ''Content-Type'' ''application/json'' w), (arrived, waiting, s)))
     else if rq_Method r = ''POST'' then
       (let w = response_no_content w in
        case new_event_from_request now r of
          Inl err \<Rightarrow> Value (w, (arrived, waiting, s))
        | Inr e \<Rightarrow>
            let (e', b) = save_async e (sv_backup s);
                sent = Some (if archived_first then e' else e)
            in Value (w, (arrived @ [sent], waiting @ [sent], s\<lparr>sv_backup := b\<rparr>)))
     else Value (write_body ''method not allowed'' (write_header 405 w), (arrived, waiting, s)))"

definition health :: "response" where
  "health = response_ok new_response"

definition create_hostname :: "'d adapter \<Rightarrow> string \<Rightarrow> time \<Rightarrow> request \<Rightarrow> ('d, response) call" where
  "create_hostname A uuid now r d =
     run_bind (parse_request create_hostname_request r) (\<lambda>parsed.
       case parsed of
         Inl err \<Rightarrow> Value (response_error err new_response, d)
       | Inr req \<Rightarrow>
           (case parse_grafana_user r of
              Inl err \<Rightarrow> Value (response_error err new_response, d)
            | Inr username \<Rightarrow>
                run_bind (register_hostname A uuid now (hr_Hostname req) username d) (\<lambda>(err, d).
                  case err of Some err \<Rightarrow> Value (response_error err new_response, d)
                  | None \<Rightarrow> Value (response_ok new_response, d))))"

definition delete_hostname :: "'d adapter \<Rightarrow> request \<Rightarrow> ('d, response) call" where
  "delete_hostname A r d =
     run_bind (parse_request delete_hostname_request r) (\<lambda>parsed.
       case parsed of
         Inl err \<Rightarrow> Value (response_error err new_response, d)
       | Inr req \<Rightarrow>
           (case parse_grafana_user r of
              Inl err \<Rightarrow> Value (response_error err new_response, d)
            | Inr username \<Rightarrow>
                run_bind (service_delete_hostname A (hr_Hostname req) username d) (\<lambda>(err, d).
                  case err of Some err \<Rightarrow> Value (response_error err new_response, d)
                  | None \<Rightarrow> Value (response_ok new_response, d))))"

definition hostnames :: "'d adapter \<Rightarrow> string \<Rightarrow> string \<Rightarrow> time \<Rightarrow> request \<Rightarrow> ('d, response) call" where
  "hostnames A privateAPIToken uuid now r d =
     (let token = header_get (rq_Header r) private_token_header in
      if token \<noteq> privateAPIToken then
        Value (response_error (''wrong header['' @ private_token_header @ '']'') new_response, d)
      else if rq_Method r = ''POST'' then create_hostname A uuid now r d
      else if rq_Method r = ''DELETE'' then delete_hostname A r d
      else Value (response_error (''unsupported method['' @ rq_Method r @ '']'') new_response, d))"

lemmas handler_defs [go_defs] = catcher_def health_def create_hostname_def delete_hostname_def hostnames_def

text \<open>A middleware that is to check the access and passes every request on; no route uses it.\<close>

definition access_middleware :: "('w \<Rightarrow> 'r \<Rightarrow> 'a) \<Rightarrow> 'w \<Rightarrow> 'r \<Rightarrow> 'a" where
  "access_middleware h w r = h w r"

section \<open>server/router.go\<close>

datatype handler = Catcher | Hostnames | Health

text \<open>The patterns have no trailing slash: each matches its path alone.\<close>

definition setup_routes :: "(string \<times> handler) list" where
  "setup_routes = [(''/beacon/catcher'', Catcher), (''/private/hostnames'', Hostnames), (''/health'', Health)]"

definition route :: "string \<Rightarrow> handler option" where
  "route path = map_of setup_routes path"

section \<open>The catcher\<close>

text \<open>Archiving adds a parameter that the conversion of an event does not read.\<close>

lemma values_get_archived: "k \<noteq> ''request_headers'' \<Longrightarrow> values_get (for_archiving e) k = values_get (RequestParameters e) k"
  by (simp add: for_archiving_def Let_def values_get_add)

lemma values_has_archived: "k \<noteq> ''request_headers'' \<Longrightarrow> values_has (for_archiving e) k = values_has (RequestParameters e) k"
  by (simp add: for_archiving_def Let_def values_has_add)

lemma from_event_archived: "from_event (e\<lparr>RequestParameters := for_archiving e\<rparr>) = from_event e"
  by (simp add: from_event_def values_get_archived values_has_archived Let_def)

lemma create_rum_event_archived:
  "create_rum_event geo (e\<lparr>RequestParameters := for_archiving e\<rparr>) = create_rum_event geo e"
  by (simp add: create_rum_event_def convert_to_rum_event_def from_event_archived Let_def
      split: sum.split option.split)

lemma save_async_event: "fst (save_async e b) = e \<or> fst (save_async e b) = e\<lparr>RequestParameters := for_archiving e\<rparr>"
  by (cases b) (simp_all add: single_save_async_def)

lemma save_async_queue:
  "backup_queue k (snd (save_async e (FileBackup b))) =
     backup_queue k (FileBackup b) @ (if k = Archive_backup then [Values (for_archiving e)] else [])"
  by (cases k) (simp_all add: single_save_async_def)

text \<open>
  C19: A beacon that is posted is answered with 204 and an empty body whatever it holds. A good form is handed
  to both services: one request at the end of the archive queue and one event to the processing, which
  makes the same of it whether or not archiving has touched it first. A bad form is dropped.
\<close>

theorem catcher_post:
  assumes "rq_Method r = ''POST''" and "sv_backup s = FileBackup b"
  shows "\<exists>w st. catcher A now archived_first r (arrived, waiting, s) = Value (w, st)
    \<and> rs_Status w = Some 204 \<and> rs_Body w = []
    \<and> (case new_event_from_request now r of
         Inl err \<Rightarrow> st = (arrived, waiting, s)
       | Inr e \<Rightarrow> \<exists>sent s'. st = (arrived @ [Some sent], waiting @ [Some sent], s')
           \<and> (\<forall>geo. create_rum_event geo sent = create_rum_event geo e)
           \<and> sv_db s' = sv_db s \<and> sv_hosts s' = sv_hosts s
           \<and> backup_queue Archive_backup (sv_backup s') =
               backup_queue Archive_backup (sv_backup s) @ [Values (for_archiving e)])"
proof (cases "new_event_from_request now r")
  case (Inl err)
  with assms(1) show ?thesis
    by (simp add: catcher_def response_no_content_def headers_no_cache_def http_defs)
next
  case (Inr e)
  obtain e' b' where b': "save_async e (FileBackup b) = (e', b')" by fastforce
  have "backup_queue Archive_backup b' = backup_queue Archive_backup (FileBackup b) @ [Values (for_archiving e)]"
    using save_async_queue [of Archive_backup e b] b' by simp
  moreover have "create_rum_event geo (if archived_first then e' else e) = create_rum_event geo e" for geo
    using save_async_event [of e "FileBackup b"] create_rum_event_archived b' by auto
  ultimately show ?thesis using assms Inr b'
    by (simp del: save_async.simps add: catcher_def response_no_content_def headers_no_cache_def http_defs Let_def)
qed

lemma catcher_post_witness:
  "\<exists>w s'. catcher list_adapter 0 True \<lparr>rq_Method = ''POST'', rq_Form = (None, [(''u'', [''//a.b''])]), rq_Header = [],
        rq_RemoteAddr = [], rq_Body = []\<rparr> ([], [], sample_service) = Value (w, s') \<and> rs_Status w = Some 204"
proof -
  let ?r = "\<lparr>rq_Method = ''POST'', rq_Form = (None, [(''u'', [''//a.b''])]), rq_Header = [],
        rq_RemoteAddr = [], rq_Body = []\<rparr>"
  have "rq_Method ?r = ''POST''" by simp
  moreover have "sv_backup sample_service = FileBackup (new_file_backup (new_single_file_backup ''a'' NoneFactory)
      (new_single_file_backup ''e'' NoneFactory) (new_single_file_backup ''u'' NoneFactory))"
    by (simp add: sample_service_def new_service_def)
  ultimately show ?thesis using catcher_post [of ?r sample_service _ list_adapter 0 True "[]" "[]"] by blast
qed

section \<open>A beacon that stops the program\<close>

lemma process_event_panics:
  assumes "\<And>now i h cd. \<not> panics (get now i h cd)" and "\<And>rum d. \<not> panics (ad_Save A rum d)"
  shows "panics (process_event create A get now (Some e) s) \<longleftrightarrow> panics (create e)"
proof (cases "create e")
  case (Value rum)
  obtain l err c d where g: "get now (re_SubscriptionID rum) (re_Hostname rum) (sv_cache s, sv_db s) = Value ((l, err), (c, d))"
    using assms(1) [of now "re_SubscriptionID rum" "re_Hostname rum" "(sv_cache s, sv_db s)"]
    by (cases "get now (re_SubscriptionID rum) (re_Hostname rum) (sv_cache s, sv_db s)") auto
  have "\<not> panics (process_rum_event A rum t)" for t
    using assms(2) [of rum "sv_db t"] by (cases "ad_Save A rum (sv_db t)") (auto simp: process_rum_event_def)
  with Value g show ?thesis by (simp add: process_event_def Let_def)
qed (simp add: process_event_def)

text \<open>
  C28: The catcher answers 204 before it looks at the parameters. When neither the lookup nor the database panics,
  processing the accepted beacon panics, and with it the goroutine and the program, exactly when its parameter \<open>u\<close>
  is not a URL that \<open>url.Parse\<close> accepts: one such request from anyone stops the server.
\<close>

theorem posted_beacon_panics_iff:
  assumes "rq_Method r = ''POST''" and "new_event_from_request now r = Inr e" and "sv_backup s = FileBackup b"
    and "catcher A now archived_first r (arrived, waiting, s) = Value (w, (arrived', waiting @ [ev], s1))"
    and "\<And>now i h cd. \<not> panics (get now i h cd)" and "\<And>rum d. \<not> panics (ad_Save A rum d)"
  shows "rs_Status w = Some 204
    \<and> (panics (process_event (create_rum_event geo) A get t ev s1)
       \<longleftrightarrow> (\<exists>err. url_parse (values_get (RequestParameters e) ''u'') = Inl err))"
proof -
  obtain e' b1 where sv: "save_async e (FileBackup b) = (e', b1)" by fastforce
  define sent where "sent = (if archived_first then e' else e)"
  have c: "w = response_no_content new_response" "ev = Some sent"
    using assms(4) by (auto simp: catcher_def assms(1,2,3) sv sent_def Let_def simp del: save_async.simps)
  have "create_rum_event geo sent = create_rum_event geo e"
    using save_async_event [of e "FileBackup b"] create_rum_event_archived [of geo e] sv by (auto simp: sent_def)
  then show ?thesis
    by (simp add: c process_event_panics [OF assms(5,6)] create_rum_event_panics_iff
        response_no_content_def headers_no_cache_def http_defs)
qed

lemma posted_beacon_panics_iff_witness:
  "\<exists>w arrived' ev s1. catcher list_adapter 0 True \<lparr>rq_Method = ''POST'', rq_Form = (None, [(''u'', [''%''])]), rq_Header = [],
        rq_RemoteAddr = [], rq_Body = []\<rparr> ([], [], sample_service) = Value (w, (arrived', [] @ [ev], s1))
     \<and> rs_Status w = Some 204 \<and> panics (process_event (create_rum_event None) list_adapter disabled_get 0 ev s1)"
proof -
  let ?r = "\<lparr>rq_Method = ''POST'', rq_Form = (None, [(''u'', [''%''])]), rq_Header = [],
        rq_RemoteAddr = [], rq_Body = []\<rparr>"
  let ?b = "new_file_backup (new_single_file_backup ''a'' NoneFactory) (new_single_file_backup ''e'' NoneFactory)
      (new_single_file_backup ''u'' NoneFactory)"
  have b: "sv_backup sample_service = FileBackup ?b" by (simp add: sample_service_def new_service_def)
  obtain e where e: "new_event_from_request 0 ?r = Inr e" "values_get (RequestParameters e) ''u'' = ''%''"
    by (simp add: new_event_from_request_def parse_event_form_def apply_event_form_defaults_def new_event_def Let_def
        values_defs)
  have "isl (url_parse ''%'')" by code_simp
  then have u: "\<exists>err. url_parse ''%'' = Inl err" by (cases "url_parse ''%''") simp_all
  obtain e' b1 where sv: "save_async e (FileBackup ?b) = (e', b1)" by fastforce
  have c: "catcher list_adapter 0 True ?r ([], [], sample_service)
      = Value (response_no_content new_response, ([Some e'], [] @ [Some e'], sample_service\<lparr>sv_backup := b1\<rparr>))"
    using e(1) sv by (simp add: catcher_def b Let_def del: save_async.simps)
  have m: "rq_Method ?r = ''POST''" by simp
  have quiet: "\<not> panics (disabled_get now i h cd)" "\<not> panics (ad_Save list_adapter rum d)" for now i h cd rum and d :: list_db
    by (simp_all add: disabled_get_def disabled_get_subscription_def list_adapter_def plain_adapter_def call_ret_def split: prod.split)
  from posted_beacon_panics_iff [OF m e(1) b c quiet, where geo = None and t = 0] u e(2) c show ?thesis by auto
qed

section \<open>What the catcher answers to a GET\<close>

text \<open>A time that \<open>encoding/json\<close> refuses.\<close>

fun bad_time :: "json_value \<Rightarrow> bool" where
  "bad_time (JTime t) = (case civil_of_days (time_days t) of (y, m, d) \<Rightarrow> y < 0 \<or> 9999 < y)"
| "bad_time v = False"

definition unmarshalled_rows :: "event_rows \<Rightarrow> bool" where
  "unmarshalled_rows d = (case d of None \<Rightarrow> False | Some rs \<Rightarrow> list_ex (list_ex (\<lambda>(k, v). bad_time v)) rs)"

definition plain_char :: "char \<Rightarrow> bool" where
  "plain_char c \<longleftrightarrow> 32 \<le> (of_char c :: nat) \<and> c \<noteq> quote \<and> c \<noteq> backslash"

lemma plain_itoa: "list_all plain_char (itoa i)"
proof -
  have "plain_char c" if "is_digit c \<or> c = CHR ''-''" for c
    using that by (auto simp: plain_char_def is_digit_def)
  then show ?thesis using itoa_chars [of _ i] unfolding list_all_iff by blast
qed

lemma plain_pads: "list_all plain_char (pad2 i)" "list_all plain_char (pad4 i)"
  using plain_itoa [of i] by (simp_all add: pad2_def pad4_def plain_char_def)

lemma plain_format_date: "list_all plain_char (format_date t)"
  by (simp add: format_date_def plain_pads plain_char_def split: prod.split)

lemma plain_format_date_time: "list_all plain_char (format_date_time t)"
  by (simp add: format_date_time_def plain_format_date plain_pads plain_char_def)

lemma plain_strip_zeros: "list_all plain_char s \<Longrightarrow> list_all plain_char (strip_zeros s)"
  by (induction s) auto

lemma plain_format_nanos: "list_all plain_char (format_nanos t)"
proof -
  have "list_all plain_char (replicate n CHR ''0'')" for n by (simp add: list_all_iff plain_char_def)
  then have "list_all plain_char (strip_zeros (replicate (9 - length (itoa i)) CHR ''0'' @ itoa i))" for i
    by (intro plain_strip_zeros) (simp add: plain_itoa)
  moreover have "plain_char CHR ''.''" by (simp add: plain_char_def)
  ultimately show ?thesis unfolding format_nanos_def Let_def by simp
qed

lemma marshal_value_scans: "marshal_value v = Inr t \<Longrightarrow> scans 0 t"
proof (cases v)
  case (JTime u)
  let ?s = "format_date u @ ''T'' @ drop 11 (format_date_time u) @ format_nanos u @ ''Z''"
  assume "marshal_value v = Inr t"
  with JTime have t: "t = quote # ?s @ [quote]" by (auto split: prod.splits if_splits)
  have "list_all plain_char (drop 11 (format_date_time u))"
    using plain_format_date_time [of u] unfolding list_all_iff by (blast dest: in_set_dropD)
  then have "list_all plain_char ?s"
    using plain_format_date [of u] plain_format_nanos [of u] by (simp add: plain_char_def)
  then show ?thesis unfolding t plain_char_def by (rule scans_plain)
qed (auto simp: scans_null scans_itoa scans_string)

lemma marshal_value_fails: "(\<exists>err. marshal_value v = Inl err) \<longleftrightarrow> bad_time v"
  by (cases v) (auto split: prod.splits)

lemma marshal_fields_members:
  "marshal_fields r = Inr ts \<Longrightarrow> \<exists>ms. ts = map member_text ms \<and> (\<forall>m \<in> set ms. scans 0 (snd m))"
proof (induction r arbitrary: ts)
  case (Cons f r)
  then obtain k v t ts' where f: "f = (k, v)" "marshal_value v = Inr t" "marshal_fields r = Inr ts'"
      "ts = (json_string k @ '':'' @ t) # ts'"
    by (cases f) (auto split: sum.splits)
  from Cons.IH [OF f(3)] obtain ms where "ts' = map member_text ms" "\<forall>m \<in> set ms. scans 0 (snd m)" by blast
  with f marshal_value_scans [OF f(2)] have "ts = map member_text ((k, t) # ms)" "\<forall>m \<in> set ((k, t) # ms). scans 0 (snd m)"
    by (simp_all add: member_text_def)
  then show ?case by blast
qed simp

lemma marshal_rows_objects:
  "marshal_rows rs = Inr us \<Longrightarrow> u \<in> set us \<Longrightarrow> scans 2 u \<and> u \<noteq> [] \<and> \<not> json_space (hd u) \<and> hd u \<noteq> CHR '']''"
proof (induction rs arbitrary: us)
  case (Cons r rs)
  then obtain ts us' where us: "marshal_fields r = Inr ts" "marshal_rows rs = Inr us'"
      "us = (''{'' @ join_with '','' ts @ ''}'') # us'"
    by (auto split: sum.splits)
  from marshal_fields_members [OF us(1)] obtain ms where "ts = map member_text ms" "\<forall>m \<in> set ms. scans 0 (snd m)" by blast
  with scans_object [of ms 0] Cons.IH [OF us(2)] Cons.prems(2) us(3) show ?case
    by (auto simp: object_text_def json_space_def numeral_2_eq_2)
qed simp

lemma marshal_fields_fails: "(\<exists>err. marshal_fields r = Inl err) \<longleftrightarrow> list_ex (\<lambda>(k, v). bad_time v) r"
proof (induction r)
  case (Cons f r)
  then show ?case using marshal_value_fails [of "snd f"]
    by (cases f; cases "marshal_value (snd f)"; cases "marshal_fields r") auto
qed simp

lemma marshal_rows_fails: "(\<exists>err. marshal_rows rs = Inl err) \<longleftrightarrow> list_ex (list_ex (\<lambda>(k, v). bad_time v)) rs"
proof (induction rs)
  case (Cons r rs)
  then show ?case using marshal_fields_fails [of r]
    by (cases "marshal_fields r"; cases "marshal_rows rs") auto
qed simp

lemma marshal_event_rows_text: "marshal_event_rows d = Inr t \<Longrightarrow> json_text t"
proof (cases d)
  case None
  assume "marshal_event_rows d = Inr t"
  with None have t: "t = ''null''" by (simp add: marshal_event_rows_def)
  have "json_text ''null''" by (simp add: json_text_def read_value_def begin_value_def json_space_def)
  then show ?thesis by (simp add: t)
next
  case (Some rs)
  assume "marshal_event_rows d = Inr t"
  with Some obtain us where us: "marshal_rows rs = Inr us" "t = ''['' @ join_with '','' us @ '']''"
    by (auto simp: marshal_event_rows_def split: sum.splits)
  show ?thesis unfolding us(2)
    by (rule array_is_text [where n = 2]) (use marshal_rows_objects [OF us(1)] in \<open>auto simp: max_nesting_depth_def\<close>)
qed

lemma marshal_event_rows_fails: "(\<exists>err. marshal_event_rows d = Inl err) \<longleftrightarrow> unmarshalled_rows d"
  by (cases d) (auto simp: marshal_event_rows_def unmarshalled_rows_def marshal_rows_fails [symmetric] split: sum.splits)

text \<open>
  C29: Whatever the database returns for a GET, the answer is either 500, exactly when a time of a row has a
  year that does not fit four digits, or 200 with one well-formed JSON text as its body, in the type the header
  announces; an error of the database shows as the empty array. Nothing but the state of the database changes.
\<close>

theorem catcher_get_answers_json:
  assumes "rq_Method r = ''GET''" and "catcher A now archived_first r (arrived, waiting, s) = Value (w, st)"
  shows "\<exists>rows err d. ad_GetEvents A (sv_db s) = Value ((rows, err), d) \<and> st = (arrived, waiting, s\<lparr>sv_db := d\<rparr>)
    \<and> (if err = None \<and> unmarshalled_rows rows then rs_Status w = Some 500
       else rs_Status w = Some 200 \<and> header_get (rs_Header w) ''Content-Type'' = ''application/json''
         \<and> json_text (rs_Body w) \<and> (err \<noteq> None \<longrightarrow> rs_Body w = ''[]''))"
proof -
  obtain rows err d where g: "ad_GetEvents A (sv_db s) = Value ((rows, err), d)"
    using assms by (cases "ad_GetEvents A (sv_db s)") (auto simp: catcher_def get_data_def call_bind_def)
  let ?rows = "if err = None then rows else Some []"
  have data: "get_data A (sv_db s) = Value (?rows, d)"
    using g by (cases err) (simp_all add: get_data_def call_defs)
  have ct: "header_get (rs_Header (write_body t (set_header ''Content-Type'' ''application/json'' new_response))) ''Content-Type''
      = ''application/json''" for t
    by (simp add: http_defs header_get_def values_defs Let_def)
  show ?thesis
  proof (cases "marshal_event_rows ?rows")
    case (Inl e)
    then have "unmarshalled_rows ?rows" using marshal_event_rows_fails by blast
    then have "err = None \<and> unmarshalled_rows rows" by (auto simp: unmarshalled_rows_def split: if_splits)
    with Inl g data assms show ?thesis
      by (auto simp: catcher_def http_error_def write_body_def write_header_def set_header_def new_response_def Let_def)
  next
    case (Inr t)
    then have ok: "\<not> unmarshalled_rows ?rows" using marshal_event_rows_fails [of ?rows] by auto
    have w: "w = write_body t (set_header ''Content-Type'' ''application/json'' new_response)" "st = (arrived, waiting, s\<lparr>sv_db := d\<rparr>)"
      using Inr data assms by (simp_all add: catcher_def)
    have "rs_Status w = Some 200" "rs_Body w = t"
      by (simp_all add: w write_body_def write_header_def set_header_def new_response_def Let_def)
    moreover have "t = ''[]''" if "err \<noteq> None" using Inr that by (auto simp: marshal_event_rows_def)
    ultimately show ?thesis using marshal_event_rows_text [OF Inr] ok g w ct [of t]
      by (cases err) auto
  qed
qed

lemma catcher_get_answers_json_witness:
  "\<exists>w st. catcher (list_adapter\<lparr>ad_GetEvents := call_ret (Some [[(''id'', JInt 7), (''cdir'', JText [quote]), (''created_at'', JTime 0)]], None)\<rparr>)
       0 True \<lparr>rq_Method = ''GET'', rq_Form = (None, []), rq_Header = [], rq_RemoteAddr = [], rq_Body = []\<rparr>
       ([], [], sample_service) = Value (w, st)
     \<and> rs_Status w = Some 200 \<and> json_text (rs_Body w)"
proof -
  let ?rows = "Some [[(''id'', JInt 7), (''cdir'', JText [quote]), (''created_at'', JTime 0)]]"
  let ?A = "list_adapter\<lparr>ad_GetEvents := call_ret (?rows, None)\<rparr>"
  let ?r = "\<lparr>rq_Method = ''GET'', rq_Form = (None, []), rq_Header = [], rq_RemoteAddr = [], rq_Body = []\<rparr>"
  have good: "\<not> unmarshalled_rows ?rows" by code_simp
  have "\<exists>w st. catcher ?A 0 True ?r ([], [], sample_service) = Value (w, st)"
    by (cases "marshal_event_rows ?rows") (simp_all add: catcher_def get_data_def call_defs)
  then obtain w st where c: "catcher ?A 0 True ?r ([], [], sample_service) = Value (w, st)" by blast
  from catcher_get_answers_json [OF _ c] good show ?thesis
    by (intro exI [of _ w] exI [of _ st] conjI c) (auto simp: call_ret_def)
qed

section \<open>The address of a visitor\<close>

text \<open>
  The address of the connection never reaches an event: unless it is missing, the first entry of the
  header \<open>X-Forwarded-For\<close> is taken, also when there is no such header, and the address is then empty.
\<close>

theorem get_ip_ignores_connection:
  "get_ip r = (if rq_RemoteAddr r = [] then [] else hd (split_on CHR '','' (header_get (rq_Header r) ''X-Forwarded-For'')))"
proof -
  have "split_on CHR '','' s ! 0 = hd (split_on CHR '','' s)" for s
    using length_split_on [of "CHR '',''" s] by (cases "split_on CHR '','' s") auto
  then show ?thesis by (simp add: get_ip_def Let_def)
qed

section \<open>The host names\<close>

lemma parse_grafana_user_Inr:
  "parse_grafana_user r = Inr u \<longleftrightarrow> u = header_get (rq_Header r) grafana_user_header \<and> u \<noteq> []"
  by (auto simp: parse_grafana_user_def Let_def)

text \<open>The body is decoded, and this is its host name.\<close>

definition body_names :: "struct_target \<Rightarrow> request \<Rightarrow> string \<Rightarrow> bool" where
  "body_names T r h \<longleftrightarrow> (\<exists>fs. decode_stream T (rq_Body r) = DecodedFields fs \<and> h = text_field fs ''hostname'')"

lemma parse_request_Inr:
  "parse_request T r = Value (Inr req) \<longleftrightarrow> body_names T r (hr_Hostname req) \<and> hr_Hostname req \<noteq> []"
  by (cases req) (auto simp: body_names_def parse_request_def validate_hostname_def Let_def split: decoded.splits)

lemma parse_request_Panic: "panics (parse_request T r) \<longleftrightarrow> (\<exists>rest. skip_space (rq_Body r) = ''null'' @ rest)"
  unfolding decode_null [of T, symmetric]
  by (auto simp: parse_request_def Let_def split: decoded.splits option.splits)

text \<open>What either handler did when it returns: its database call, or nothing but an error.\<close>

lemma response_status:
  "rs_Status (response_error e new_response) = Some 400" "rs_Status (response_ok new_response) = Some 200"
  by (simp_all add: response_defs http_defs)

definition answer_of :: "go_error option \<Rightarrow> response" where
  "answer_of err = (case err of Some e \<Rightarrow> response_error e new_response | None \<Rightarrow> response_ok new_response)"

lemma answer_of_status: "rs_Status (answer_of err) = Some (if err = None then 200 else 400)"
  by (simp add: answer_of_def response_status split: option.split)

text \<open>Both handlers are the same frame around one database call.\<close>

definition owner_call :: "struct_target \<Rightarrow> request \<Rightarrow> (string \<Rightarrow> string \<Rightarrow> ('d, go_error option) call) \<Rightarrow> ('d, response) call" where
  "owner_call T r op d =
     run_bind (parse_request T r) (\<lambda>parsed.
       case parsed of
         Inl err \<Rightarrow> Value (response_error err new_response, d)
       | Inr req \<Rightarrow>
           (case parse_grafana_user r of
              Inl err \<Rightarrow> Value (response_error err new_response, d)
            | Inr username \<Rightarrow> run_bind (op (hr_Hostname req) username d) (\<lambda>(err, d). Value (answer_of err, d))))"

lemma answer_of_case:
  "(case err of Some e \<Rightarrow> Value (response_error e new_response, d) | None \<Rightarrow> Value (response_ok new_response, d))
    = Value (answer_of err, d)"
  by (simp add: answer_of_def split: option.split)

lemma create_hostname_frame: "create_hostname A uuid now r =
    owner_call create_hostname_request r (\<lambda>h u. ad_InsertOwnerHostname A (new_owner_hostname u h (new_subscription uuid now)))"
  unfolding fun_eq_iff create_hostname_def owner_call_def register_hostname_def answer_of_case Let_def by simp

lemma delete_hostname_frame: "delete_hostname A r = owner_call delete_hostname_request r (ad_DeleteOwnerHostname A)"
  unfolding fun_eq_iff delete_hostname_def owner_call_def service_delete_hostname_def answer_of_case by simp

lemma owner_call_effect:
  assumes "owner_call T r op d = Value (w, d')"
  shows "(\<exists>h u err. body_names T r h \<and> h \<noteq> [] \<and> header_get (rq_Header r) grafana_user_header = u \<and> u \<noteq> []
      \<and> op h u d = Value (err, d') \<and> w = answer_of err) \<or> (d' = d \<and> (\<exists>e. w = response_error e new_response))"
proof -
  from assms obtain parsed where p: "parse_request T r = Value parsed"
    by (auto simp: owner_call_def run_bind_Value_iff)
  show ?thesis
  proof (cases parsed)
    case (Inl e)
    with assms p show ?thesis by (auto simp: owner_call_def)
  next
    case (Inr req)
    show ?thesis
    proof (cases "parse_grafana_user r")
      case (Inl e)
      with assms p \<open>parsed = Inr req\<close> show ?thesis by (auto simp: owner_call_def)
    next
      case (Inr u)
      with assms p \<open>parsed = Inr req\<close> obtain err where "op (hr_Hostname req) u d = Value (err, d')" "w = answer_of err"
        by (auto simp: owner_call_def run_bind_Value_iff)
      with p Inr \<open>parsed = Inr req\<close> show ?thesis by (auto simp: parse_request_Inr parse_grafana_user_Inr)
    qed
  qed
qed

lemma owner_call_panics:
  assumes "\<And>h u. \<not> panics (op h u d)"
  shows "panics (owner_call T r op d) \<longleftrightarrow> (\<exists>rest. skip_space (rq_Body r) = ''null'' @ rest)"
proof -
  have "\<not> panics (run_bind (op h u d) (\<lambda>(err, d). Value (answer_of err, d)))" for h u
    using assms [of h u] by (cases "op h u d") auto
  then show ?thesis
    unfolding parse_request_Panic [of T r, symmetric]
    by (cases "parse_request T r") (auto simp: owner_call_def split: sum.split)
qed

text \<open>
  C10: The database is called only for a request with the configured token, a user, a host name that is not
  empty and one of the two methods, and then to insert a fresh subscription or to delete, for that user
  and that host; otherwise it is left alone and the answer is 400.
\<close>

theorem hostnames_guarded:
  assumes "hostnames A token uuid now r d = Value (w, d')"
  shows "(\<exists>h u err. header_get (rq_Header r) private_token_header = token
      \<and> header_get (rq_Header r) grafana_user_header = u \<and> u \<noteq> [] \<and> h \<noteq> []
      \<and> (rq_Method r = ''POST'' \<and> body_names create_hostname_request r h \<and>
           ad_InsertOwnerHostname A (new_owner_hostname u h (new_subscription uuid now)) d = Value (err, d')
         \<or> rq_Method r = ''DELETE'' \<and> body_names delete_hostname_request r h \<and>
           ad_DeleteOwnerHostname A h u d = Value (err, d'))
      \<and> rs_Status w = Some (if err = None then 200 else 400))
    \<or> (d' = d \<and> rs_Status w = Some 400)"
proof -
  consider (post) "header_get (rq_Header r) private_token_header = token" "rq_Method r = ''POST''"
      "create_hostname A uuid now r d = Value (w, d')"
    | (delete) "header_get (rq_Header r) private_token_header = token" "rq_Method r = ''DELETE''"
      "delete_hostname A r d = Value (w, d')"
    | (refused) e where "d' = d" "w = response_error e new_response"
    using assms by (auto simp: hostnames_def Let_def split: if_splits)
  then show ?thesis
  proof cases
    case post
    from owner_call_effect [OF post(3) [unfolded create_hostname_frame]] post(1,2) show ?thesis
      by (elim disjE exE conjE) (auto simp: answer_of_status response_status)
  next
    case delete
    from owner_call_effect [OF delete(3) [unfolded delete_hostname_frame]] delete(1,2) show ?thesis
      by (elim disjE exE conjE) (auto simp: answer_of_status response_status)
  qed (simp add: response_status)
qed

lemma hostnames_guarded_witness:
  "rs_Status (response_error ''wrong header[X-Token]'' new_response) = Some 400
   \<and> hostnames list_adapter ''t'' ''id'' 0 \<lparr>rq_Method = ''POST'', rq_Form = (None, []), rq_Header = [],
        rq_RemoteAddr = [], rq_Body = ''h''\<rparr> ([], []) =
     Value (response_error ''wrong header[X-Token]'' new_response, ([], []))"
proof -
  let ?r = "\<lparr>rq_Method = ''POST'', rq_Form = (None, []), rq_Header = [], rq_RemoteAddr = [], rq_Body = ''h''\<rparr>"
  have h: "header_get (rq_Header ?r) private_token_header = []"
    by (simp add: header_get_def values_get_def values_lookup_def)
  then have r: "hostnames list_adapter ''t'' ''id'' 0 ?r ([], []) =
     Value (response_error ''wrong header[X-Token]'' new_response, ([], []))"
    unfolding hostnames_def by (simp add: private_token_header_def)
  from hostnames_guarded [OF r] h r show ?thesis by auto
qed

text \<open>A map of strings, marshalled, is decoded by looking up the field.\<close>

definition string_members :: "(string \<times> string) list \<Rightarrow> string list \<Rightarrow> (string \<times> string) list" where
  "string_members m ks = map (\<lambda>k. (k, json_string (the (map_of m k)))) ks"

lemma marshal_flat_object: "marshal_flat m = object_text (string_members m (sorted_keys m))"
  by (simp add: marshal_flat_def json_object_def object_text_def string_members_def member_text_def comp_def)

lemma stored_other_members:
  "(\<And>k. k \<in> set ks \<Longrightarrow> find_field T (to_valid k) = None) \<Longrightarrow> stored T (string_members m ks) st = st"
  by (induction ks arbitrary: st) (simp_all add: string_members_def store_other_member)

lemma fold_name_ascii: "list_all (\<lambda>c. (of_char c :: nat) < 128) s \<Longrightarrow> fold_name s = map to_upper s"
proof (induction s)
  case (Cons c cs)
  then have "c \<noteq> CHR 0xC5" "c \<noteq> CHR 0xE2" by auto
  with Cons show ?case by simp
qed simp

lemma to_valid_ascii: "list_all (\<lambda>c. (of_char c :: nat) < 128) s \<Longrightarrow> to_valid s = s"
  by (rule well_formed_valid [OF well_formed_ascii])

lemma to_valid_Nil: "to_valid s = [] \<longleftrightarrow> s = []"
  by (cases s) (simp_all add: replacement_rune_def)

lemma hostname_names: "fold_name ''hostname'' = ''HOSTNAME''" "to_valid ''hostname'' = ''hostname''"
  by (simp_all add: fold_name_ascii to_valid_ascii to_upper_def is_lower_def char_of_def bit_Suc_0_iff
      del: fold_name.simps to_valid.simps)

lemma find_hostname:
  assumes "st_Fields T = [(''hostname'', KString ''string'')]"
  shows "find_field T ''hostname'' = Some (''hostname'', KString ''string'')"
    "fold_name k \<noteq> ''HOSTNAME'' \<Longrightarrow> find_field T k = None"
  using assms hostname_names(1) by (auto simp: find_field_def simp del: fold_name.simps split: if_splits)

lemma decode_marshalled:
  assumes T: "st_Fields T = [(''hostname'', KString ''string'')]" and "map_of m ''hostname'' = Some h" and "list_all json_space w"
    and "\<And>k. k \<in> fst ` set m \<Longrightarrow> fold_name (to_valid k) = ''HOSTNAME'' \<Longrightarrow> k = ''hostname''"
  shows "decode_stream T (w @ marshal_flat m @ rest) = DecodedFields [(''hostname'', FString (to_valid h))]"
proof -
  let ?F = "''hostname''"
  have "?F \<in> set (sorted_keys m)"
    using assms(2) map_of_SomeD [of m ?F h] by (force simp: sorted_keys_def)
  then obtain as bs where ks: "sorted_keys m = as @ ?F # bs" by (meson split_list)
  have "distinct (sorted_keys m)" by (simp add: sorted_keys_def)
  then have "?F \<notin> set as" "?F \<notin> set bs" unfolding ks by auto
  moreover have "set as \<subseteq> fst ` set m" "set bs \<subseteq> fst ` set m"
    using arg_cong [OF ks, of set] by (auto simp: sorted_keys_def)
  ultimately have in_m: "k \<in> fst ` set m" "k \<noteq> ?F" if "k \<in> set as \<or> k \<in> set bs" for k
    using that by auto
  have other: "find_field T (to_valid k) = None" if "k \<in> set as \<or> k \<in> set bs" for k
  proof (rule find_hostname(2) [OF T], rule notI)
    assume "fold_name (to_valid k) = ''HOSTNAME''"
    from assms(4) [OF in_m(1) [OF that] this] in_m(2) [OF that] show False by contradiction
  qed
  have "stored T (string_members m as) st = st" "stored T (string_members m bs) st = st" for st
    by (rule stored_other_members; use other in blast)+
  moreover have "store_member T (to_valid ?F) (json_string h) ([], None) = ([(?F, FString (to_valid h))], None)"
    by (subst store_string_member [where n = ?F and ty = "''string''"])
      (simp_all add: hostname_names find_hostname [OF T] del: to_valid.simps)
  moreover have "string_members m (as @ ?F # bs) = string_members m as @ (?F, json_string h) # string_members m bs"
    by (simp add: string_members_def assms(2))
  ultimately have "stored T (string_members m (sorted_keys m)) ([], None) = ([(?F, FString (to_valid h))], None)"
    unfolding ks by (simp del: to_valid.simps)
  moreover have "readable (snd x)" if "x \<in> set (string_members m (sorted_keys m))" for x
    using that by (auto simp: string_members_def readable_string)
  ultimately show ?thesis unfolding marshal_flat_object by (simp add: decode_object [OF assms(3)])
qed

text \<open>
  A request of an owner: the token, the method, the user, and a body whose first value is a marshalled map with the
  field \<open>hostname\<close> and no other that differs from it in case alone.
\<close>

definition marshals_host :: "string \<Rightarrow> string \<Rightarrow> bool" where
  "marshals_host body h \<longleftrightarrow> (\<exists>w m rest. body = w @ marshal_flat m @ rest \<and> list_all json_space w
     \<and> map_of m ''hostname'' = Some h \<and> (\<forall>k \<in> fst ` set m. fold_name (to_valid k) = ''HOSTNAME'' \<longrightarrow> k = ''hostname''))"

definition owner_request :: "string \<Rightarrow> string \<Rightarrow> string \<Rightarrow> string \<Rightarrow> request \<Rightarrow> bool" where
  "owner_request token meth u h r \<longleftrightarrow> header_get (rq_Header r) private_token_header = token \<and> rq_Method r = meth
     \<and> header_get (rq_Header r) grafana_user_header = u \<and> u \<noteq> [] \<and> h \<noteq> [] \<and> marshals_host (rq_Body r) h"

lemma owner_call_request:
  assumes "owner_request token meth u h r" and "st_Fields T = [(''hostname'', KString ''string'')]"
  shows "owner_call T r op d = run_bind (op (to_valid h) u d) (\<lambda>(err, d). Value (answer_of err, d))"
proof -
  obtain w m rest where b: "rq_Body r = w @ marshal_flat m @ rest" "list_all json_space w" "map_of m ''hostname'' = Some h"
    "\<And>k. k \<in> fst ` set m \<Longrightarrow> fold_name (to_valid k) = ''HOSTNAME'' \<Longrightarrow> k = ''hostname''"
    using assms(1) by (auto simp: owner_request_def marshals_host_def)
  have "decode_stream T (rq_Body r) = DecodedFields [(''hostname'', FString (to_valid h))]"
    unfolding b(1) by (rule decode_marshalled [OF assms(2) b(3,2)]) (rule b(4))
  then have "body_names T r (to_valid h)" by (simp add: body_names_def text_field_def)
  moreover have "to_valid h \<noteq> []" using assms(1) to_valid_Nil by (auto simp: owner_request_def)
  ultimately have "parse_request T r = Value (Inr \<lparr>hr_Hostname = to_valid h\<rparr>)" by (simp add: parse_request_Inr)
  moreover have "parse_grafana_user r = Inr u" using assms(1) by (simp add: parse_grafana_user_Inr owner_request_def)
  ultimately show ?thesis by (simp add: owner_call_def)
qed

lemma owner_request_calls:
  "owner_request token ''POST'' u h r \<Longrightarrow> hostnames A token uuid now r d =
     run_bind (ad_InsertOwnerHostname A (new_owner_hostname u (to_valid h) (new_subscription uuid now)) d)
       (\<lambda>(err, d). Value (answer_of err, d))"
  "owner_request token ''DELETE'' u h r \<Longrightarrow> hostnames A token uuid now r d =
     run_bind (ad_DeleteOwnerHostname A (to_valid h) u d) (\<lambda>(err, d). Value (answer_of err, d))"
proof -
  have f: "st_Fields create_hostname_request = [(''hostname'', KString ''string'')]"
    "st_Fields delete_hostname_request = [(''hostname'', KString ''string'')]"
    by (simp_all add: create_hostname_request_def delete_hostname_request_def)
  have token: "header_get (rq_Header r) private_token_header = token" "rq_Method r = meth"
    if "owner_request token meth u h r" for meth using that by (simp_all add: owner_request_def)
  show "owner_request token ''POST'' u h r \<Longrightarrow> hostnames A token uuid now r d =
     run_bind (ad_InsertOwnerHostname A (new_owner_hostname u (to_valid h) (new_subscription uuid now)) d)
       (\<lambda>(err, d). Value (answer_of err, d))"
    by (frule token(1), frule token(2)) (simp add: hostnames_def create_hostname_frame owner_call_request [OF _ f(1)])
  show "owner_request token ''DELETE'' u h r \<Longrightarrow> hostnames A token uuid now r d =
     run_bind (ad_DeleteOwnerHostname A (to_valid h) u d) (\<lambda>(err, d). Value (answer_of err, d))"
    by (frule token(1), frule token(2)) (simp add: hostnames_def delete_hostname_frame owner_call_request [OF _ f(2)])
qed

text \<open>
  C11: A body that an owner makes by marshalling a map with the field \<open>hostname\<close>, whatever other fields the map has
  that do not differ from it in case alone, registers that host, with a fresh subscription, for the user of the
  header; the answer is 200 exactly when the database reports no error, and text after the body is ignored.
\<close>

theorem marshalled_hostname_is_registered:
  assumes "owner_request token ''POST'' u h r"
    and "ad_InsertOwnerHostname A (new_owner_hostname u (to_valid h) (new_subscription uuid now)) d = Value (err, d')"
  shows "\<exists>answer. hostnames A token uuid now r d = Value (answer, d')
    \<and> rs_Status answer = Some (if err = None then 200 else 400)"
  using assms by (simp add: owner_request_calls answer_of_status)

definition sample_owner_request :: "string \<Rightarrow> request" where
  "sample_owner_request meth = \<lparr>rq_Method = meth, rq_Form = (None, []),
     rq_Header = [(''X-Token'', [''t'']), (''X-Grafana-User'', [''u''])], rq_RemoteAddr = [],
     rq_Body = '' '' @ marshal_flat [(''hostname'', ''a.b''), (''note'', ''x'')] @ ''}''\<rparr>"

lemma sample_owner_request_ok: "owner_request ''t'' meth ''u'' ''a.b'' (sample_owner_request meth)"
proof -
  let ?m = "[(''hostname'', ''a.b''), (''note'', ''x'')]"
  have "header_get [(''X-Token'', [''t'']), (''X-Grafana-User'', [''u''])] private_token_header = ''t''"
    "header_get [(''X-Token'', [''t'']), (''X-Grafana-User'', [''u''])] grafana_user_header = ''u''"
    by code_simp+
  moreover have "fold_name (to_valid ''note'') \<noteq> ''HOSTNAME''"
    by (simp add: fold_name_ascii to_valid_ascii to_upper_def is_lower_def del: fold_name.simps to_valid.simps)
  then have "\<forall>k \<in> fst ` set ?m. fold_name (to_valid k) = ''HOSTNAME'' \<longrightarrow> k = ''hostname''"
    by (simp del: fold_name.simps to_valid.simps)
  then have "marshals_host ('' '' @ marshal_flat ?m @ ''}'') ''a.b''"
    unfolding marshals_host_def by (intro exI [of _ "'' ''"] exI [of _ ?m] exI [of _ "''}''"]) (simp add: json_space_def)
  ultimately show ?thesis by (simp only: owner_request_def sample_owner_request_def request.simps) simp
qed

lemma marshalled_hostname_is_registered_witness:
  "\<exists>answer. hostnames list_adapter ''t'' ''id'' 0 (sample_owner_request ''POST'') ([], []) = Value (answer, ([], []))
     \<and> rs_Status answer = Some 200"
proof -
  have "ad_InsertOwnerHostname list_adapter (new_owner_hostname ''u'' (to_valid ''a.b'') (new_subscription ''id'' 0)) ([], [])
      = Value (None, ([], []))"
    by (simp add: list_adapter_def plain_adapter_def call_ret_def)
  from marshalled_hostname_is_registered [OF sample_owner_request_ok this] show ?thesis by (simp only: refl if_True)
qed

text \<open>
  With no token configured the interface for host names is open to requests without the token header.
\<close>

lemma hostnames_without_token:
  assumes "header_get (rq_Header r) private_token_header = []" and "rq_Method r = ''DELETE''"
  shows "hostnames A [] uuid now r d = delete_hostname A r d"
  using assms by (simp add: hostnames_def)

text \<open>
  C37: A request with the right token makes the handler panic exactly when its body, after white space, starts
  with the JSON text \<open>null\<close>, whatever follows it, unless the database call panics; the method decides which call that would be.
\<close>

theorem hostnames_panics:
  assumes "\<And>item. \<not> panics (ad_InsertOwnerHostname A item d)" and "\<And>h u. \<not> panics (ad_DeleteOwnerHostname A h u d)"
  shows "panics (hostnames A token uuid now r d) \<longleftrightarrow>
    header_get (rq_Header r) private_token_header = token \<and> (rq_Method r = ''POST'' \<or> rq_Method r = ''DELETE'')
    \<and> (\<exists>rest. skip_space (rq_Body r) = ''null'' @ rest)"
  using owner_call_panics [of _ d _ r] assms
  by (auto simp: hostnames_def create_hostname_frame delete_hostname_frame Let_def)

lemma hostnames_panics_witness:
  "panics (hostnames list_adapter [] ''id'' 0
     \<lparr>rq_Method = ''POST'', rq_Form = (None, []), rq_Header = [], rq_RemoteAddr = [], rq_Body = '' null,''\<rparr> ([], []))"
  by (subst hostnames_panics)
    (simp_all add: skip_space_def json_space_def list_adapter_def plain_adapter_def call_ret_def header_get_def values_get_def values_lookup_def)

end
