(* ===== verification/Server_Setup.thy ===== *)
theory Server_Setup
  imports Server
begin

text \<open>
  The servers and how they are built from the configuration (\<open>server/server.go\<close>, \<open>server/factory.go\<close>).
  The environment is an argument; what \<open>net/http\<close> does with a listening server is outside, so \<open>Serve\<close> returns the server it starts and how it listens.
\<close>

section \<open>server/server.go\<close>

record acme_client =
  DirectoryURL :: string
  InsecureSkipVerify :: bool

record tls_config =
  tls_cache_dir :: string
  tls_allowed_host :: string
  tls_client :: "acme_client option"

record http_server =
  hs_Addr :: string
  hs_ReadHeaderTimeout :: int
  hs_ReadTimeout :: int
  hs_WriteTimeout :: int
  hs_IdleTimeout :: int
  hs_TLSConfig :: "tls_config option"

record server =
  se_port :: string
  se_certFile :: string
  se_keyFile :: string
  se_server :: "http_server option"
  se_tlsConfig :: "tls_config option"
  se_privateAPIToken :: string

definition with_http :: "string \<Rightarrow> server \<Rightarrow> server" where
  "with_http port s = s\<lparr>se_port := port\<rparr>"

definition with_ssl :: "string \<Rightarrow> string \<Rightarrow> string \<Rightarrow> server \<Rightarrow> server" where
  "with_ssl port certFile keyFile s = s\<lparr>se_port := port, se_certFile := certFile, se_keyFile := keyFile\<rparr>"

definition with_tls_config :: "string \<Rightarrow> tls_config \<Rightarrow> server \<Rightarrow> server" where
  "with_tls_config port tlsConfig s = s\<lparr>se_port := port, se_tlsConfig := Some tlsConfig\<rparr>"

definition new_server :: "string \<Rightarrow> (server \<Rightarrow> server) list \<Rightarrow> server" where
  "new_server privateAPIToken options =
     fold (\<lambda>o' s. o' s) options
       \<lparr>se_port = [], se_certFile = [], se_keyFile = [], se_server = None, se_tlsConfig = None,
        se_privateAPIToken = privateAPIToken\<rparr>"

datatype listening = Listen_TLS string string | Listen_plain

definition serve :: "server \<Rightarrow> server \<times> http_server \<times> listening" where
  "serve s =
     (let h = \<lparr>hs_Addr = '':'' @ se_port s, hs_ReadHeaderTimeout = 3 * time_second,
            hs_ReadTimeout = 5 * time_second, hs_WriteTimeout = 5 * time_second,
            hs_IdleTimeout = 120 * time_second, hs_TLSConfig = se_tlsConfig s\<rparr>;
          s = s\<lparr>se_server := Some h\<rparr>
      in if se_certFile s \<noteq> [] \<or> se_keyFile s \<noteq> [] \<or> se_tlsConfig s \<noteq> None
         then (s, h, Listen_TLS (se_certFile s) (se_keyFile s))
         else (s, h, Listen_plain))"

definition shutdown :: "(http_server \<Rightarrow> go_error option) \<Rightarrow> server \<Rightarrow> go_error option" where
  "shutdown http_shutdown s =
     (case se_server s of None \<Rightarrow> Some ''server is not started'' | Some h \<Rightarrow> http_shutdown h)"

section \<open>server/factory.go\<close>

definition default_http_port :: string where "default_http_port = ''80''"
definition default_https_port :: string where "default_https_port = ''443''"
definition cache_dir_path :: string where "cache_dir_path = ''cache-dir''"
definition ssl_type_file :: string where "ssl_type_file = ''FILE''"
definition ssl_type_lets_encrypt :: string where "ssl_type_lets_encrypt = ''LETS_ENCRYPT''"

record server_config =
  sc_Port :: string
  sc_SSL :: bool
  sc_SSLType :: string
  sc_SSLFileCertFile :: string
  sc_SSLFileKeyFile :: string
  sc_Domain :: string
  sc_Token :: string

text \<open>The tags \<open>default\<close> of the struct mean nothing to \<open>encoding/json\<close>.\<close>

definition server_config_struct :: struct_target where
  "server_config_struct = \<lparr>st_Type = ''server.configType'', st_Name = ''configType'',
     st_Fields = [(''BRUM_SERVER_PORT'', KString ''string''), (''BRUM_SERVER_SSL'', KBool),
       (''BRUM_SERVER_SSL_TYPE'', KString ''server.SSLType''), (''BRUM_SERVER_SSL_CERT_FILE'', KString ''string''),
       (''BRUM_SERVER_SSL_KEY_FILE'', KString ''string''), (''BRUM_SERVER_SSL_LETS_ENCRYPT_DOMAIN'', KString ''string''),
       (''BRUM_PRIVATE_API_TOKEN'', KString ''string'')]\<rparr>"

definition server_config_of :: "fields \<Rightarrow> server_config" where
  "server_config_of fs = \<lparr>sc_Port = text_field fs ''BRUM_SERVER_PORT'', sc_SSL = bool_field fs ''BRUM_SERVER_SSL'',
     sc_SSLType = text_field fs ''BRUM_SERVER_SSL_TYPE'', sc_SSLFileCertFile = text_field fs ''BRUM_SERVER_SSL_CERT_FILE'',
     sc_SSLFileKeyFile = text_field fs ''BRUM_SERVER_SSL_KEY_FILE'',
     sc_Domain = text_field fs ''BRUM_SERVER_SSL_LETS_ENCRYPT_DOMAIN'', sc_Token = text_field fs ''BRUM_PRIVATE_API_TOKEN''\<rparr>"

definition unmarshal_server_config :: "string \<Rightarrow> go_error + server_config" where
  "unmarshal_server_config jsonconfig = map_sum id server_config_of (unmarshal_struct server_config_struct jsonconfig)"

definition default_value :: "string \<Rightarrow> string \<Rightarrow> string" where
  "default_value value def = (if value = [] then def else value)"

text \<open>The name of the second variable is spelt with a final small \<open>y\<close>.\<close>

definition make_acme_client :: "(string \<Rightarrow> string) \<Rightarrow> acme_client option" where
  "make_acme_client getenv =
     (let directoryURL = getenv ''TEST_DIRECTORY_URL'' in
      if directoryURL = [] then None
      else Some \<lparr>DirectoryURL = directoryURL,
             InsecureSkipVerify = (getenv ''TEST_INSECURE_SKIP_VERIFYy'' = ''true'')\<rparr>)"

definition make_lets_encrypt_tls_config :: "(string \<Rightarrow> string) \<Rightarrow> string \<Rightarrow> tls_config" where
  "make_lets_encrypt_tls_config getenv allowedHost =
     (let client = make_acme_client getenv
      in \<lparr>tls_cache_dir = cache_dir_path, tls_allowed_host = allowedHost, tls_client = client\<rparr>)"

definition build :: "(string \<Rightarrow> string) \<Rightarrow> string \<Rightarrow> go_error + server list" where
  "build getenv jsonconfig =
     (if length jsonconfig < 2 then Inl ''server missing config''
      else case unmarshal_server_config jsonconfig of
        Inl err \<Rightarrow> Inl (''server failed to parse config: '' @ err)
      | Inr sConf \<Rightarrow>
          let httpPort = default_value (sc_Port sConf) default_http_port;
              httpsPort = default_value (sc_Port sConf) default_https_port
          in if \<not> sc_SSL sConf then
               (let httpServer = new_server (sc_Token sConf) [with_http httpPort] in Inr [httpServer])
             else if sc_SSLType sConf = ssl_type_lets_encrypt then
               (let allowedHost = sc_Domain sConf;
                    tlsConfig = make_lets_encrypt_tls_config getenv allowedHost;
                    httpsServer = new_server (sc_Token sConf) [with_tls_config default_https_port tlsConfig];
                    httpServer = new_server (sc_Token sConf) [with_http httpPort]
                in Inr [httpsServer, httpServer])
             else if sc_SSLType sConf = ssl_type_file then
               (let httpsServer = new_server (sc_Token sConf)
                      [with_ssl httpsPort (sc_SSLFileCertFile sConf) (sc_SSLFileKeyFile sConf)];
                    httpServer = new_server (sc_Token sConf) [with_http httpPort]
                in Inr [httpsServer, httpServer])
             else Inl (''unsupported SSL type['' @ sc_SSLType sConf @ '']''))"

lemmas setup_defs [go_defs] = with_http_def with_ssl_def with_tls_config_def new_server_def serve_def
  shutdown_def server_config_struct_def server_config_of_def unmarshal_server_config_def default_http_port_def default_https_port_def cache_dir_path_def ssl_type_file_def
  ssl_type_lets_encrypt_def default_value_def make_acme_client_def make_lets_encrypt_tls_config_def

section \<open>What is listened on\<close>

definition listens :: "server \<Rightarrow> string \<times> bool" where
  "listens s = (case serve s of (s', h, l) \<Rightarrow> (hs_Addr h, case l of Listen_TLS c k \<Rightarrow> True | Listen_plain \<Rightarrow> False))"

lemma listens_eq: "listens s = ('':'' @ se_port s, se_certFile s \<noteq> [] \<or> se_keyFile s \<noteq> [] \<or> se_tlsConfig s \<noteq> None)"
  by (simp add: listens_def serve_def Let_def)

text \<open>
  C30: The addresses of the servers that are built and which of them use TLS; every one has the configured
  token, and none is started. An error has one of three causes.
\<close>

theorem build_listens:
  "case build getenv config of
     Inl err \<Rightarrow> length config < 2 \<or> (\<exists>e. unmarshal_server_config config = Inl e) \<or>
       (\<exists>c. unmarshal_server_config config = Inr c \<and> sc_SSL c \<and> sc_SSLType c \<notin> {ssl_type_file, ssl_type_lets_encrypt})
   | Inr servers \<Rightarrow> \<exists>c. 2 \<le> length config \<and> unmarshal_server_config config = Inr c
       \<and> list_all (\<lambda>s. se_privateAPIToken s = sc_Token c \<and> se_server s = None) servers
       \<and> map listens servers =
           (if \<not> sc_SSL c then [('':'' @ default_value (sc_Port c) ''80'', False)]
            else if sc_SSLType c = ssl_type_lets_encrypt then
              [('':443'', True), ('':'' @ default_value (sc_Port c) ''80'', False)]
            else [('':'' @ default_value (sc_Port c) ''443'', sc_SSLFileCertFile c \<noteq> [] \<or> sc_SSLFileKeyFile c \<noteq> []),
                  ('':'' @ default_value (sc_Port c) ''80'', False)])"
proof (cases "unmarshal_server_config config")
  case (Inr c)
  have types: "ssl_type_file \<noteq> ssl_type_lets_encrypt" by (simp add: ssl_type_file_def ssl_type_lets_encrypt_def)
  have l: "listens (new_server t [with_http p]) = ('':'' @ p, False)"
    "listens (new_server t [with_ssl p ce k]) = ('':'' @ p, ce \<noteq> [] \<or> k \<noteq> [])"
    "listens (new_server t [with_tls_config p g]) = ('':'' @ p, True)" for t p ce k g
    by (simp_all add: listens_eq new_server_def with_http_def with_ssl_def with_tls_config_def)
  have t: "se_privateAPIToken (new_server t [with_http p]) = t \<and> se_server (new_server t [with_http p]) = None"
    "se_privateAPIToken (new_server t [with_ssl p ce k]) = t \<and> se_server (new_server t [with_ssl p ce k]) = None"
    "se_privateAPIToken (new_server t [with_tls_config p g]) = t \<and> se_server (new_server t [with_tls_config p g]) = None"
    for t p ce k g
    by (simp_all add: new_server_def with_http_def with_ssl_def with_tls_config_def)
  show ?thesis
  proof (cases "length config < 2")
    case False
    consider "\<not> sc_SSL c" | "sc_SSL c" "sc_SSLType c = ssl_type_lets_encrypt" | "sc_SSL c" "sc_SSLType c = ssl_type_file"
      | "sc_SSL c" "sc_SSLType c \<notin> {ssl_type_file, ssl_type_lets_encrypt}" by blast
    then show ?thesis
      by cases (use False Inr types in \<open>simp_all add: build_def Let_def l t default_http_port_def default_https_port_def\<close>)
  qed (simp add: build_def)
qed (simp add: build_def)

text \<open>
  With certificates from files and a port configured both servers get the same address, of which only
  one can listen; and with neither file given the first server, meant for https, does not use TLS.
\<close>

theorem build_same_port:
  assumes "unmarshal_server_config config = Inr c" and "2 \<le> length config" and "sc_SSL c" and "sc_SSLType c = ssl_type_file"
    and "sc_Port c \<noteq> []"
  shows "\<exists>https http. build getenv config = Inr [https, http] \<and> fst (listens https) = fst (listens http)
    \<and> (snd (listens https) \<longleftrightarrow> sc_SSLFileCertFile c \<noteq> [] \<or> sc_SSLFileKeyFile c \<noteq> [])"
proof -
  have "ssl_type_file \<noteq> ssl_type_lets_encrypt" by (simp add: ssl_type_file_def ssl_type_lets_encrypt_def)
  with assms show ?thesis
    by (auto simp: build_def Let_def listens_eq new_server_def with_http_def with_ssl_def default_value_def)
qed

subsection \<open>A configuration written as JSON\<close>

definition config_members :: "server_config \<Rightarrow> (string \<times> string) list" where
  "config_members c = [(''BRUM_SERVER_PORT'', json_string (sc_Port c)), (''BRUM_SERVER_SSL'', bool_text (sc_SSL c)),
     (''BRUM_SERVER_SSL_TYPE'', json_string (sc_SSLType c)), (''BRUM_SERVER_SSL_CERT_FILE'', json_string (sc_SSLFileCertFile c)),
     (''BRUM_SERVER_SSL_KEY_FILE'', json_string (sc_SSLFileKeyFile c)),
     (''BRUM_SERVER_SSL_LETS_ENCRYPT_DOMAIN'', json_string (sc_Domain c)), (''BRUM_PRIVATE_API_TOKEN'', json_string (sc_Token c))]"

definition config_strings :: "server_config \<Rightarrow> string list" where
  "config_strings c = [sc_Port c, sc_SSLType c, sc_SSLFileCertFile c, sc_SSLFileKeyFile c, sc_Domain c, sc_Token c]"

lemma config_fields:
  "map_of (st_Fields server_config_struct) ''BRUM_SERVER_PORT'' = Some (KString ''string'')"
  "map_of (st_Fields server_config_struct) ''BRUM_SERVER_SSL'' = Some KBool"
  "map_of (st_Fields server_config_struct) ''BRUM_SERVER_SSL_TYPE'' = Some (KString ''server.SSLType'')"
  "map_of (st_Fields server_config_struct) ''BRUM_SERVER_SSL_CERT_FILE'' = Some (KString ''string'')"
  "map_of (st_Fields server_config_struct) ''BRUM_SERVER_SSL_KEY_FILE'' = Some (KString ''string'')"
  "map_of (st_Fields server_config_struct) ''BRUM_SERVER_SSL_LETS_ENCRYPT_DOMAIN'' = Some (KString ''string'')"
  "map_of (st_Fields server_config_struct) ''BRUM_PRIVATE_API_TOKEN'' = Some (KString ''string'')"
  by (simp_all add: server_config_struct_def)

lemma config_field_valid: "map_of (st_Fields server_config_struct) n = Some k \<Longrightarrow> to_valid n = n"
  by (drule map_of_SomeD, rule to_valid_ascii) (auto simp: server_config_struct_def)

lemma store_config_string:
  "map_of (st_Fields server_config_struct) n = Some (KString ty)
    \<Longrightarrow> store_member server_config_struct (to_valid n) (json_string v) (fs, err) = (AList.update n (FString (to_valid v)) fs, err)"
  by (rule store_string_member) (simp add: find_field_def config_field_valid)

lemma store_config_bool:
  "map_of (st_Fields server_config_struct) n = Some KBool
    \<Longrightarrow> store_member server_config_struct (to_valid n) (bool_text b) (fs, err) = (AList.update n (FBool b) fs, err)"
  by (rule store_bool_member) (simp add: find_field_def config_field_valid)

lemma unmarshal_config_text:
  assumes "list_all (\<lambda>t. to_valid t = t) (config_strings c)"
  shows "unmarshal_server_config (object_text (config_members c)) = Inr c"
proof -
  let ?fs = "[(''BRUM_SERVER_PORT'', FString (sc_Port c)), (''BRUM_SERVER_SSL'', FBool (sc_SSL c)),
     (''BRUM_SERVER_SSL_TYPE'', FString (sc_SSLType c)), (''BRUM_SERVER_SSL_CERT_FILE'', FString (sc_SSLFileCertFile c)),
     (''BRUM_SERVER_SSL_KEY_FILE'', FString (sc_SSLFileKeyFile c)),
     (''BRUM_SERVER_SSL_LETS_ENCRYPT_DOMAIN'', FString (sc_Domain c)), (''BRUM_PRIVATE_API_TOKEN'', FString (sc_Token c))]"
  have "stored server_config_struct (config_members c) ([], None) = (?fs, None)"
    using assms
    by (simp add: config_members_def config_strings_def store_config_string [OF config_fields(1)] store_config_bool [OF config_fields(2)]
        store_config_string [OF config_fields(3)] store_config_string [OF config_fields(4)] store_config_string [OF config_fields(5)]
        store_config_string [OF config_fields(6)] store_config_string [OF config_fields(7)] del: to_valid.simps)
  moreover have "readable (snd m)" if "m \<in> set (config_members c)" for m
    using that by (auto simp: config_members_def readable_string readable_bool)
  ultimately have "unmarshal_struct server_config_struct (object_text (config_members c)) = Inr ?fs"
    by (intro unmarshal_object_text) blast+
  then show ?thesis
    by (simp add: unmarshal_server_config_def server_config_of_def text_field_def bool_field_def)
qed

definition sample_config :: server_config where
  "sample_config = \<lparr>sc_Port = ''8087'', sc_SSL = True, sc_SSLType = ''FILE'', sc_SSLFileCertFile = [],
     sc_SSLFileKeyFile = [], sc_Domain = [], sc_Token = ''t''\<rparr>"

definition config_text :: "server_config \<Rightarrow> string" where
  "config_text c = object_text (config_members c)"

lemma config_text_length: "2 \<le> length (config_text c)"
  by (simp add: config_text_def object_text_def)

lemma read_sample_config: "unmarshal_server_config (config_text (sample_config\<lparr>sc_SSL := b\<rparr>)) = Inr (sample_config\<lparr>sc_SSL := b\<rparr>)"
  unfolding config_text_def
  by (rule unmarshal_config_text) (simp add: config_strings_def sample_config_def to_valid_ascii del: to_valid.simps(2))

lemma build_same_port_witness:
  "\<exists>https http. build (\<lambda>v. []) (config_text sample_config) = Inr [https, http]
    \<and> fst (listens https) = fst (listens http) \<and> \<not> snd (listens https)"
proof -
  have c: "sc_SSL sample_config" "sc_SSLType sample_config = ssl_type_file" "sc_Port sample_config \<noteq> []"
    "unmarshal_server_config (config_text sample_config) = Inr sample_config"
    using read_sample_config [of True] by (simp_all add: sample_config_def ssl_type_file_def)
  from build_same_port [OF c(4) config_text_length c(1-3), of "\<lambda>v. []"] show ?thesis by (simp add: sample_config_def)
qed

lemma build_listens_witness:
  "\<exists>servers. build (\<lambda>v. []) (config_text sample_config) = Inr servers
    \<and> map listens servers = [('':8087'', False), ('':8087'', False)]"
proof -
  have types: "ssl_type_file \<noteq> ssl_type_lets_encrypt" by (simp add: ssl_type_file_def ssl_type_lets_encrypt_def)
  have c: "sc_SSL sample_config" "sc_SSLType sample_config = ssl_type_file" "sc_Port sample_config = ''8087''"
    "sc_SSLFileCertFile sample_config = []" "sc_SSLFileKeyFile sample_config = []"
    "unmarshal_server_config (config_text sample_config) = Inr sample_config"
    using read_sample_config [of True] by (simp_all add: sample_config_def ssl_type_file_def)
  from build_listens [where getenv = "\<lambda>v. []" and config = "config_text sample_config"] show ?thesis
    using types config_text_length [of sample_config]
    by (cases "build (\<lambda>v. []) (config_text sample_config)") (auto simp: c default_value_def)
qed

end
