(* ===== verification/Program.thy ===== *)
theory Program
  imports Adapters Processing Server_Setup
begin

text \<open>
  The main program (\<open>main.go\<close>): from the flags to the running servers, and from the signal to the exit
  code. Each stage goes on or exits with a code; \<open>os.Exit\<close> runs no deferred call. The decoder of the
  configuration file and the environment are arguments.
\<close>

section \<open>Flags and configuration\<close>

record flags =
  fl_config :: string
  fl_reset :: bool
  fl_upgrade :: bool
  fl_no_init :: bool

definition default_flags :: flags where
  "default_flags = \<lparr>fl_config = ''front_basicrum_go.conf'', fl_reset = False, fl_upgrade = False, fl_no_init = True\<rparr>"

record backup_config =
  bc_Enabled :: bool
  bc_Directory :: string
  bc_IntervalSeconds :: "32 word"
  bc_CompressionType :: string
  bc_CompressionLevel :: string

record program_config =
  pc_Store :: string
  pc_Backup :: backup_config
  pc_SubscriptionEnabled :: bool
  pc_Server :: string

record environment =
  en_Getwd :: "go_error + string"
  en_decode :: "string \<Rightarrow> go_error + program_config"
  en_store_config :: "string \<Rightarrow> go_error + store_config"
  en_Getenv :: "string \<Rightarrow> string"
  en_uaparser :: "go_error option"

definition to_absolute_path :: "string \<Rightarrow> string \<Rightarrow> string" where
  "to_absolute_path base path = (if path_rooted path then path else path_clean (path_join [base, path]))"

section \<open>The database\<close>

datatype 'x stage = Exit nat | Proceed 'x

text \<open>
  What follows \<open>Store.Open\<close>. The errors of creating and upgrading the database are logged and the program
  goes on.
\<close>

definition go_on :: "('s, go_error option) call \<Rightarrow> ('s, unit stage) call" where
  "go_on m = call_bind m (\<lambda>err. call_ret (Proceed ()))"

definition open_database :: "'a adapter \<Rightarrow> (string \<Rightarrow> go_error + store_config) \<Rightarrow> flags \<Rightarrow> string
    \<Rightarrow> ('a store, unit stage) call" where
  "open_database A unmarshal fl config =
     call_bind (store_open A unmarshal 1 config) (\<lambda>err st.
     let adapterVersion = get_adapter_version A st in
     call_bind (\<lambda>st. if store_is_open A st then store_db_version A st else Value (0, st)) (\<lambda>databaseVersion.
       case err of
         Some err \<Rightarrow>
           if str_contains err ''Database not initialized'' then
             (if fl_no_init fl then call_ret (Exit 1) else go_on (init_db A unmarshal config True))
           else if str_contains err ''Invalid database version'' then
             (if fl_reset fl then go_on (init_db A unmarshal config True)
              else if fl_upgrade fl then
                (if databaseVersion > adapterVersion then call_ret (Exit 1)
                 else go_on (upgrade_db A unmarshal config))
              else call_ret (Exit 1))
           else call_ret (Exit 1)
       | None \<Rightarrow>
           if fl_reset fl then go_on (init_db A unmarshal config True)
           else call_ret (Proceed ())) st)"

section \<open>The services\<close>

text \<open>
  \<open>Store.GetAdapter()\<close> is the pointer to the chosen object of the registry: its methods act on that
  object, and on the nil interface they panic.
\<close>

definition store_adapter :: "'a adapter \<Rightarrow> 'a store adapter" where
  "store_adapter A = \<lparr>ad_Open = (\<lambda>c. on_adp (ad_Open A c)), ad_Close = on_adp (ad_Close A), ad_IsOpen = adp_is_open A,
     ad_GetDbVersion = on_adp (ad_GetDbVersion A), ad_CheckDbVersion = on_adp (ad_CheckDbVersion A),
     ad_GetName = get_adapter_name A, ad_SetMaxResults = (\<lambda>n. on_adp (ad_SetMaxResults A n)),
     ad_CreateDb = (\<lambda>r. on_adp (ad_CreateDb A r)), ad_UpgradeDb = on_adp (ad_UpgradeDb A),
     ad_Version = get_adapter_version A, ad_Stats = on_adp (ad_Stats A), ad_Save = (\<lambda>e. on_adp (ad_Save A e)),
     ad_SaveHost = (\<lambda>e. on_adp (ad_SaveHost A e)), ad_InsertOwnerHostname = (\<lambda>i. on_adp (ad_InsertOwnerHostname A i)),
     ad_DeleteOwnerHostname = (\<lambda>h u. on_adp (ad_DeleteOwnerHostname A h u)),
     ad_GetSubscriptions = on_adp (ad_GetSubscriptions A),
     ad_GetSubscription = (\<lambda>i. on_adp (ad_GetSubscription A i)), ad_GetEvents = on_adp (ad_GetEvents A)\<rparr>"

definition make_subscription_service :: "bool \<Rightarrow> 'd adapter
    \<Rightarrow> (sub_cache \<times> 'd, go_error option) call \<times> 'd get_sub" where
  "make_subscription_service enabled A =
     (if \<not> enabled then (call_ret disabled_load, disabled_get)
      else (caching_load (ad_GetSubscriptions A), caching_get_subscription (ad_GetSubscription A)))"

record 'd running =
  rn_servers :: "server list"
  rn_service :: "'d service"

definition start_services :: "'a adapter \<Rightarrow> environment \<Rightarrow> program_config
    \<Rightarrow> ('a store \<times> os, 'a store running stage) call" where
  "start_services A env config = (\<lambda>(st, s).
     case en_uaparser env of Some err \<Rightarrow> Value (Exit 1, (st, s))
     | None \<Rightarrow>
         let bc = pc_Backup config;
             compressionFactory = new_compression_writer_factory (bc_Enabled bc) (bc_CompressionType bc) (bc_CompressionLevel bc)
         in (case new_backup (bc_Enabled bc) (bc_Directory bc) compressionFactory s of
               (Inl err, s) \<Rightarrow> Value (Exit 1, (st, s))
             | (Inr backupService, s) \<Rightarrow>
                 let (load, get) = make_subscription_service (pc_SubscriptionEnabled config) (store_adapter A) in
                 run_bind (load (new_caching, st)) (\<lambda>(err, (cache, st)).
                   case err of Some err \<Rightarrow> Value (Exit 1, (st, s))
                   | None \<Rightarrow>
                       let processingService = new_service cache st backupService in
                       (case build (en_Getenv env) (pc_Server config) of
                          Inl err \<Rightarrow> Value (Exit 1, (st, s))
                        | Inr servers \<Rightarrow> Value (Proceed \<lparr>rn_servers = servers, rn_service = processingService\<rparr>, (st, s))))))"

definition main_start :: "'a adapter \<Rightarrow> environment \<Rightarrow> flags \<Rightarrow> ('a store \<times> os, 'a store running stage) call" where
  "main_start A env fl = (\<lambda>(st, s).
     case en_Getwd env of Inl err \<Rightarrow> Value (Exit 1, (st, s))
     | Inr curwd \<Rightarrow>
         let configfile = to_absolute_path curwd (fl_config fl) in
         (case os_read_all s configfile of Inl err \<Rightarrow> Value (Exit 1, (st, s))
          | Inr content \<Rightarrow>
              (case en_decode env content of Inl err \<Rightarrow> Value (Exit 1, (st, s))
               | Inr config \<Rightarrow>
                   run_bind (open_database A (en_store_config env) fl (pc_Store config) st) (\<lambda>(r, st).
                     case r of Exit code \<Rightarrow> Value (Exit code, (st, s))
                     | Proceed u \<Rightarrow> start_services A env config (st, s)))))"

section \<open>The end\<close>

text \<open>
  Each server is started by a goroutine of its own; \<open>begun\<close> says which of them, by position, have run when the
  signal comes.
\<close>

definition start_servers :: "(nat \<Rightarrow> bool) \<Rightarrow> server list \<Rightarrow> server list" where
  "start_servers begun servers =
     map (\<lambda>(index, srv). if begun index then fst (serve srv) else srv) (enumerate 0 servers)"

text \<open>
  After the signal the servers are shut down in parallel and the backup is flushed; the first error to
  arrive is returned: \<open>finished\<close> lists the servers in the order in which their shutdowns end.
\<close>

fun first_error :: "go_error option list \<Rightarrow> go_error option" where
  "first_error [] = None"
| "first_error (None # es) = first_error es"
| "first_error (Some e # es) = Some e"

definition stop_servers :: "(http_server \<Rightarrow> go_error option) \<Rightarrow> (server list \<Rightarrow> server list)
    \<Rightarrow> (string \<Rightarrow> time) \<Rightarrow> (string \<Rightarrow> bool) \<Rightarrow> (backup_list \<Rightarrow> string list)
    \<Rightarrow> server list \<Rightarrow> (backup \<times> os, go_error option) call" where
  "stop_servers http_shutdown finished now closed order servers = (\<lambda>(b, s).
     run_bind (flush now closed order b s) (\<lambda>(b, s).
       Value (first_error (map (shutdown http_shutdown) (finished servers)), (b, s))))"

text \<open>The exit code, the store and the files at the end; the store is closed by a deferred call.\<close>

definition main_end :: "'a adapter \<Rightarrow> (http_server \<Rightarrow> go_error option) \<Rightarrow> (nat \<Rightarrow> bool) \<Rightarrow> (server list \<Rightarrow> server list)
    \<Rightarrow> (string \<Rightarrow> time) \<Rightarrow> (string \<Rightarrow> bool) \<Rightarrow> (backup_list \<Rightarrow> string list)
    \<Rightarrow> 'a store running \<Rightarrow> os \<Rightarrow> (nat \<times> 'a store \<times> backup \<times> os) run" where
  "main_end A http_shutdown begun finished now closed order rn s =
     run_bind (stop_servers http_shutdown finished now closed order (start_servers begun (rn_servers rn)) (sv_backup (rn_service rn), s))
       (\<lambda>(err, (b, s)).
         case err of
           Some err \<Rightarrow> Value (1, sv_db (rn_service rn), b, s)
         | None \<Rightarrow> run_bind (store_close A (sv_db (rn_service rn))) (\<lambda>(err, st). Value (0, st, b, s)))"

lemmas program_defs [go_defs] = default_flags_def to_absolute_path_def go_on_def open_database_def store_adapter_def
  make_subscription_service_def start_services_def main_start_def start_servers_def stop_servers_def main_end_def

section \<open>What is served\<close>

lemma go_on_Value: "go_on m st = Value (r, st') \<longleftrightarrow> r = Proceed () \<and> (\<exists>err. m st = Value (err, st'))"
  by (auto simp: go_on_def call_bind_def call_ret_def run_bind_Value_iff)

text \<open>Servers that were built and not started.\<close>

definition unstarted :: "server list \<Rightarrow> bool" where
  "unstarted servers \<longleftrightarrow> servers \<noteq> [] \<and> list_all (\<lambda>srv. se_server srv = None) servers"

lemma build_unstarted: "build getenv config = Inr servers \<Longrightarrow> unstarted servers"
  by (auto simp: unstarted_def build_def new_server_def with_http_def with_ssl_def with_tls_config_def Let_def
      split: if_splits sum.splits)

text \<open>A server shuts down without an error only if its goroutine has run before.\<close>

lemma shutdown_started:
  assumes "unstarted servers"
  shows "list_all (\<lambda>srv. shutdown http_shutdown srv = None) (start_servers begun servers)
    \<longleftrightarrow> (\<forall>i < length servers. begun i \<and> http_shutdown (fst (snd (serve (servers ! i)))) = None)"
proof -
  have "shutdown http_shutdown (if begun i then fst (serve srv) else srv) = None
      \<longleftrightarrow> begun i \<and> http_shutdown (fst (snd (serve srv))) = None" if "se_server srv = None" for i srv
    using that by (simp add: shutdown_def serve_def Let_def)
  with assms show ?thesis
    by (simp add: list_all_length start_servers_def nth_enumerate_eq unstarted_def)
qed

context db_adapter
begin

text \<open>Without a reset and with nothing to create, going on means that the store was opened and accepted.\<close>

lemma open_database_default:
  assumes wf: "store_wf A st" and o: "open_database A unmarshal fl config st = Value (Proceed u, st')"
    and fl: "\<not> fl_reset fl" "\<not> fl_upgrade fl" "fl_no_init fl"
  shows "store_wf A st' \<and> store_is_open A st'"
proof -
  from o obtain err st1 where e: "store_open A unmarshal 1 config st = Value (err, st1)"
    by (auto simp: open_database_def call_bind_def run_bind_Value_iff)
  note w = store_open_wf [OF wf e]
  have none: "err = None"
    using o e fl by (cases err) (auto simp: open_database_def call_bind_def call_ret_def run_bind_Value_iff split: if_splits)
  with w have open1: "store_is_open A st1" by simp
  obtain v where v: "store_db_version A st1 = Value (v, st')"
    using o e fl none open1 by (auto simp: open_database_def call_bind_def call_ret_def run_bind_Value_iff)
  show ?thesis using store_db_version_wf [OF _ v] w open1 by (auto simp: store_is_open_def split: if_splits)
qed

lemma on_store_subscriptions:
  assumes wf: "store_wf A st" and c: "ad_GetSubscriptions (store_adapter A) st = Value (r, st')"
  shows "store_wf A st' \<and> adp st' = adp st \<and> adp_is_open A st' = adp_is_open A st"
proof -
  from c have c: "on_adp (ad_GetSubscriptions A) st = Value (r, st')" by (simp add: store_adapter_def)
  show ?thesis using on_adp_wf [OF wf names(8) c] on_adp_open_kept [OF subs_open c] by simp
qed

lemma load_keeps:
  assumes wf: "store_wf A st"
    and l: "fst (make_subscription_service en (store_adapter A)) (cache, st) = Value (err, (cache', st'))"
  shows "store_wf A st' \<and> adp st' = adp st \<and> adp_is_open A st' = adp_is_open A st"
proof (cases en)
  case True
  with l obtain r where "ad_GetSubscriptions (store_adapter A) st = Value (r, st')"
    by (auto simp: make_subscription_service_def caching_load_def run_bind_Value_iff)
  with on_store_subscriptions [OF wf] show ?thesis by blast
qed (use l wf in \<open>simp add: make_subscription_service_def call_ret_def\<close>)

lemma start_services_store:
  assumes wf: "store_wf A st" and p: "start_services A env config (st, s) = Value (Proceed rn, (st', s'))"
  shows "store_wf A st' \<and> store_is_open A st' = store_is_open A st \<and> sv_db (rn_service rn) = st' \<and> unstarted (rn_servers rn)"
proof -
  from p obtain b s1 where b: "new_backup (bc_Enabled (pc_Backup config)) (bc_Directory (pc_Backup config))
      (new_compression_writer_factory (bc_Enabled (pc_Backup config)) (bc_CompressionType (pc_Backup config))
        (bc_CompressionLevel (pc_Backup config))) s = (Inr b, s1)" and u: "en_uaparser env = None"
    by (auto simp: start_services_def Let_def split: option.splits sum.splits prod.splits)
  obtain load get where m: "make_subscription_service (pc_SubscriptionEnabled config) (store_adapter A) = (load, get)"
    by fastforce
  from p b u m obtain err cache st1 where l: "load (new_caching, st) = Value (err, (cache, st1))"
    by (auto simp: start_services_def Let_def run_bind_Value_iff)
  from p b u m l obtain servers where
    s: "err = None" "build (en_Getenv env) (pc_Server config) = Inr servers" "st' = st1"
      "rn = \<lparr>rn_servers = servers, rn_service = new_service cache st1 b\<rparr>"
    by (auto simp: start_services_def Let_def split: option.splits sum.splits)
  with load_keeps [OF wf, of "pc_SubscriptionEnabled config" new_caching err cache st1] l m build_unstarted show ?thesis
    by (auto simp: new_service_def store_is_open_def)
qed

lemma main_start_default:
  assumes wf: "store_wf A st" and p: "main_start A env fl (st, s) = Value (Proceed rn, (st', s'))"
    and fl: "\<not> fl_reset fl" "\<not> fl_upgrade fl" "fl_no_init fl"
  shows "store_wf A st' \<and> store_is_open A st' \<and> sv_db (rn_service rn) = st' \<and> unstarted (rn_servers rn)"
proof -
  from p obtain curwd content config where
    c: "en_Getwd env = Inr curwd" "os_read_all s (to_absolute_path curwd (fl_config fl)) = Inr content"
      "en_decode env content = Inr config"
    by (auto simp: main_start_def Let_def split: sum.splits)
  with p obtain r st1 where o': "open_database A (en_store_config env) fl (pc_Store config) st = Value (r, st1)"
    by (auto simp: main_start_def Let_def run_bind_Value_iff)
  with p c have "\<exists>u. r = Proceed u \<and> start_services A env config (st1, s) = Value (Proceed rn, (st', s'))"
    by (cases r) (simp_all add: main_start_def)
  then obtain u where o: "open_database A (en_store_config env) fl (pc_Store config) st = Value (Proceed u, st1)"
    and r: "start_services A env config (st1, s) = Value (Proceed rn, (st', s'))"
    using o' by blast
  from open_database_default [OF wf o fl] have "store_wf A st1" "store_is_open A st1" by simp_all
  with start_services_store [OF this(1) r] show ?thesis by simp
qed

lemma main_end_closes:
  assumes wf: "store_wf A (sv_db (rn_service rn))" and adp: "adp (sv_db (rn_service rn)) \<noteq> None"
    and f: "flush now closed order (sv_backup (rn_service rn)) s = Value (b', s')"
  shows "\<exists>code st'. main_end A http_shutdown begun finished now closed order rn s = Value (code, st', b', s')
    \<and> (if first_error (map (shutdown http_shutdown) (finished (start_servers begun (rn_servers rn)))) = None
       then code = 0 \<and> \<not> store_is_open A st' else code = 1 \<and> st' = sv_db (rn_service rn))"
proof (cases "first_error (map (shutdown http_shutdown) (finished (start_servers begun (rn_servers rn))))")
  case None
  obtain err st' where "store_close A (sv_db (rn_service rn)) = Value (err, st')" "\<not> store_is_open A st'"
    using store_close_returns [OF wf adp] by blast
  with f None show ?thesis by (simp add: main_end_def stop_servers_def)
qed (use f in \<open>simp add: main_end_def stop_servers_def\<close>)

end

section \<open>The program with its four adapters\<close>



section \<open>Examples\<close>

definition sample_program :: program_config where
  "sample_program = \<lparr>pc_Store = ''{}'', pc_Backup = \<lparr>bc_Enabled = False, bc_Directory = [], bc_IntervalSeconds = 0,
       bc_CompressionType = [], bc_CompressionLevel = []\<rparr>, pc_SubscriptionEnabled = False,
     pc_Server = config_text (sample_config\<lparr>sc_SSL := False\<rparr>)\<rparr>"

definition sample_env :: environment where
  "sample_env = \<lparr>en_Getwd = Inr ''/w'', en_decode = (\<lambda>t. Inr sample_program), en_store_config = sample_unmarshal,
     en_Getenv = (\<lambda>v. []), en_uaparser = None\<rparr>"

definition sample_disk :: os where
  "sample_disk = \<lparr>tree = [([[], ''w''], Dir), ([[], ''w'', ''front_basicrum_go.conf''], File ''{}'')], io_fault = (\<lambda>call k. None)\<rparr>"

lemma sample_config_file:
  "os_read_all sample_disk (to_absolute_path ''/w'' ''front_basicrum_go.conf'') = Inr ''{}''"
  unfolding sample_disk_def by code_simp

lemma sample_main:
  "\<exists>rn st. main_start sample_drivers sample_env default_flags (sample_store, sample_disk) = Value (Proceed rn, (st, sample_disk))"
proof -
  obtain a where o: "store_open sample_drivers sample_unmarshal 1 ''{}'' sample_store =
      Value (None, \<lparr>adp = Some ''clickhouse'', availableAdapters = [(''clickhouse'', Inr (Inl (a, [(''v'', 0, ''h'')])))]\<rparr>)"
    "ch_conn a \<noteq> None" "ch_version a = 1"
    using sample_opens by blast
  let ?st = "\<lparr>adp = Some ''clickhouse'', availableAdapters = [(''clickhouse'', Inr (Inl (a, [(''v'', 0, ''h'')])))]\<rparr>
    :: (my_log, owner_rows, hash_db, subscription_with_hostname list) object store"
  have v: "store_db_version sample_drivers ?st = Value (1, ?st)"
    using o(2,3)
    by (simp add: store_db_version_def on_adp_def adp_state_def sample_drivers_simps ch_get_db_version_def call_bind_def call_ret_def)
  have op: "store_is_open sample_drivers ?st"
    using o(2) by (simp add: store_is_open_def adp_is_open_def adp_state_def sample_drivers_simps ch_is_open_def)
  have "open_database sample_drivers sample_unmarshal default_flags ''{}'' sample_store = Value (Proceed (), ?st)"
    using v op by (simp add: open_database_def o(1) call_bind_def call_ret_def default_flags_def)
  moreover have "build (\<lambda>v. []) (config_text (sample_config\<lparr>sc_SSL := False\<rparr>)) = Inr [new_server ''t'' [with_http ''8087'']]"
    using config_text_length [of "sample_config\<lparr>sc_SSL := False\<rparr>"] read_sample_config [of False]
    by (simp add: build_def sample_config_def default_value_def)
  ultimately show ?thesis
    by (simp add: main_start_def sample_env_def sample_config_file default_flags_def start_services_def sample_program_def
        new_backup_def make_subscription_service_def call_ret_def disabled_load_def)
qed



section \<open>Serving without a database\<close>

text \<open>
  A MySQL server that lacks the database: the first connection answers "unknown database", which opening
  tolerates, and so does the version query.
\<close>

definition my_lacks_db :: "'w my_driver \<Rightarrow> my_config \<Rightarrow> bool" where
  "my_lacks_db D c \<longleftrightarrow> mc_FormatDSN c \<noteq> my_default_format_dsn D \<and> mc_DSN c = [] \<and>
     (\<forall>w. fst (my_sqlx_open D (mc_FormatDSN c) w) = None) \<and> (\<forall>h w. is_missing_db (fst (my_ping D h w))) \<and>
     (\<forall>h t q w. \<exists>e w'. my_get_int D h t q w = (Inl e, w') \<and> is_missing_db (Some e))"

lemma my_open_lacks_db:
  assumes "my_lacks_db D c" and "my_unmarshal D json = Inr c" and "2 \<le> length json" and "my_db a = None"
  shows "\<exists>a' w'. my_open D json (a, w) = Value (None, (a', w')) \<and> my_db a' = Some (mc_FormatDSN c)
    \<and> my_dsn a' = mc_FormatDSN c \<and> my_version a' = my_version a"
proof -
  obtain e w1 w2 where w: "my_sqlx_open D (mc_FormatDSN c) w = (None, w1)" "my_ping D (mc_FormatDSN c) w1 = (e, w2)"
    "is_missing_db e"
    using assms(1) unfolding my_lacks_db_def by (metis prod.collapse)
  with assms show ?thesis
    by (auto simp: my_open_def my_choose_dsn_def my_lacks_db_def my_configure_def Let_def)
qed

lemma my_version_lacks_db:
  assumes "my_lacks_db D c" and "my_db a \<noteq> None" and "my_version a \<le> 0"
  shows "\<exists>w'. my_get_db_version D (a, w) = Value ((-1, Some ''Database not initialized''), (a, w'))"
proof -
  obtain h where "my_db a = Some h" using assms(2) by auto
  moreover obtain e w' where "my_get_int D h (my_context a)
      (''SELECT `value` FROM kvmeta WHERE `key`='' @ [CHR 0x27] @ ''version'' @ [CHR 0x27]) w = (Inl e, w')" "is_missing_db (Some e)"
    using assms(1) unfolding my_lacks_db_def by blast
  ultimately show ?thesis using assms(3) by (auto simp: my_get_db_version_def Let_def)
qed

abbreviation only_adapter :: "'a \<Rightarrow> 'a store" where
  "only_adapter a \<equiv> \<lparr>adp = Some ''mysql'', availableAdapters = [(''mysql'', a)]\<rparr>"

lemma only_adapter_simps:
  "on_adp m (only_adapter a) = run_bind (m a) (\<lambda>(x, a'). Value (x, only_adapter a'))"
  "store_is_open A (only_adapter a) = ad_IsOpen A a"
  "adp_is_open A (only_adapter a) = ad_IsOpen A a"
  by (simp_all add: on_adp_def adp_state_def store_is_open_def adp_is_open_def)

lemma str_contains_self: "str_contains s s"
  by (metis append_Nil append_Nil2 str_contains_iff)


definition refusing_driver :: "my_log my_driver" where
  "refusing_driver = (my_log_driver (\<lambda>q. False))\<lparr>
     my_clear_db_name := (\<lambda>d. Some ''root''),
     my_sqlx_open := (\<lambda>d w. (if d = ''root'' then Some (OtherError ''refused'') else None, w)),
     my_ping := (\<lambda>d w. (Some (MySQLError 1049 ''Unknown database''), w)),
     my_get_int := (\<lambda>d t q w. (Inl (MySQLError 1049 ''Unknown database''), w))\<rparr>"

definition mysql_config :: store_config where
  "mysql_config = \<lparr>st_UidKey = [], st_MaxResults = 0, st_UseAdapter = ''mysql'', st_Adapters = Some [(''mysql'', ''user@host/rum'')]\<rparr>"


end
