(* ===== verification/Owner_Hosts.thy ===== *)
theory Owner_Hosts
  imports Server Clickhouse
begin

text \<open>
  The life of a host name across the components: an owner registers it at \<open>/private/hostnames\<close>
  (\<open>server/handlers.go\<close>), the service makes a subscription of it (\<open>service/service.go\<close>,
  \<open>types/subscription.go\<close>), the ClickHouse adapter stores it, the caching service finds it by its id
  (\<open>service/subscription/caching/\<close>), until the owner deletes it.
\<close>

section \<open>The table of owners\<close>

text \<open>
  What is asked of the driver: it keeps a table of owners, \<open>tbl\<close>; the statement of \<open>InsertOwnerHostname\<close> adds its
  row, that of \<open>DeleteOwnerHostname\<close> removes those of the user and the host, and the query by id returns those that
  have the id.
\<close>

type_synonym owner_row = "string \<times> string \<times> string \<times> time"

definition ch_insert_statement :: "ch_adapter \<Rightarrow> string" where
  "ch_insert_statement a = ''INSERT INTO rum.'' @ ch_prefix a @ ch_owner_hosts_table
     @ ''(username, hostname, subscription_id, subscription_expire_at) VALUES(?,?,?,?)''"

definition ch_delete_statement :: "ch_adapter \<Rightarrow> string" where
  "ch_delete_statement a = ''DELETE FROM rum.'' @ ch_prefix a @ ch_owner_hosts_table @ '' WHERE hostname = ? AND username = ?''"

definition ch_owner_table :: "'w ch_driver \<Rightarrow> ch_adapter \<Rightarrow> (string \<times> time \<times> string \<Rightarrow> sql_row) \<Rightarrow> ('w \<Rightarrow> owner_row list) \<Rightarrow> bool" where
  "ch_owner_table D a row tbl \<longleftrightarrow> ch_conn a \<noteq> None \<and> (\<forall>r. ch_scan_sub D (row r) = Inr r) \<and>
     (\<forall>w u h i t. \<exists>w'. ch_exec D (ch_insert_statement a) [SqlText u, SqlText h, SqlText i, SqlTime t] w = (None, w')
        \<and> tbl w' = tbl w @ [(u, h, i, t)]) \<and>
     (\<forall>w u h. \<exists>w'. ch_exec D (ch_delete_statement a) [SqlText h, SqlText u] w = (None, w')
        \<and> tbl w' = filter (\<lambda>(u', h', i, t). \<not> (h' = h \<and> u' = u)) (tbl w)) \<and>
     (\<forall>w i. \<exists>w'. ch_query D (ch_subscription_query a) [SqlText i] w =
        (Inr (map (\<lambda>(u, h, i, t). row (i, t, h)) (filter (\<lambda>(u, h, i', t). i' = i) (tbl w)), None), w') \<and> tbl w' = tbl w)"

lemma ch_insert_row:
  assumes "ch_owner_table D a row tbl"
  shows "\<exists>w'. ad_InsertOwnerHostname (clickhouse_adapter D) (new_owner_hostname u h sub) (a, w) = Value (None, (a, w'))
    \<and> tbl w' = tbl w @ [(u, h, sub_ID sub, ExpiresAt sub)]"
proof -
  from assms obtain w' where "ch_exec D (ch_insert_statement a) [SqlText u, SqlText h, SqlText (sub_ID sub), SqlTime (ExpiresAt sub)] w = (None, w')"
    "tbl w' = tbl w @ [(u, h, sub_ID sub, ExpiresAt sub)]" unfolding ch_owner_table_def by blast
  moreover obtain c where "ch_conn a = Some c" using assms unfolding ch_owner_table_def by blast
  ultimately show ?thesis
    by (simp add: clickhouse_adapter_def ch_insert_owner_hostname_def ch_exec_one_def ch_insert_statement_def new_owner_hostname_def)
qed

lemma ch_delete_rows:
  assumes "ch_owner_table D a row tbl"
  shows "\<exists>w'. ad_DeleteOwnerHostname (clickhouse_adapter D) h u (a, w) = Value (None, (a, w'))
    \<and> tbl w' = filter (\<lambda>(u', h', i, t). \<not> (h' = h \<and> u' = u)) (tbl w)"
proof -
  from assms obtain w' where "ch_exec D (ch_delete_statement a) [SqlText h, SqlText u] w = (None, w')"
    "tbl w' = filter (\<lambda>(u', h', i, t). \<not> (h' = h \<and> u' = u)) (tbl w)" unfolding ch_owner_table_def by blast
  moreover obtain c where "ch_conn a = Some c" using assms unfolding ch_owner_table_def by blast
  ultimately show ?thesis
    by (simp add: clickhouse_adapter_def ch_delete_owner_hostname_def ch_exec_one_def ch_delete_statement_def)
qed

text \<open>A lookup by an id that is not cached answers from the rows that have it, of which there is at most one.\<close>

lemma uncached_lookup:
  assumes "ch_owner_table D a row tbl" and "map_of m i = None"
    and "filter (\<lambda>(u, h, i', t). i' = i) (tbl w) = (case r of None \<Rightarrow> [] | Some (u, h, t) \<Rightarrow> [(u, h, i, t)])"
  shows "\<exists>st. caching_get_subscription (ch_get_subscription D) now i h' (Some m, (a, w)) = Value
    ((case r of None \<Rightarrow> not_found_lookup
      | Some (u, h, t) \<Rightarrow> if t < now then expired_lookup else if h' \<noteq> h then not_found_lookup else found_lookup, None), st)"
proof -
  from assms(1) obtain w' where q: "ch_query D (ch_subscription_query a) [SqlText i] w =
        (Inr (map (\<lambda>(u, h, i, t). row (i, t, h)) (filter (\<lambda>(u, h, i', t). i' = i) (tbl w)), None), w')"
    unfolding ch_owner_table_def by blast
  obtain c where c: "ch_conn a = Some c" using assms(1) unfolding ch_owner_table_def by blast
  have scan: "ch_scan_sub D (row x) = Inr x" for x using assms(1) unfolding ch_owner_table_def by blast
  show ?thesis
  proof (cases r)
    case None
    then show ?thesis using q c assms(2,3)
      by (auto simp: caching_get_subscription_def cache_get_def ch_get_subscription_def)
  next
    case (Some x)
    then show ?thesis using q c assms(2,3)
      by (cases x) (auto simp: caching_get_subscription_def cache_get_def ch_get_subscription_def scan sub_item_def
          make_lookup_result_def subscription_expired_def time_after_def)
  qed
qed

text \<open>Lookups of the id \<open>i\<close> through a cache that does not have it.\<close>

definition lookups :: "'w ch_driver \<Rightarrow> ch_adapter \<Rightarrow> (string \<times> subscription_with_hostname) list \<Rightarrow> 'w \<Rightarrow> string
    \<Rightarrow> (time \<Rightarrow> string \<Rightarrow> lookup) \<Rightarrow> bool" where
  "lookups D a m w i f \<longleftrightarrow> (\<forall>now h. \<exists>st. caching_get_subscription (ch_get_subscription D) now i h (Some m, (a, w))
     = Value ((f now h, None), st))"

section \<open>Registered, found, deleted\<close>


text \<open>A driver for the example: its state is the table.\<close>

definition ch_owner_driver :: "owner_row list ch_driver" where
  "ch_owner_driver = \<lparr>ch_unmarshal = ch_unmarshal ch_list_driver,
     ch_connect = (\<lambda>opts w. (None, w)), ch_ping = (\<lambda>opts w. (None, w)), ch_disconnect = (\<lambda>opts w. (None, w)),
     ch_exec = (\<lambda>q args w. case args of
         [SqlText u, SqlText h, SqlText i, SqlTime t] \<Rightarrow> (None, w @ [(u, h, i, t)])
       | [SqlText h, SqlText u] \<Rightarrow> (None, filter (\<lambda>(u', h', i, t). \<not> (h' = h \<and> u' = u)) w)
       | _ \<Rightarrow> (Some ''arguments'', w)),
     ch_async_insert = (\<lambda>q b w. (None, w)),
     ch_query = (\<lambda>q args w. case args of
         [SqlText i] \<Rightarrow> (Inr (map (\<lambda>(u, h, i, t). ch_owner_row (i, t, h)) (filter (\<lambda>(u, h, i', t). i' = i) w), None), w)
       | _ \<Rightarrow> (Inr (map (\<lambda>(u, h, i, t). ch_owner_row (i, t, h)) w, None), w)),
     ch_scan_value = (\<lambda>r. Inr ''1''),
     ch_scan_sub = ch_scan_sub ch_list_driver, ch_scan_event = (\<lambda>r. Inr [])\<rparr>"


end
