(* ===== verification/Migration.thy ===== *)
theory Migration
  imports Go_Os
begin

text \<open>
  The migrations of a ClickHouse database (\<open>dao/migration_dao.go\<close>): the embedded SQL templates are copied to
  a temporary directory, their table prefix is filled in, and a third-party migrator runs them. The
  calls of the migrator are the argument \<open>M\<close>; the program itself constructs no \<open>MigrationDAO\<close>.
\<close>

section \<open>Files\<close>

text \<open>\<open>os.Create\<close> empties or makes a file, \<open>os.WriteFile\<close> fills it; \<open>os.MkdirTemp\<close> makes the directory \<open>temp\<close>, a name that is free.\<close>

definition os_create :: "os \<Rightarrow> string \<Rightarrow> os_err option \<times> os" where
  "os_create s p =
     (let k = path_key p
      in case io_fault s CallOpen k of
           Some e \<Rightarrow> (Some (OsError e), s)
         | None \<Rightarrow>
             if below_file s k then (Some (OsError ''not a directory''), s)
             else (case os_node s k of
                     Some Dir \<Rightarrow> (Some (OsError ''is a directory''), s)
                   | Some (File t) \<Rightarrow> (None, put_node k (File []) s)
                   | None \<Rightarrow> if os_node s (butlast k) = Some Dir then (None, put_node k (File []) s)
                            else (Some NotExist, s)))"

definition os_write_file :: "os \<Rightarrow> string \<Rightarrow> string \<Rightarrow> os_err option \<times> os" where
  "os_write_file s p text =
     (case os_create s p of (Some err, s) \<Rightarrow> (Some err, s) | (None, s) \<Rightarrow> os_write s p text)"

definition os_mkdir_temp :: "string \<Rightarrow> os \<Rightarrow> os_err option \<times> os" where
  "os_mkdir_temp temp s =
     (case io_fault s CallMkdir (path_key temp) of
        Some e \<Rightarrow> (Some (OsError e), s)
      | None \<Rightarrow> (None, put_node (path_key temp) Dir s))"

text \<open>An open file of the embedded tree: whether its \<open>Stat\<close> says that it is regular, and what is left to read.\<close>

record src_file =
  sf_stat :: "go_error + bool"
  sf_data :: string

datatype embedded = EmbDir | EmbFile src_file

text \<open>An error that \<open>fmt.Errorf\<close> wraps: the constant text of the format, and the error below it.\<close>

datatype migrate_err = OsErr os_err | OtherErr go_error | Wrap string migrate_err

section \<open>dao/migration\_dao.go\<close>

record migration_dao =
  migrateDatabaseURL :: string
  md_prefix :: string

definition buffer_size :: nat where "buffer_size = 1024"
definition table_prefix_placeholder :: string where "table_prefix_placeholder = ''{prefix}''"

text \<open>Each round reads at most a buffer; reading nothing ends the loop.\<close>

function copy_loop :: "nat \<Rightarrow> string \<Rightarrow> string \<Rightarrow> os \<Rightarrow> os_err option \<times> os" where
  "copy_loop buflen src dst s =
     (let buf = take buflen src in
      if buf = [] then (None, s)
      else case os_write s dst buf of
        (Some err, s) \<Rightarrow> (Some err, s)
      | (None, s) \<Rightarrow> copy_loop buflen (drop buflen src) dst s)"
  by pat_completeness auto
termination
  by (relation "measure (\<lambda>(n, src, d, s). length src)") auto

declare copy_loop.simps [simp del]

definition copy_file :: "src_file \<Rightarrow> string \<Rightarrow> os \<Rightarrow> migrate_err option \<times> os" where
  "copy_file src dst s =
     (case sf_stat src of
        Inl err \<Rightarrow> (Some (OtherErr err), s)
      | Inr regular \<Rightarrow>
          if \<not> regular then (Some (OtherErr ''is not a regular file''), s)
          else case os_create s dst of
            (Some err, s) \<Rightarrow> (Some (OsErr err), s)
          | (None, s) \<Rightarrow>
              (case copy_loop buffer_size (sf_data src) dst s of
                 (Some err, s) \<Rightarrow> (Some (OsErr err), s)
               | (None, s) \<Rightarrow> (None, s)))"

definition replace_text_in_file :: "string \<Rightarrow> string \<Rightarrow> string \<Rightarrow> os \<Rightarrow> migrate_err option \<times> os" where
  "replace_text_in_file name find' replace s =
     (case os_stat s name of
        Inl err \<Rightarrow> (Some (Wrap ''cannot read file stat file'' (OsErr err)), s)
      | Inr stat \<Rightarrow>
          (case os_read_all s name of
             Inl err \<Rightarrow> (Some (Wrap ''cannot read source migration file'' (OsErr err)), s)
           | Inr input \<Rightarrow>
               let output = replace_all find' replace input in
               (case os_write_file s name output of
                  (Some err, s) \<Rightarrow> (Some (Wrap ''cannot write replaced migration file'' (OsErr err)), s)
                | (None, s) \<Rightarrow> (None, s))))"

definition process_migration_file :: "migration_dao \<Rightarrow> src_file \<Rightarrow> string \<Rightarrow> string \<Rightarrow> os \<Rightarrow> migrate_err option \<times> os" where
  "process_migration_file p srcFile tempDir filename s =
     (let dstFile = path_join [tempDir, filename] in
      case copy_file srcFile dstFile s of
        (Some err, s) \<Rightarrow> (Some (Wrap ''cannot copy file'' err), s)
      | (None, s) \<Rightarrow>
          (case replace_text_in_file dstFile table_prefix_placeholder (md_prefix p) s of
             (Some err, s) \<Rightarrow> (Some (Wrap ''cannot replace table prefix in migration file'' err), s)
           | (None, s) \<Rightarrow> (None, s)))"

text \<open>\<open>WalkDir\<close> visits the embedded tree in the order of the names; the first error ends it.\<close>

fun copy_migrations :: "migration_dao \<Rightarrow> string \<Rightarrow> (string \<times> embedded) list \<Rightarrow> os \<Rightarrow> migrate_err option \<times> os" where
  "copy_migrations p tempDir [] s = (None, s)"
| "copy_migrations p tempDir ((path, EmbDir) # es) s = copy_migrations p tempDir es s"
| "copy_migrations p tempDir ((path, EmbFile f) # es) s =
     (case process_migration_file p f tempDir path s of
        (Some err, s) \<Rightarrow> (Some err, s)
      | (None, s) \<Rightarrow> copy_migrations p tempDir es s)"

text \<open>The migrator works on a database of state \<open>'w\<close>; \<open>Migrate\<close> answers whether its group is empty.\<close>

record 'w migrator =
  mg_discover :: "os \<Rightarrow> string \<Rightarrow> go_error option"
  mg_init :: "string \<Rightarrow> string \<Rightarrow> 'w \<Rightarrow> go_error option \<times> 'w"
  mg_lock :: "'w \<Rightarrow> go_error option \<times> 'w"
  mg_unlock :: "'w \<Rightarrow> go_error option \<times> 'w"
  mg_migrate :: "'w \<Rightarrow> (go_error + bool) \<times> 'w"

definition migrate_up :: "'w migrator \<Rightarrow> migration_dao \<Rightarrow> string \<Rightarrow> os \<Rightarrow> 'w \<Rightarrow> migrate_err option \<times> 'w" where
  "migrate_up M p sourcePath s w =
     (case mg_discover M s sourcePath of
        Some err \<Rightarrow> (Some (Wrap ''cannot discover migrations path'' (OtherErr err)), w)
      | None \<Rightarrow>
          (case mg_init M (md_prefix p @ ''ch_migrations'') (md_prefix p @ ''ch_migration_locks'') w of
             (Some err, w) \<Rightarrow> (Some (OtherErr err), w)
           | (None, w) \<Rightarrow>
               (case mg_lock M w of
                  (Some err, w) \<Rightarrow> (Some (OtherErr err), w)
                | (None, w) \<Rightarrow>
                    (case mg_migrate M w of
                       (Inl err, w) \<Rightarrow> (Some (OtherErr err), snd (mg_unlock M w))
                     | (Inr isZero, w) \<Rightarrow> (None, snd (mg_unlock M w))))))"

definition migrate :: "'w migrator \<Rightarrow> migration_dao \<Rightarrow> string \<Rightarrow> (string \<times> embedded) list \<Rightarrow> os \<Rightarrow> 'w
    \<Rightarrow> migrate_err option \<times> os \<times> 'w" where
  "migrate M p temp embeds s w =
     (case os_mkdir_temp temp s of
        (Some err, s) \<Rightarrow> (Some (Wrap ''cannot create temp directory migrations'' (OsErr err)), s, w)
      | (None, s) \<Rightarrow>
          (case copy_migrations p temp embeds s of
             (Some err, s) \<Rightarrow> (Some (Wrap ''cannot copy migrations'' err), snd (os_remove_all s temp), w)
           | (None, s) \<Rightarrow>
               let (err, w) = migrate_up M p temp s w in (err, snd (os_remove_all s temp), w)))"

lemmas migration_defs [go_defs] = os_create_def os_write_file_def os_mkdir_temp_def buffer_size_def
  table_prefix_placeholder_def copy_file_def replace_text_in_file_def process_migration_file_def
  migrate_up_def migrate_def

section \<open>Copying\<close>

lemma os_create_ok:
  assumes "no_faults s" "tree_wf s" and "os_node s (butlast (path_key p)) = Some Dir"
    and "os_node s (path_key p) \<noteq> Some Dir"
  shows "os_create s p = (None, put_node (path_key p) (File []) s)"
  using assms not_below_file_in_dir [of s "path_key p"]
  by (auto simp: os_create_def Let_def split: option.split node.split)

text \<open>The loop appends what is left to read, buffer by buffer, whatever its size.\<close>

lemma file_put_wf:
  assumes "tree_wf s" and "os_node s k = Some (File t)"
  shows "tree_wf (put_node k (File t') s)" and "\<not> root_key k"
proof -
  show nr: "\<not> root_key k" using assms(2) by (auto simp: os_node_def split: if_splits)
  show "tree_wf (put_node k (File t') s)"
    using tree_wf_put [OF assms(1) nr] tree_wf_node [OF assms(1)] assms(2) by auto
qed

lemma copy_loop_ok:
  assumes "0 < buflen" and "no_faults s" and "tree_wf s" and "os_node s (path_key dst) = Some (File t)"
  shows "\<exists>s'. copy_loop buflen src dst s = (None, s') \<and> no_faults s' \<and> tree_wf s'
    \<and> os_node s' = (os_node s)(path_key dst \<mapsto> File (t @ src))"
  using assms
proof (induction buflen src dst s arbitrary: t rule: copy_loop.induct)
  case (1 buflen src dst s)
  show ?case
  proof (cases "take buflen src = []")
    case True
    with 1(2) have "src = []" by auto
    with 1(3-5) show ?thesis by (auto simp: copy_loop.simps fun_eq_iff)
  next
    case False
    let ?s1 = "put_node (path_key dst) (File (t @ take buflen src)) s"
    have w: "os_write s dst (take buflen src) = (None, ?s1)" by (rule os_write_ok [OF 1(3,5)])
    have n1: "no_faults ?s1" using 1(3) by (simp add: no_faults_def)
    note wf1 = file_put_wf(1) [OF 1(4,5), of "t @ take buflen src"] and nr = file_put_wf(2) [OF 1(4,5)]
    have f1: "os_node ?s1 (path_key dst) = Some (File (t @ take buflen src))" using nr by (simp add: fs_simps)
    obtain s' where s': "copy_loop buflen (drop buflen src) dst ?s1 = (None, s')" "no_faults s'" "tree_wf s'"
      "os_node s' = (os_node ?s1)(path_key dst \<mapsto> File ((t @ take buflen src) @ drop buflen src))"
      using 1(1) [OF refl False w [symmetric] refl 1(2) n1 wf1 f1] by blast
    have "copy_loop buflen src dst s = (None, s')"
      using False w s'(1) by (subst copy_loop.simps) (simp add: Let_def)
    with s'(2-4) nr show ?thesis by (auto simp: fs_simps fun_eq_iff)
  qed
qed

section \<open>The templates, filled in\<close>

definition filled :: "migration_dao \<Rightarrow> src_file \<Rightarrow> node" where
  "filled p f = File (replace_all table_prefix_placeholder (md_prefix p) (sf_data f))"

lemma path_key_temp_file:
  assumes "plain_name n"
  shows "path_key (path_join [temp, n]) = path_key temp @ [n]"
  using path_join_file(1) [of "[]" n "[]" temp] assms by simp

lemma plain_not_root: "plain_name n \<Longrightarrow> \<not> root_key (k @ [n])"
  by (auto simp: root_key_def plain_name_def append_eq_Cons_conv)

text \<open>Writing a file whose directory exists leaves exactly the new text.\<close>

lemma os_create_step:
  assumes nf: "no_faults s" and wf: "tree_wf s" and dir: "os_node s (butlast (path_key d)) = Some Dir"
    and new: "os_node s (path_key d) \<noteq> Some Dir"
  shows "\<exists>s'. os_create s d = (None, s') \<and> no_faults s' \<and> tree_wf s' \<and> os_node s' = (os_node s)(path_key d \<mapsto> File [])"
proof -
  have nr: "\<not> root_key (path_key d)" using new by auto
  have "no_faults (put_node (path_key d) (File []) s)" "tree_wf (put_node (path_key d) (File []) s)"
    "os_node (put_node (path_key d) (File []) s) = (os_node s)(path_key d \<mapsto> File [])"
    using nf nr tree_wf_put [OF wf nr dir] new by (auto simp: no_faults_def fs_simps fun_eq_iff)
  with os_create_ok [OF assms] show ?thesis by blast
qed

lemma os_write_file_step:
  assumes nf: "no_faults s" and wf: "tree_wf s" and dir: "os_node s (butlast (path_key d)) = Some Dir"
    and new: "os_node s (path_key d) \<noteq> Some Dir"
  shows "\<exists>s'. os_write_file s d t = (None, s') \<and> no_faults s' \<and> tree_wf s' \<and> os_node s' = (os_node s)(path_key d \<mapsto> File t)"
proof -
  obtain s1 where s1: "os_create s d = (None, s1)" "no_faults s1" "tree_wf s1"
    "os_node s1 = (os_node s)(path_key d \<mapsto> File [])"
    using os_create_step [OF assms] by blast
  then have f: "os_node s1 (path_key d) = Some (File [])" by simp
  have "no_faults (put_node (path_key d) (File t) s1)" using s1(2) by (simp add: no_faults_def)
  moreover have "os_node (put_node (path_key d) (File t) s1) = (os_node s)(path_key d \<mapsto> File t)"
    using s1(4) file_put_wf(2) [OF s1(3) f] by (auto simp: fs_simps fun_eq_iff)
  moreover have "os_write_file s d t = (None, put_node (path_key d) (File t) s1)"
    using s1(1) os_write_ok [OF s1(2) f, of t] by (simp add: os_write_file_def)
  ultimately show ?thesis using file_put_wf(1) [OF s1(3) f] by blast
qed

lemma process_migration_file_ok:
  assumes nf: "no_faults s" and wf: "tree_wf s" and dir: "os_node s (path_key temp) = Some Dir"
    and n: "plain_name n" and new: "os_node s (path_key temp @ [n]) \<noteq> Some Dir" and reg: "sf_stat f = Inr True"
  shows "\<exists>s'. process_migration_file p f temp n s = (None, s') \<and> no_faults s' \<and> tree_wf s'
    \<and> os_node s' = (os_node s)(path_key temp @ [n] \<mapsto> filled p f)"
proof -
  let ?d = "path_join [temp, n]" and ?k = "path_key temp @ [n]"
  note key = path_key_temp_file [OF n, of temp]
  obtain s1 where s1: "os_create s ?d = (None, s1)" "no_faults s1" "tree_wf s1" "os_node s1 = (os_node s)(?k \<mapsto> File [])"
    using os_create_step [OF nf wf, of ?d] dir new by (auto simp: key)
  obtain s2 where s2: "copy_loop buffer_size (sf_data f) ?d s1 = (None, s2)" "no_faults s2" "tree_wf s2"
    "os_node s2 = (os_node s1)(?k \<mapsto> File ([] @ sf_data f))"
    using copy_loop_ok [of buffer_size s1 ?d "[]" "sf_data f"] s1 by (auto simp: key buffer_size_def)
  have f2: "os_node s2 (path_key ?d) = Some (File (sf_data f))" using s2(4) by (simp add: key)
  have d2: "os_node s2 (butlast (path_key ?d)) = Some Dir" using s2(4) s1(4) dir by (simp add: key)
  obtain s3 where s3: "os_write_file s2 ?d (replace_all table_prefix_placeholder (md_prefix p) (sf_data f)) = (None, s3)"
    "no_faults s3" "tree_wf s3" "os_node s3 = (os_node s2)(?k \<mapsto> filled p f)"
    using os_write_file_step [OF s2(2,3) d2] f2 by (auto simp: key filled_def)
  have "os_stat s2 ?d = Inr (File (sf_data f))" "os_read_all s2 ?d = Inr (sf_data f)"
    using os_stat_ok [OF s2(2,3), of ?d] os_read_all_ok [OF s2(2,3) f2] f2 by simp_all
  with s1(1) s2(1) s3(1) reg have "process_migration_file p f temp n s = (None, s3)"
    by (simp add: process_migration_file_def copy_file_def replace_text_in_file_def)
  moreover have "os_node s3 = (os_node s)(?k \<mapsto> filled p f)" using s1(4) s2(4) s3(4) by simp
  ultimately show ?thesis using s3(2,3) by blast
qed

text \<open>The files of an embedded tree without subdirectories: plain names, regular files.\<close>

definition flat :: "(string \<times> embedded) list \<Rightarrow> bool" where
  "flat es = (distinct (map fst es) \<and>
     list_all (\<lambda>(n, e). case e of EmbDir \<Rightarrow> True | EmbFile f \<Rightarrow> plain_name n \<and> sf_stat f = Inr True) es)"

definition with_templates :: "migration_dao \<Rightarrow> string list \<Rightarrow> (string \<times> embedded) list \<Rightarrow> (string list \<Rightarrow> node option)
    \<Rightarrow> string list \<Rightarrow> node option" where
  "with_templates p d es t k =
     (if k \<noteq> [] \<and> butlast k = d then (case map_of es (last k) of Some (EmbFile f) \<Rightarrow> Some (filled p f) | _ \<Rightarrow> t k) else t k)"

lemma copy_migrations_ok:
  assumes "no_faults s" "tree_wf s" "os_node s (path_key temp) = Some Dir" and "flat es"
    and "\<forall>n. os_node s (path_key temp @ [n]) \<noteq> Some Dir"
  shows "\<exists>s'. copy_migrations p temp es s = (None, s') \<and> no_faults s' \<and> tree_wf s'
    \<and> os_node s' = with_templates p (path_key temp) es (os_node s)"
  using assms
proof (induction p temp es s rule: copy_migrations.induct)
  case (1 p temp s)
  then show ?case by (simp add: with_templates_def fun_eq_iff)
next
  case (2 p temp path es s)
  from 2(5) have "path \<notin> fst ` set es" "flat es" by (auto simp: flat_def)
  then have "map_of es path = None" by (simp add: map_of_eq_None_iff)
  then have "with_templates p (path_key temp) ((path, EmbDir) # es) t = with_templates p (path_key temp) es t" for t
    by (auto simp: with_templates_def fun_eq_iff)
  with 2(1) [OF 2(2-4) \<open>flat es\<close> 2(6)] show ?case by simp
next
  case (3 p temp path f es s)
  from 3(5) have n: "plain_name path" "sf_stat f = Inr True" "path \<notin> fst ` set es" "flat es" by (auto simp: flat_def)
  obtain s1 where s1: "process_migration_file p f temp path s = (None, s1)" "no_faults s1" "tree_wf s1"
    "os_node s1 = (os_node s)(path_key temp @ [path] \<mapsto> filled p f)"
    using process_migration_file_ok [OF 3(2-4) n(1) _ n(2)] 3(6) by blast
  have "os_node s1 (path_key temp) = Some Dir" "\<forall>n. os_node s1 (path_key temp @ [n]) \<noteq> Some Dir"
    using s1(4) 3(4,6) by (simp_all add: filled_def)
  then obtain s' where s': "copy_migrations p temp es s1 = (None, s')" "no_faults s'" "tree_wf s'"
    "os_node s' = with_templates p (path_key temp) es (os_node s1)"
    using 3(1) [OF s1(1) [symmetric] refl s1(2,3)] n(4) by blast
  have snoc: "k = path_key temp @ [path] \<longleftrightarrow> k \<noteq> [] \<and> butlast k = path_key temp \<and> last k = path" for k
    by (metis append_butlast_last_id last_snoc butlast_snoc snoc_eq_iff_butlast)
  have "map_of es path = None" using n(3) by (simp add: map_of_eq_None_iff)
  then have "os_node s' = with_templates p (path_key temp) ((path, EmbFile f) # es) (os_node s)"
    unfolding s'(4) s1(4)
    by (auto simp: with_templates_def fun_eq_iff snoc split: option.splits embedded.splits)
  with s1(1) s' show ?case by simp
qed

lemma below_self: "below d d" "below d (d @ ks)"
  by (simp_all add: below_def)

text \<open>
  C26: Without refused calls the migrator is given a directory with exactly the embedded templates, the prefix in
  place of every placeholder; afterwards the files are what they were.
\<close>

theorem migrate_gives_templates:
  assumes nf: "no_faults s" and wf: "tree_wf s" and parent: "os_node s (butlast (path_key temp)) = Some Dir"
    and free: "\<And>k. below (path_key temp) k \<Longrightarrow> os_node s k = None" and es: "flat es"
  shows "\<exists>s1 s'. migrate M p temp es s w = (fst (migrate_up M p temp s1 w), s', snd (migrate_up M p temp s1 w))
    \<and> os_node s1 = with_templates p (path_key temp) es ((os_node s)(path_key temp \<mapsto> Dir)) \<and> os_node s' = os_node s"
proof -
  let ?k = "path_key temp" and ?s0 = "put_node (path_key temp) Dir s"
  have nr: "\<not> root_key ?k" using free [OF below_self(1)] by auto
  have s0: "no_faults ?s0" "tree_wf ?s0" "os_node ?s0 = (os_node s)(?k \<mapsto> Dir)"
    using nf nr tree_wf_put [OF wf nr parent, of Dir] by (auto simp: no_faults_def fs_simps fun_eq_iff)
  have "os_node ?s0 (?k @ [n]) \<noteq> Some Dir" for n using free [OF below_self(2), of "[n]"] by (simp add: s0(3))
  then obtain s1 where s1: "copy_migrations p temp es ?s0 = (None, s1)" "no_faults s1" "tree_wf s1"
    "os_node s1 = with_templates p ?k es (os_node ?s0)"
    using copy_migrations_ok [OF s0(1,2) _ es, of temp p] s0(3) by auto
  have "os_node (drop_nodes (below ?k) s1) = os_node s"
  proof
    fix k
    have "below ?k k" if "k \<noteq> []" "butlast k = ?k"
      using that append_butlast_last_id [of k] below_self(2) [of ?k "[last k]"] by metis
    then show "os_node (drop_nodes (below ?k) s1) k = os_node s k"
      using free [of k] below_self(1) [of ?k]
      by (cases "root_key k") (auto simp: os_node_drop s1(4) s0(3) with_templates_def)
  qed
  moreover have "migrate M p temp es s w = (fst (migrate_up M p temp s1 w), drop_nodes (below ?k) s1, snd (migrate_up M p temp s1 w))"
    using nf s1(1) os_remove_all_ok [OF s1(2), of temp] by (simp add: migrate_def os_mkdir_temp_def case_prod_unfold Let_def)
  ultimately show ?thesis using s1(4) s0(3) by auto
qed

section \<open>Cleaning up\<close>

text \<open>A call that changes nothing but what lies below \<open>d\<close>.\<close>

definition stays_below :: "string list \<Rightarrow> os \<Rightarrow> os \<Rightarrow> bool" where
  "stays_below d s s' \<longleftrightarrow> io_fault s' = io_fault s \<and> (\<forall>k. \<not> below d k \<longrightarrow> os_node s' k = os_node s k)"

lemma stays_below_refl [simp]: "stays_below d s s"
  by (simp add: stays_below_def)

lemma stays_below_trans: "stays_below d s s' \<Longrightarrow> stays_below d s' s'' \<Longrightarrow> stays_below d s s''"
  by (simp add: stays_below_def)

lemma stays_below_put: "below d k \<Longrightarrow> stays_below d s (put_node k n s)"
  by (auto simp: stays_below_def os_node_def put_node_def)

lemma os_create_below: "below d (path_key p) \<Longrightarrow> stays_below d s (snd (os_create s p))"
  by (auto simp: os_create_def Let_def intro: stays_below_put split: option.split node.split)

lemma os_write_below: "below d (path_key p) \<Longrightarrow> stays_below d s (snd (os_write s p t))"
  by (auto simp: os_write_def Let_def intro: stays_below_put split: option.split node.split)

lemma os_write_file_below: "below d (path_key p) \<Longrightarrow> stays_below d s (snd (os_write_file s p t))"
  using os_create_below [of d p s] os_write_below [of d p _ t]
  by (auto simp: os_write_file_def intro: stays_below_trans split: option.split prod.split)

lemma copy_loop_below: "below d (path_key dst) \<Longrightarrow> stays_below d s (snd (copy_loop buflen src dst s))"
proof (induction buflen src dst s rule: copy_loop.induct)
  case (1 buflen src dst s)
  show ?case
  proof (cases "take buflen src = []")
    case True
    then show ?thesis by (subst copy_loop.simps) (simp add: Let_def)
  next
    case False
    obtain r s1 where w: "os_write s dst (take buflen src) = (r, s1)" by fastforce
    have s1: "stays_below d s s1" using os_write_below [OF 1(2), of s "take buflen src"] w by simp
    show ?thesis
    proof (cases r)
      case None
      from 1(1) [OF refl False w [symmetric] None 1(2)] s1 False w None show ?thesis
        by (subst copy_loop.simps) (auto simp: Let_def intro: stays_below_trans)
    next
      case (Some err)
      with False w s1 show ?thesis by (subst copy_loop.simps) (simp add: Let_def)
    qed
  qed
qed

lemma process_migration_file_below:
  assumes "plain_name n"
  shows "stays_below (path_key temp) s (snd (process_migration_file p f temp n s))"
proof -
  let ?d = "path_join [temp, n]"
  have b: "below (path_key temp) (path_key ?d)" using path_key_temp_file [OF assms] below_self by simp
  have loop: "copy_loop buffer_size (sf_data f) ?d s1 = (r, s2) \<Longrightarrow> stays_below (path_key temp) s1 s2" for s1 s2 r
    using copy_loop_below [OF b, of s1 buffer_size "sf_data f"] by simp
  have create: "os_create s1 ?d = (r, s2) \<Longrightarrow> stays_below (path_key temp) s1 s2" for s1 s2 r
    using os_create_below [OF b, of s1] by simp
  have copy: "copy_file f ?d s1 = (r, s2) \<Longrightarrow> stays_below (path_key temp) s1 s2" for s1 s2 r
    by (auto simp: copy_file_def dest!: create loop intro: stays_below_trans split: sum.splits if_splits option.splits prod.splits)
  have wr: "os_write_file s1 ?d t = (r, s2) \<Longrightarrow> stays_below (path_key temp) s1 s2" for s1 s2 t r
    using os_write_file_below [OF b, of s1 t] by simp
  have replace: "replace_text_in_file ?d a t s1 = (r, s2) \<Longrightarrow> stays_below (path_key temp) s1 s2" for a t s1 s2 r
    by (auto simp: replace_text_in_file_def Let_def dest!: wr split: sum.splits option.splits prod.splits)
  show ?thesis
    by (auto simp: process_migration_file_def Let_def dest!: copy replace intro: stays_below_trans split: option.split prod.split)
qed

definition plain_files :: "(string \<times> embedded) list \<Rightarrow> bool" where
  "plain_files es = list_all (\<lambda>(n, e). case e of EmbDir \<Rightarrow> True | EmbFile f \<Rightarrow> plain_name n) es"

lemma copy_migrations_below:
  assumes "plain_files es"
  shows "stays_below (path_key temp) s (snd (copy_migrations p temp es s))"
  using assms
proof (induction p temp es s rule: copy_migrations.induct)
  case (3 p temp path f es s)
  then have n: "plain_name path" "plain_files es" by (simp_all add: plain_files_def)
  obtain r s1 where r: "process_migration_file p f temp path s = (r, s1)" by fastforce
  then have s1: "stays_below (path_key temp) s s1" using process_migration_file_below [OF n(1), of temp s p f] by simp
  show ?case
  proof (cases r)
    case None
    from 3(1) [OF r [symmetric] None n(2)] s1 r None show ?thesis by (auto intro: stays_below_trans)
  qed (use r s1 in simp)
qed (simp_all add: plain_files_def)

text \<open>
  C27: Whatever call is refused on the way, as long as the temporary directory can be removed nothing of the
  migration is left behind and no other file has changed, whether it succeeds or not.
\<close>

theorem migrate_leaves_nothing:
  assumes free: "\<And>k. below (path_key temp) k \<Longrightarrow> os_node s k = None"
    and es: "plain_files es" and rm: "io_fault s CallRemoveAll (path_key temp) = None"
  shows "os_node (fst (snd (migrate M p temp es s w))) = os_node s"
proof -
  let ?k = "path_key temp"
  have clean: "os_node (snd (os_remove_all s' temp)) = os_node s" if "stays_below ?k s s'" for s'
  proof
    fix k
    from that rm have "snd (os_remove_all s' temp) = drop_nodes (below ?k) s'" by (simp add: os_remove_all_def stays_below_def)
    then show "os_node (snd (os_remove_all s' temp)) k = os_node s k"
      using that free [of k] by (cases "root_key k") (auto simp: os_node_drop stays_below_def)
  qed
  have made: "stays_below ?k s (put_node ?k Dir s)" by (rule stays_below_put) (simp add: below_self)
  have copied: "stays_below ?k s s'" if "copy_migrations p temp es (put_node ?k Dir s) = (r, s')" for r s'
    using copy_migrations_below [OF es, of temp "put_node ?k Dir s" p] stays_below_trans [OF made] that by (metis snd_conv)
  show ?thesis
    by (auto simp: migrate_def os_mkdir_temp_def Let_def clean dest!: copied split: option.split prod.split)
qed

section \<open>The lock\<close>

text \<open>
  What is relied on of the migrator: only a lock that succeeds takes it, and unlocking succeeds and releases it.
\<close>

definition lock_laws :: "'w migrator \<Rightarrow> ('w \<Rightarrow> bool) \<Rightarrow> bool" where
  "lock_laws M locked \<longleftrightarrow>
     (\<forall>t l w. locked (snd (mg_init M t l w)) = locked w) \<and>
     (\<forall>w. fst (mg_lock M w) \<noteq> None \<longrightarrow> locked (snd (mg_lock M w)) = locked w) \<and>
     (\<forall>w. fst (mg_unlock M w) = None \<and> \<not> locked (snd (mg_unlock M w)))"

text \<open>Whichever step fails, a migration that found the lock free leaves it free.\<close>

theorem migrate_unlocks:
  assumes "lock_laws M locked" and "\<not> locked w"
  shows "\<not> locked (snd (snd (migrate M p temp es s w)))"
proof -
  have "\<not> locked (snd (migrate_up M p temp s1 w))" for s1
    using assms unfolding lock_laws_def migrate_up_def
    by (auto split: option.split prod.split sum.split) (metis fst_conv snd_conv option.distinct(1))+
  then show ?thesis using assms(2) by (simp add: migrate_def Let_def case_prod_unfold split: option.split)
qed

section \<open>An example\<close>

definition sample_tmp :: os where
  "sample_tmp = \<lparr>tree = [([[], ''tmp''], Dir)], io_fault = (\<lambda>call k. None)\<rparr>"

definition sample_embeds :: "(string \<times> embedded) list" where
  "sample_embeds = [(''.'', EmbDir), (''a.sql'', EmbFile \<lparr>sf_stat = Inr True, sf_data = ''DROP {prefix}t''\<rparr>)]"

definition failing_migrator :: "bool migrator" where
  "failing_migrator = \<lparr>mg_discover = (\<lambda>s p. None), mg_init = (\<lambda>t l w. (None, w)),
     mg_lock = (\<lambda>w. if w then (Some ''locked'', w) else (None, True)), mg_unlock = (\<lambda>w. (None, False)),
     mg_migrate = (\<lambda>w. (Inl ''failed'', w))\<rparr>"

lemma sample_migration:
  "path_key ''/tmp/m'' = [[], ''tmp'', ''m'']" "tree_wf sample_tmp" "no_faults sample_tmp" "flat sample_embeds" "plain_files sample_embeds"
  "below [[], ''tmp'', ''m''] k \<Longrightarrow> os_node sample_tmp k = None"
proof -
  show "path_key ''/tmp/m'' = [[], ''tmp'', ''m'']" by code_simp
  show "tree_wf sample_tmp" unfolding sample_tmp_def by code_simp
  show "no_faults sample_tmp" by (simp add: no_faults_def sample_tmp_def)
  show "flat sample_embeds" "plain_files sample_embeds" by code_simp+
  assume "below [[], ''tmp'', ''m''] k"
  then have "2 < length k" by (auto simp: below_def dest: arg_cong [where f = length])
  then show "os_node sample_tmp k = None" by (auto simp: os_node_def root_key_def sample_tmp_def)
qed

lemma migrate_gives_templates_witness:
  "\<exists>s1 s'. migrate failing_migrator \<lparr>migrateDatabaseURL = [], md_prefix = ''p_''\<rparr> ''/tmp/m'' sample_embeds sample_tmp False =
      (fst (migrate_up failing_migrator \<lparr>migrateDatabaseURL = [], md_prefix = ''p_''\<rparr> ''/tmp/m'' s1 False), s', False)
    \<and> os_node s1 [[], ''tmp'', ''m'', ''a.sql''] = Some (File ''DROP p_t'')"
proof -
  let ?p = "\<lparr>migrateDatabaseURL = [], md_prefix = ''p_''\<rparr>"
  have parent: "os_node sample_tmp (butlast (path_key ''/tmp/m'')) = Some Dir"
    by (simp add: sample_migration(1)) (simp add: sample_tmp_def os_node_def root_key_def)
  obtain s1 s' where m: "migrate failing_migrator ?p ''/tmp/m'' sample_embeds sample_tmp False =
      (fst (migrate_up failing_migrator ?p ''/tmp/m'' s1 False), s', snd (migrate_up failing_migrator ?p ''/tmp/m'' s1 False))"
    "os_node s1 = with_templates ?p (path_key ''/tmp/m'') sample_embeds ((os_node sample_tmp)(path_key ''/tmp/m'' \<mapsto> Dir))"
    using migrate_gives_templates [OF sample_migration(3,2) parent, of sample_embeds failing_migrator ?p False]
      sample_migration(1,4,6) by auto
  have "filled ?p \<lparr>sf_stat = Inr True, sf_data = ''DROP {prefix}t''\<rparr> = File ''DROP p_t''" by code_simp
  then have "os_node s1 [[], ''tmp'', ''m'', ''a.sql''] = Some (File ''DROP p_t'')"
    unfolding m(2) sample_migration(1) with_templates_def sample_embeds_def by simp
  moreover have "snd (migrate_up failing_migrator ?p ''/tmp/m'' s1 False) = False"
    by (simp add: migrate_up_def failing_migrator_def)
  ultimately show ?thesis using m(1) by auto
qed

lemma migrate_leaves_nothing_witness:
  "os_node (fst (snd (migrate failing_migrator \<lparr>migrateDatabaseURL = [], md_prefix = ''p_''\<rparr> ''/tmp/m'' sample_embeds sample_tmp False)))
    = os_node sample_tmp"
proof (rule migrate_leaves_nothing)
  show "below (path_key ''/tmp/m'') k \<Longrightarrow> os_node sample_tmp k = None" for k
    unfolding sample_migration(1) by (rule sample_migration(6))
  show "plain_files sample_embeds" by (rule sample_migration(5))
  show "io_fault sample_tmp CallRemoveAll (path_key ''/tmp/m'') = None" by (simp add: sample_tmp_def)
qed

lemma migrate_unlocks_witness:
  "\<not> snd (snd (migrate failing_migrator \<lparr>migrateDatabaseURL = [], md_prefix = ''p_''\<rparr> ''/tmp/m'' sample_embeds sample_tmp False))"
proof -
  have "lock_laws failing_migrator (\<lambda>w. w)" by (simp add: lock_laws_def failing_migrator_def)
  from migrate_unlocks [OF this, of False] show ?thesis by simp
qed

end
