(* ===== verification/Go_Form.thy ===== *)
theory Go_Form
  imports Go_Json
begin

text \<open>
  Forms on the wire: \<open>url.Values.Encode\<close> and \<open>url.ParseQuery\<close> of Go 1.21, which \<open>Request.ParseForm\<close> applies to
  a body of the type \<open>application/x-www-form-urlencoded\<close>. The message of an escape error leaves out the text
  it quotes.
\<close>

section \<open>Escapes\<close>

definition upper_hex :: "nat \<Rightarrow> char" where
  "upper_hex n = (if n < 10 then char_of (48 + n) else char_of (55 + n))"

definition query_plain :: "char \<Rightarrow> bool" where
  "query_plain c = (is_alnum c \<or> c \<in> set ''-_.~'')"

definition escape_byte :: "char \<Rightarrow> string" where
  "escape_byte c =
     (if query_plain c then [c]
      else if c = CHR '' '' then ''+''
      else [CHR ''%'', upper_hex (of_char c div 16), upper_hex (of_char c mod 16)])"

definition query_escape :: "string \<Rightarrow> string" where
  "query_escape s = concat (map escape_byte s)"

fun query_unescape :: "string \<Rightarrow> go_error + string" where
  "query_unescape [] = Inr []"
| "query_unescape (c # cs) =
     (if c = CHR ''%'' then
        (case cs of
           a # b # rest \<Rightarrow>
             if is_hex a \<and> is_hex b then
               (case query_unescape rest of
                  Inl err \<Rightarrow> Inl err
                | Inr t \<Rightarrow> Inr (char_of (unhex a * 16 + unhex b) # t))
             else Inl ''invalid URL escape''
         | _ \<Rightarrow> Inl ''invalid URL escape'')
      else (case query_unescape cs of
          Inl err \<Rightarrow> Inl err
        | Inr t \<Rightarrow> Inr ((if c = CHR ''+'' then CHR '' '' else c) # t)))"

section \<open>Encode and ParseQuery\<close>

definition encode_pairs :: "url_values \<Rightarrow> (string \<times> string) list" where
  "encode_pairs v = concat (map (\<lambda>k. map (Pair k) (values_lookup v k)) (sorted_keys v))"

definition encode_pair :: "string \<times> string \<Rightarrow> string" where
  "encode_pair p = query_escape (fst p) @ ''='' @ query_escape (snd p)"

definition values_encode :: "url_values \<Rightarrow> string" where
  "values_encode v = join_with ''&'' (map encode_pair (encode_pairs v))"

text \<open>One piece between ampersands. A semicolon is reported even after another error; else the first one is kept.\<close>

definition query_piece :: "go_error option \<times> url_values \<Rightarrow> string \<Rightarrow> go_error option \<times> url_values" where
  "query_piece st piece =
     (let (err, m) = st; keep = (\<lambda>e. (if err = None then Some e else err, m))
      in if CHR '';'' \<in> set piece then (Some ''invalid semicolon separator in query'', m)
         else if piece = [] then (err, m)
         else let (key, value) = str_cut CHR ''='' piece
              in case query_unescape key of
                   Inl e \<Rightarrow> keep e
                 | Inr key \<Rightarrow>
                     (case query_unescape value of
                        Inl e \<Rightarrow> keep e
                      | Inr value \<Rightarrow> (err, values_add m key value)))"

definition parse_query :: "string \<Rightarrow> go_error option \<times> url_values" where
  "parse_query q = foldl query_piece (None, []) (split_on CHR ''&'' q)"

lemmas form_defs [go_defs] = upper_hex_def query_plain_def escape_byte_def query_escape_def encode_pairs_def
  encode_pair_def values_encode_def query_piece_def parse_query_def

section \<open>An encoded form is parsed to itself\<close>

lemma upper_hex_digits: "n < 16 \<Longrightarrow> is_hex (upper_hex n) \<and> unhex (upper_hex n) = n"
proof -
  assume "n < 16"
  moreover from this have "(of_char (upper_hex n) :: nat) = (if n < 10 then 48 + n else 55 + n)" by (simp add: upper_hex_def)
  ultimately show ?thesis by (simp add: is_hex_def unhex_def is_digit_def)
qed

lemma upper_hex_alnum: "n < 16 \<Longrightarrow> is_alnum (upper_hex n)"
proof -
  assume "n < 16"
  moreover from this have "(of_char (upper_hex n) :: nat) = (if n < 10 then 48 + n else 55 + n)" by (simp add: upper_hex_def)
  ultimately show ?thesis by (simp add: is_alnum_def is_upper_def is_lower_def is_digit_def)
qed

lemma unescape_byte:
  "query_unescape (escape_byte c @ s) = (case query_unescape s of Inl err \<Rightarrow> Inl err | Inr t \<Rightarrow> Inr (c # t))"
proof -
  have lt: "(of_char c :: nat) div 16 < 16" "(of_char c :: nat) mod 16 < 16"
    using nat_of_char_less_256 [of c] by (simp_all add: less_mult_imp_div_less)
  have "(of_char c :: nat) div 16 * 16 + of_char c mod 16 = of_char c" by simp
  then have hex: "char_of (unhex (upper_hex (of_char c div 16)) * 16 + unhex (upper_hex (of_char c mod 16))) = c"
    using lt upper_hex_digits by (simp only: char_of_char)
  have plain: "c \<noteq> CHR ''%'' \<and> c \<noteq> CHR ''+''" if "query_plain c"
    using that by (auto simp: query_plain_def is_alnum_def is_upper_def is_lower_def is_digit_def)
  show ?thesis
    using lt hex plain upper_hex_digits by (auto simp: escape_byte_def simp del: char_of_char split: sum.split)
qed

lemma unescape_escape: "query_unescape (query_escape s) = Inr s"
  by (induction s) (simp_all add: query_escape_def unescape_byte)

lemma escape_byte_free:
  assumes "d \<in> {CHR ''&'', CHR '';'', CHR ''=''}"
  shows "d \<notin> set (escape_byte c)"
proof -
  have alnum: "\<not> is_alnum d" "d \<notin> set ''-_.~%+''"
    using assms by (auto simp: is_alnum_def is_upper_def is_lower_def is_digit_def)
  have "(of_char c :: nat) div 16 < 16" "(of_char c :: nat) mod 16 < 16"
    using nat_of_char_less_256 [of c] by (simp_all add: less_mult_imp_div_less)
  with alnum upper_hex_alnum show ?thesis
    by (auto simp: escape_byte_def query_plain_def)
qed

lemma query_escape_free: "d \<in> {CHR ''&'', CHR '';'', CHR ''=''} \<Longrightarrow> d \<notin> set (query_escape s)"
  using escape_byte_free by (auto simp: query_escape_def)

lemma str_cut_first: "c \<notin> set a \<Longrightarrow> str_cut c (a @ c # b) = (a, b)"
  by (induction a) (auto simp: str_cut_def)

lemma query_piece_encoded: "query_piece (err, m) (encode_pair (k, x)) = (err, values_add m k x)"
proof -
  have "str_cut CHR ''='' (encode_pair (k, x)) = (query_escape k, query_escape x)"
    using query_escape_free [of "CHR ''=''" k] str_cut_first [of "CHR ''=''" "query_escape k"]
    by (simp add: encode_pair_def)
  moreover have "CHR '';'' \<notin> set (encode_pair (k, x))"
    using query_escape_free [of "CHR '';''"] by (simp add: encode_pair_def)
  moreover have "encode_pair (k, x) \<noteq> []" by (simp add: encode_pair_def)
  ultimately show ?thesis by (simp add: query_piece_def unescape_escape)
qed

lemma foldl_encoded:
  "foldl query_piece (err, m) (map encode_pair ps) = (err, fold (\<lambda>(k, x) m. values_add m k x) ps m)"
  by (induction ps arbitrary: m) (auto simp: query_piece_encoded)

lemma parse_encoded: "parse_query (values_encode v) = (None, fold (\<lambda>(k, x) m. values_add m k x) (encode_pairs v) [])"
proof (cases "encode_pairs v = []")
  case True
  then show ?thesis by (simp add: parse_query_def values_encode_def query_piece_def)
next
  case False
  have "CHR ''&'' \<notin> set (encode_pair p)" for p
    using query_escape_free [of "CHR ''&''"] by (simp add: encode_pair_def)
  with False have "split_on CHR ''&'' (values_encode v) = map encode_pair (encode_pairs v)"
    unfolding values_encode_def by (intro split_on_join) auto
  then show ?thesis by (simp add: parse_query_def foldl_encoded)
qed

lemma fold_add_key:
  "values_lookup (fold (\<lambda>(k, x) m. values_add m k x) ps m) k' = values_lookup m k' @ map snd (filter (\<lambda>p. fst p = k') ps)"
  by (induction ps arbitrary: m) (auto simp: values_add_def values_lookup_def)

lemma encode_pairs_key: "map snd (filter (\<lambda>p. fst p = k) (encode_pairs v)) = values_lookup v k"
proof -
  have pick: "map snd (filter (\<lambda>p. fst p = k) (concat (map (\<lambda>k. map (Pair k) (f k)) ks)))
      = (if k \<in> set ks then f k else [])" if "distinct ks" for f :: "string \<Rightarrow> string list" and ks
    using that by (induction ks) (auto simp: filter_map comp_def filter_empty_conv)
  have "distinct (sorted_keys v)" by (simp add: sorted_keys_def)
  moreover have "k \<in> set (sorted_keys v) \<longleftrightarrow> map_of v k \<noteq> None" by (auto simp: sorted_keys_def map_of_eq_None_iff)
  ultimately show ?thesis unfolding encode_pairs_def by (auto simp: pick values_lookup_def)
qed

lemma fold_add_has:
  "values_has (fold (\<lambda>(k, x) m. values_add m k x) ps m) k' \<longleftrightarrow> values_has m k' \<or> k' \<in> fst ` set ps"
  by (induction ps arbitrary: m) (auto simp: values_has_add)

lemma encode_pairs_has: "k \<in> fst ` set (encode_pairs v) \<longleftrightarrow> values_lookup v k \<noteq> []"
  unfolding encode_pairs_key [symmetric] by (auto simp: filter_empty_conv)

text \<open>The parsed form has the values of the encoded one; keys without a value are gone.\<close>

lemma parse_query_encode:
  "\<exists>v'. parse_query (values_encode v) = (None, v') \<and> (\<forall>k. values_lookup v' k = values_lookup v k)
    \<and> (\<forall>k. values_has v' k \<longleftrightarrow> values_lookup v k \<noteq> [])"
  by (simp add: parse_encoded fold_add_key encode_pairs_key fold_add_has encode_pairs_has)
    (simp add: values_lookup_def values_has_def)

end
