(* ===== verification/Beacon_Sender.thy ===== *)
theory Beacon_Sender
  imports Server Go_Json_Read Go_Form
begin

text \<open>
  Sending archived beacons to a server again (\<open>it/beacon\_sender.go\<close>, \<open>it/http\_sender.go\<close>): the files of
  records are scanned line by line, and each record is posted to the catcher with the headers it was saved
  with. \<open>filepath.Glob\<close> and the http client are arguments; \<open>log.Fatal\<close> ends the program, so it is an error.
\<close>

section \<open>it/http\_sender.go\<close>

record http_sender =
  hs_host :: string
  hs_port :: string

record wire_request =
  wr_Method :: string
  wr_Url :: string
  wr_Header :: header
  wr_Body :: string

text \<open>What \<open>Do\<close> returns: an error, or a status and what comes of reading the body.\<close>

type_synonym 'n client = "wire_request \<Rightarrow> ('n, go_error + (nat \<times> (go_error + string))) call"

definition new_http_sender :: "string \<Rightarrow> string \<Rightarrow> http_sender" where
  "new_http_sender host port = \<lparr>hs_host = host, hs_port = port\<rparr>"

definition do_send :: "'n client \<Rightarrow> wire_request \<Rightarrow> nat \<Rightarrow> string \<Rightarrow> ('n, go_error option) call" where
  "do_send client req expectedStatusCode expectedBody =
     call_bind (client req) (\<lambda>resp. call_ret
       (case resp of
          Inl err \<Rightarrow> Some err
        | Inr (status, Inl err) \<Rightarrow> Some err
        | Inr (status, Inr body) \<Rightarrow>
            if status \<noteq> expectedStatusCode then
              Some (''expected status: '' @ itoa (int expectedStatusCode) @ '', received: '' @ itoa (int status)
                @ '', body: '' @ body)
            else if body \<noteq> expectedBody then
              Some (''expected body: '' @ expectedBody @ '', received: '' @ body)
            else None))"

definition http_send :: "'n client \<Rightarrow> wire_request \<Rightarrow> nat \<Rightarrow> string \<Rightarrow> ('n, unit) call" where
  "http_send client req expectedStatusCode expectedBody st =
     run_bind (do_send client req expectedStatusCode expectedBody st) (\<lambda>(err, st).
       case err of Some e \<Rightarrow> Panic e | None \<Rightarrow> Value ((), st))"

definition build_url :: "http_sender \<Rightarrow> string \<Rightarrow> string" where
  "build_url s path =
     (let path = (if path \<noteq> [] then (if \<not> has_prefix path ''/'' then ''/'' @ path else path) else path)
      in ''http://'' @ hs_host s @ '':'' @ hs_port s @ path)"

section \<open>it/beacon\_sender.go: reading the records\<close>

datatype sender_error =
    GlobFailed go_error
  | UnableToReadFile string os_err
  | UnableToParseJson string
  | UnableToScanFile string go_error
  | ParseHeadersError
  | NewRequestError go_error

text \<open>
  \<open>bufio.Scanner\<close>: the lines without their ends, up to the first that does not fit into its buffer of 64 KiB,
  and whether there is one.
\<close>

definition drop_cr :: "string \<Rightarrow> string" where
  "drop_cr l = (if l \<noteq> [] \<and> last l = CHR 0x0D then butlast l else l)"

definition scan_lines :: "string \<Rightarrow> string list \<times> bool" where
  "scan_lines text =
     (let ls = split_on newline text; ls = (if last ls = [] then butlast ls else ls);
          fits = (\<lambda>l. length l < 65536)
      in (map drop_cr (takeWhile fits ls), \<not> list_all fits ls))"

definition make_url_values :: "(string \<times> string) list \<Rightarrow> url_values" where
  "make_url_values beaconDataMap = fold (\<lambda>(k, v) result. values_set result k v) beaconDataMap []"

fun scan_values :: "string list \<Rightarrow> sender_error + url_values list" where
  "scan_values [] = Inr []"
| "scan_values (l # ls) =
     (case unmarshal_flat l of
        None \<Rightarrow> Inl (UnableToParseJson l)
      | Some beaconData \<Rightarrow>
          (case scan_values ls of Inl e \<Rightarrow> Inl e | Inr vs \<Rightarrow> Inr (make_url_values beaconData # vs)))"

definition scan_file :: "os \<Rightarrow> string \<Rightarrow> sender_error + url_values list" where
  "scan_file s fileName =
     (case resolve s CallOpen (path_key fileName) of
        Inl e \<Rightarrow> Inl (UnableToReadFile fileName e)
      | Inr n \<Rightarrow>
          (case (io_fault s CallRead (path_key fileName), n) of
             (Some e, n) \<Rightarrow> Inl (UnableToScanFile fileName e)
           | (None, Dir) \<Rightarrow> Inl (UnableToScanFile fileName ''is a directory'')
           | (None, File text) \<Rightarrow>
               (case scan_values (fst (scan_lines text)) of
                  Inl e \<Rightarrow> Inl e
                | Inr result \<Rightarrow>
                    if snd (scan_lines text) then Inl (UnableToScanFile fileName ''bufio.Scanner: token too long'')
                    else Inr result)))"

fun scan_files :: "os \<Rightarrow> string list \<Rightarrow> sender_error + url_values list" where
  "scan_files s [] = Inr []"
| "scan_files s (file # files) =
     (case scan_file s file of
        Inl e \<Rightarrow> Inl e
      | Inr items \<Rightarrow> (case scan_files s files of Inl e \<Rightarrow> Inl e | Inr result \<Rightarrow> Inr (items @ result)))"

definition read_files :: "(string \<Rightarrow> go_error + string list) \<Rightarrow> os \<Rightarrow> string \<Rightarrow> sender_error + url_values list" where
  "read_files glob s path =
     (case glob path of Inl err \<Rightarrow> Inl (GlobFailed err) | Inr files \<Rightarrow> scan_files s files)"

section \<open>it/beacon\_sender.go: posting them\<close>

definition parse_headers :: "url_values \<Rightarrow> sender_error + url_values" where
  "parse_headers params =
     (case unmarshal_values (values_get params ''request_headers'') of
        None \<Rightarrow> Inl ParseHeadersError
      | Some headers \<Rightarrow> Inr headers)"

definition index_first :: "string list \<Rightarrow> string run" where
  "index_first vs = (case vs of [] \<Rightarrow> Panic ''index out of range'' | v # _ \<Rightarrow> Value v)"

definition make_user_agent :: "url_values \<Rightarrow> string run" where
  "make_user_agent headers =
     (case map_of headers ''User-Agent'' of Some userAgent \<Rightarrow> index_first userAgent | None \<Rightarrow> Value [])"

definition make_country_code :: "url_values \<Rightarrow> string run" where
  "make_country_code headers = index_first (values_lookup headers ''Cf-Ipcountry'')"

definition make_city_name :: "url_values \<Rightarrow> string run" where
  "make_city_name headers = index_first (values_lookup headers ''Cf-Ipcity'')"

definition http_post :: "'n client \<Rightarrow> http_sender \<Rightarrow> url_values \<Rightarrow> ('n, sender_error option) call" where
  "http_post client sender params st =
     (case parse_headers params of
        Inl err \<Rightarrow> Value (Some err, st)
      | Inr headers \<Rightarrow>
          let url = build_url sender ''/beacon/catcher''
          in case url_parse url of
               Inl err \<Rightarrow> Value (Some (NewRequestError err), st)
             | Inr host \<Rightarrow>
                 run_bind (make_user_agent headers) (\<lambda>ua.
                 run_bind (make_country_code headers) (\<lambda>country.
                 run_bind (make_city_name headers) (\<lambda>city.
                   let hdr = values_add [] (canonical_key ''User-Agent'') ua;
                       hdr = values_add hdr (canonical_key ''Cf-Ipcountry'') country;
                       hdr = values_add hdr (canonical_key ''Cf-Ipcity'') city;
                       hdr = values_set hdr (canonical_key ''Content-Type'') ''application/x-www-form-urlencoded'';
                       req = \<lparr>wr_Method = ''POST'', wr_Url = url, wr_Header = hdr, wr_Body = values_encode params\<rparr>
                   in run_bind (http_send client req 204 [] st) (\<lambda>(_, st). Value (None, st))))))"

fun post_all :: "'n client \<Rightarrow> http_sender \<Rightarrow> url_values list \<Rightarrow> ('n, sender_error option) call" where
  "post_all client sender [] st = Value (None, st)"
| "post_all client sender (v # vs) st =
     run_bind (http_post client sender v st) (\<lambda>(err, st).
       case err of Some e \<Rightarrow> Value (Some e, st) | None \<Rightarrow> post_all client sender vs st)"

definition send_beacons :: "(string \<Rightarrow> go_error + string list) \<Rightarrow> 'n client \<Rightarrow> http_sender \<Rightarrow> os \<Rightarrow> string
    \<Rightarrow> ('n, sender_error option) call" where
  "send_beacons glob client sender s path st =
     (case read_files glob s path of
        Inl err \<Rightarrow> Value (Some err, st)
      | Inr requests \<Rightarrow> post_all client sender requests st)"

lemmas sender_defs [go_defs] = new_http_sender_def do_send_def http_send_def build_url_def drop_cr_def scan_lines_def
  make_url_values_def scan_file_def read_files_def parse_headers_def index_first_def make_user_agent_def
  make_country_code_def make_city_name_def http_post_def send_beacons_def

section \<open>Archived requests are read back\<close>

text \<open>A record keeps the first value of each parameter, its text made valid.\<close>

definition replayed :: "url_values \<Rightarrow> url_values" where
  "replayed v = map (\<lambda>k. (k, [to_valid (values_get v k)])) (sorted_keys v)"

definition valid_keys :: "url_values \<Rightarrow> bool" where
  "valid_keys v = list_all (\<lambda>k. to_valid k = k) (map fst v)"

lemma valid_keysD: "valid_keys v \<Longrightarrow> k \<in> fst ` set v \<Longrightarrow> to_valid k = k"
  by (auto simp: valid_keys_def list_all_iff)

lemma flatten_map_keys: "map fst (flatten_map v) = map fst v"
  by (induction v) (auto simp: flatten_map_def)

lemma flatten_map_of: "map_of (flatten_map v) k = (if k \<in> fst ` set v then Some (values_get v k) else None)"
proof -
  have "map_of (map (\<lambda>(k, vs). (k, f k)) v) k = (if k \<in> fst ` set v then Some (f k) else None)" for f :: "string \<Rightarrow> string"
    by (induction v) auto
  then show ?thesis by (simp add: flatten_map_def)
qed

lemma set_sorted_keys: "set (sorted_keys v) = fst ` set v"
  by (simp add: sorted_keys_def)

lemma unmarshal_record:
  assumes "valid_keys v"
  shows "unmarshal_flat (make_value v) = Some (map (\<lambda>k. (k, to_valid (values_get v k))) (sorted_keys v))"
proof -
  have keys: "sorted_keys (flatten_map v) = sorted_keys v" by (simp add: sorted_keys_def flatten_map_keys)
  have "k \<in> fst ` set (flatten_map v) \<Longrightarrow> to_valid k = k" for k
    using valid_keysD [OF assms] flatten_map_keys [of v] by (metis list.set_map)
  from unmarshal_marshal_flat [OF this] show ?thesis
    by (simp add: make_value_def to_json_def keys flatten_map_of set_sorted_keys)
qed

lemma fold_set_fresh:
  "distinct ks \<Longrightarrow> fst ` set m \<inter> set ks = {} \<Longrightarrow>
   fold (\<lambda>(k, v) result. values_set result k v) (map (\<lambda>k. (k, f k)) ks) m = m @ map (\<lambda>k. (k, [f k])) ks"
proof (induction ks arbitrary: m)
  case (Cons k ks)
  then have "values_set m k (f k) = m @ [(k, [f k])]" by (simp add: values_set_def update_fresh)
  with Cons show ?case by simp
qed simp

lemma scan_record:
  assumes "valid_keys v"
  shows "scan_values (make_value v # ls) = (case scan_values ls of Inl e \<Rightarrow> Inl e | Inr vs \<Rightarrow> Inr (replayed v # vs))"
proof -
  have "distinct (sorted_keys v)" by (simp add: sorted_keys_def)
  then have "make_url_values (map (\<lambda>k. (k, to_valid (values_get v k))) (sorted_keys v)) = replayed v"
    unfolding make_url_values_def replayed_def by (subst fold_set_fresh) simp_all
  then show ?thesis by (simp add: unmarshal_record [OF assms] split: sum.split)
qed

lemma scan_records: "list_all valid_keys vs \<Longrightarrow> scan_values (map make_value vs) = Inr (map replayed vs)"
  by (induction vs) (simp_all add: scan_record del: scan_values.simps(2))

lemma split_lines:
  "list_all (\<lambda>l. newline \<notin> set l) ls \<Longrightarrow> split_on newline (concat (map (\<lambda>l. l @ [newline]) ls)) = ls @ [[]]"
  by (induction ls) (simp_all add: split_on_append)

lemma scan_full_lines:
  assumes "list_all (\<lambda>l. newline \<notin> set l \<and> length l < 65536 \<and> drop_cr l = l) ls"
  shows "scan_lines (concat (map (\<lambda>l. l @ [newline]) ls)) = (ls, False)"
proof -
  have split: "split_on newline (concat (map (\<lambda>l. l @ [newline]) ls)) = ls @ [[]]"
    using assms by (intro split_lines) (simp add: list_all_iff)
  have fit: "takeWhile (\<lambda>l. length l < 65536) ls = ls" using assms by (simp add: list_all_iff takeWhile_eq_all_conv)
  have "map drop_cr ls = ls" using assms by (intro map_idI) (simp add: list_all_iff)
  then show ?thesis using assms by (simp add: scan_lines_def split fit list_all_iff)
qed

definition fits_line :: "url_values \<Rightarrow> bool" where
  "fits_line v = (valid_keys v \<and> length (make_value v) < 65536)"

lemma scan_lines_records:
  assumes "list_all fits_line vs"
  shows "scan_lines (concat (map (\<lambda>v. make_value v @ [newline]) vs)) = (map make_value vs, False)"
proof -
  have "drop_cr (make_value v) = make_value v" for v
    by (simp add: drop_cr_def make_value_def to_json_def marshal_flat_def json_object_def)
  moreover have "newline \<notin> set (make_value v)" for v
    by (simp add: make_value_def to_json_def marshal_flat_no_newline)
  ultimately show ?thesis
    using assms scan_full_lines [of "map make_value vs"] by (simp add: list_all_iff fits_line_def comp_def)
qed

fun param_values :: "param \<Rightarrow> url_values" where
  "param_values (Values v) = v"
| "param_values OtherParam = []"

lemma host_lines_values: "host_lines ps h = concat (map (\<lambda>v. make_value v @ [newline]) (map param_values (of_host ps h)))"
proof -
  have "param_record p = make_value (param_values p) @ [newline]" if "param_host p = Some h" for p
    using that by (cases p) simp_all
  then show ?thesis unfolding host_lines_def of_host_def map_map comp_def
    by (intro arg_cong [where f = concat] map_cong refl) simp
qed

lemma scan_written:
  assumes "no_faults s" and "tree_wf s" and "list_all fits_line vs" and "vs \<noteq> []"
    and "file_text s (path_key p) = concat (map (\<lambda>v. make_value v @ [newline]) vs)"
  shows "scan_file s p = Inr (map replayed vs)"
proof -
  have "file_text s (path_key p) \<noteq> []" using assms(4,5) by (cases vs) simp_all
  then have n: "os_node s (path_key p) = Some (File (file_text s (path_key p)))"
    by (auto simp: file_text_def split: option.splits node.splits)
  then have "resolve s CallOpen (path_key p) = Inr (File (file_text s (path_key p)))"
    using assms(1) tree_wf_not_below_file [OF assms(2)] by (simp add: resolve_def)
  moreover have "list_all valid_keys vs" using assms(3) by (simp add: list_all_iff fits_line_def)
  ultimately show ?thesis
    using assms(1) by (simp add: scan_file_def assms(5) scan_lines_records [OF assms(3)] scan_records)
qed



section \<open>Archived requests cannot be sent\<close>

lemma replayed_get: "values_get (replayed v) k = to_valid (values_get v k)"
proof -
  have "map_of (map (\<lambda>k. (k, f k)) ks) k = (if k \<in> set ks then Some (f k) else None)" for f :: "string \<Rightarrow> string list" and ks
    by (induction ks) auto
  moreover have "values_get v k = []" if "k \<notin> fst ` set v"
    using that map_of_eq_None_iff [of v k] by (simp add: values_get_def values_lookup_def)
  ultimately show ?thesis
    by (simp add: replayed_def values_get_def values_lookup_def set_sorted_keys)
qed

text \<open>What the archive calls the headers of a request are its parameters.\<close>

lemma archived_headers_read:
  assumes "valid_keys (RequestParameters e)" and "values_lookup (RequestParameters e) ''request_headers'' = []"
  shows "\<exists>hs. parse_headers (replayed (for_archiving e)) = Inr hs \<and> fst ` set hs = fst ` set (RequestParameters e)"
proof -
  have "values_get (for_archiving e) ''request_headers'' = marshal_values (RequestParameters e)"
    using assms(2) by (simp add: for_archiving_def values_get_add Let_def)
  then show ?thesis
    using unmarshal_marshal_values [OF valid_keysD [OF assms(1)]] well_formed_valid [OF well_formed_marshal_values]
    by (simp add: parse_headers_def replayed_get image_comp comp_def set_sorted_keys)
qed

lemma index_first_panics [simp]: "panics (index_first vs) \<longleftrightarrow> vs = []"
  by (cases vs) (simp_all add: index_first_def)

lemma panics_bind: "panics (run_bind m f) \<longleftrightarrow> panics m \<or> (\<exists>x. m = Value x \<and> panics (f x))"
  by (cases m) auto


lemma sample_url: "url_parse (build_url (new_http_sender ''localhost'' ''80'') ''/beacon/catcher'') = Inr ''localhost:80''"
  by code_simp


section \<open>From the sender to the catcher\<close>

text \<open>
  The request \<open>net/http\<close> hands to a handler for the one on the wire; with the content type the sender sets,
  \<open>ParseForm\<close> parses the body.
\<close>

definition received :: "string \<Rightarrow> wire_request \<Rightarrow> request" where
  "received addr req = \<lparr>rq_Method = wr_Method req, rq_Form = parse_query (wr_Body req), rq_Header = wr_Header req,
     rq_RemoteAddr = addr, rq_Body = wr_Body req\<rparr>"

definition answer :: "response \<Rightarrow> go_error + (nat \<times> (go_error + string))" where
  "answer w = Inr (case rs_Status w of None \<Rightarrow> 200 | Some c \<Rightarrow> c, Inr (rs_Body w))"

definition catcher_client :: "'d adapter \<Rightarrow> time \<Rightarrow> string \<Rightarrow> 'd run_state client" where
  "catcher_client A now addr req st =
     run_bind (catcher A now False (received addr req) st) (\<lambda>(w, st). Value (answer w, st))"


definition sample_record :: url_values where
  "sample_record = [(''u'', [''//a.b'']), (''request_headers'',
     [marshal_values [(''Cf-Ipcountry'', [''DE'']), (''Cf-Ipcity'', [''Kiel'']), (''User-Agent'', [''ua''])]])]"


end
