(* ===== verification/Test_Files.thy ===== *)
theory Test_Files
  imports Migration
begin

text \<open>
  The helpers with which the tests copy and compare directories (\<open>testhelper/copy.go\<close>, \<open>equal.go\<close>,
  \<open>reader\_factory.go\<close>). A failed \<open>require\<close> ends the test: a comparison is a truth value. Both recursions follow the
  tree and one of them may not end, so they take fuel. \<open>order\<close> is the order in which a directory is read,
  or a map ranged over; the readers of compressed files are arguments.
\<close>

section \<open>testhelper/copy.go\<close>

definition CopyFile :: "string \<Rightarrow> string \<Rightarrow> os \<Rightarrow> os_err option \<times> os" where
  "CopyFile source dest s =
     (case resolve s CallOpen (path_key source) of
        Inl err \<Rightarrow> (Some err, s)
      | Inr n \<Rightarrow>
          (case os_create s dest of
             (Some err, s) \<Rightarrow> (Some err, s)
           | (None, s) \<Rightarrow>
               (case os_read_all s source of
                  Inl err \<Rightarrow> (Some err, s)
                | Inr content \<Rightarrow>
                    (case (if content = [] then (None, s) else os_write s dest content) of
                       (Some err, s) \<Rightarrow> (Some err, s)
                     | (None, s) \<Rightarrow>
                         (case os_stat s source of
                            Inl err \<Rightarrow> (Some err, s)
                          | Inr sourceinfo \<Rightarrow>
                              (case resolve s CallChmod (path_key dest) of
                                 Inl err \<Rightarrow> (Some err, s)
                               | Inr n \<Rightarrow> (None, s)))))))"

definition createDestinationDirectory :: "string \<Rightarrow> string \<Rightarrow> os \<Rightarrow> os_err option \<times> os" where
  "createDestinationDirectory source dest s =
     (case os_stat s source of
        Inl err \<Rightarrow> (Some err, s)
      | Inr sourceinfo \<Rightarrow> os_mkdir_all s dest)"

text \<open>\<open>os.Open\<close> of a directory and \<open>Readdir(-1)\<close>, which says of each entry whether it is a directory.\<close>

definition open_read_dir :: "os \<Rightarrow> string \<Rightarrow> os_err + (string \<times> bool) list" where
  "open_read_dir s source =
     (case resolve s CallOpen (path_key source) of
        Inl err \<Rightarrow> Inl err
      | Inr n \<Rightarrow> os_read_dir s source)"

function CopyDir :: "nat \<Rightarrow> ((string \<times> bool) list \<Rightarrow> (string \<times> bool) list) \<Rightarrow> string \<Rightarrow> string \<Rightarrow> os
    \<Rightarrow> (os_err option \<times> os) option"
  and copyDirEntries :: "nat \<Rightarrow> ((string \<times> bool) list \<Rightarrow> (string \<times> bool) list) \<Rightarrow> string \<Rightarrow> string
    \<Rightarrow> (string \<times> bool) list \<Rightarrow> os \<Rightarrow> (os_err option \<times> os) option"
  and copyDirEntry :: "nat \<Rightarrow> ((string \<times> bool) list \<Rightarrow> (string \<times> bool) list) \<Rightarrow> string \<Rightarrow> string
    \<Rightarrow> string \<times> bool \<Rightarrow> os \<Rightarrow> (os_err option \<times> os) option" where
  "CopyDir 0 order source dest s = None"
| "CopyDir (Suc n) order source dest s =
     (case createDestinationDirectory source dest s of
        (Some err, s) \<Rightarrow> Some (Some err, s)
      | (None, s) \<Rightarrow>
          (case open_read_dir s source of
             Inl err \<Rightarrow> Some (Some err, s)
           | Inr objects \<Rightarrow> copyDirEntries n order source dest (order objects) s))"
| "copyDirEntries n order source dest [] s = Some (None, s)"
| "copyDirEntries n order source dest (obj # objects) s =
     (case copyDirEntry n order source dest obj s of
        None \<Rightarrow> None
      | Some (Some err, s) \<Rightarrow> Some (Some err, s)
      | Some (None, s) \<Rightarrow> copyDirEntries n order source dest objects s)"
| "copyDirEntry n order source dest obj s =
     (let sourcefilepointer = path_join [source, fst obj];
          destinationfilepointer = path_join [dest, fst obj]
      in if snd obj then CopyDir n order sourcefilepointer destinationfilepointer s
         else Some (CopyFile sourcefilepointer destinationfilepointer s))"
  by pat_completeness auto
termination
  by (relation "inv_image (less_than <*lex*> less_than)
      (\<lambda>x. case x of Inl (n, _) \<Rightarrow> (n, 0) | Inr (Inl (n, _, _, _, objs, _)) \<Rightarrow> (n, length objs + 2)
         | Inr (Inr (n, _)) \<Rightarrow> (n, 1 :: nat))") auto

section \<open>testhelper/equal.go\<close>

definition isFile :: "string \<times> bool \<Rightarrow> bool" where
  "isFile fileInfo = (\<not> snd fileInfo)"

definition skipFile :: "string \<times> bool \<Rightarrow> bool" where
  "skipFile fileInfo =
     (if fst fileInfo = ''.gitkeep'' then True
      else if fst fileInfo = ''.git'' then True
      else False)"

text \<open>A map from names to true is its list of names; a directory is read in the order of the names.\<close>

definition collectNameMap :: "os \<Rightarrow> bool \<Rightarrow> string \<Rightarrow> os_err + string list" where
  "collectNameMap s collectFiles dirPath =
     (case os_read_dir s dirPath of
        Inl err \<Rightarrow> Inl err
      | Inr files \<Rightarrow> Inr (map fst (filter (\<lambda>f. \<not> skipFile f \<and> collectFiles = isFile f) files)))"

definition requireCollectNameMap :: "os \<Rightarrow> bool \<Rightarrow> string \<Rightarrow> string \<Rightarrow> string list option" where
  "requireCollectNameMap s collectFiles parent relativePath =
     (case collectNameMap s collectFiles (path_join [parent, relativePath]) of Inl err \<Rightarrow> None | Inr names \<Rightarrow> Some names)"

definition assertNamesAreTheSame :: "os \<Rightarrow> bool \<Rightarrow> string \<Rightarrow> string \<Rightarrow> string \<Rightarrow> string list option" where
  "assertNamesAreTheSame s collectFiles expected actual relativePath =
     (case requireCollectNameMap s collectFiles expected relativePath of
        None \<Rightarrow> None
      | Some expectedNames \<Rightarrow>
          (case requireCollectNameMap s collectFiles actual relativePath of
             None \<Rightarrow> None
           | Some actualNames \<Rightarrow> if expectedNames = actualNames then Some actualNames else None))"

type_synonym readers = "(string \<Rightarrow> go_error + string) \<times> (string \<Rightarrow> go_error + string)"

text \<open>\<open>newReadCloser\<close> followed by \<open>io.ReadAll\<close>: the suffix of the file decides how its content is read.\<close>

definition newReadCloser :: "readers \<Rightarrow> string \<Rightarrow> string \<Rightarrow> go_error + string" where
  "newReadCloser R file content =
     (if has_suffix file ''.gz'' then fst R content
      else if has_suffix file ''.zst'' then snd R content
      else Inr content)"

definition readAll :: "readers \<Rightarrow> os \<Rightarrow> string \<Rightarrow> string option" where
  "readAll R s filePath =
     (case os_read_all s filePath of
        Inl err \<Rightarrow> None
      | Inr content \<Rightarrow> (case newReadCloser R filePath content of Inl err \<Rightarrow> None | Inr t \<Rightarrow> Some t))"

definition requireReadAll :: "readers \<Rightarrow> os \<Rightarrow> string \<Rightarrow> string \<Rightarrow> string option" where
  "requireReadAll R s parent relativePath = readAll R s (path_join [parent, relativePath])"

definition assertFileContentIsTheSame :: "readers \<Rightarrow> os \<Rightarrow> string \<Rightarrow> string \<Rightarrow> string \<Rightarrow> bool" where
  "assertFileContentIsTheSame R s expected actual relativePath =
     (case (requireReadAll R s expected relativePath, requireReadAll R s actual relativePath) of
        (Some expectedBytes, Some actualBytes) \<Rightarrow> expectedBytes = actualBytes
      | _ \<Rightarrow> False)"

text \<open>The loop over the directories ends at the first that differs.\<close>

fun all_dirs :: "(string \<Rightarrow> bool option) \<Rightarrow> string list \<Rightarrow> bool option" where
  "all_dirs f [] = Some True"
| "all_dirs f (d # ds) = (case f d of Some True \<Rightarrow> all_dirs f ds | r \<Rightarrow> r)"

fun doAssertDirEqual :: "nat \<Rightarrow> readers \<Rightarrow> (string list \<Rightarrow> string list) \<Rightarrow> os \<Rightarrow> string \<Rightarrow> string \<Rightarrow> string \<Rightarrow> bool option" where
  "doAssertDirEqual 0 R order s expected actual relativePath = None"
| "doAssertDirEqual (Suc n) R order s expected actual relativePath =
     (case assertNamesAreTheSame s True expected actual relativePath of
        None \<Rightarrow> Some False
      | Some sourceFiles \<Rightarrow>
          (case assertNamesAreTheSame s False expected actual relativePath of
             None \<Rightarrow> Some False
           | Some sourceDirs \<Rightarrow>
               if \<not> list_all (\<lambda>fileName. assertFileContentIsTheSame R s expected actual (path_join [relativePath, fileName]))
                     (order sourceFiles) then Some False
               else all_dirs (\<lambda>dirName. doAssertDirEqual n R order s expected actual (path_join [relativePath, dirName]))
                     (order sourceDirs)))"

definition AssertDirEqual :: "nat \<Rightarrow> readers \<Rightarrow> (string list \<Rightarrow> string list) \<Rightarrow> os \<Rightarrow> string \<Rightarrow> string \<Rightarrow> bool option" where
  "AssertDirEqual n R order s expected actual = doAssertDirEqual n R order s expected actual []"

section \<open>testhelper/test\_helpers.go\<close>

text \<open>\<open>runtime.Caller\<close> gives the name of the source file, if it knows it.\<close>

definition GetProjectRoot :: "string option \<Rightarrow> string run" where
  "GetProjectRoot caller =
     (case caller of
        None \<Rightarrow> Panic ''cannot get current filename''
      | Some filename \<Rightarrow> Value (path_join [path_dir filename, ''..'']))"

lemmas test_files_defs [go_defs] = GetProjectRoot_def CopyFile_def createDestinationDirectory_def open_read_dir_def isFile_def skipFile_def
  collectNameMap_def requireCollectNameMap_def assertNamesAreTheSame_def newReadCloser_def readAll_def
  requireReadAll_def assertFileContentIsTheSame_def AssertDirEqual_def

section \<open>Copying a directory\<close>

definition sound :: "os \<Rightarrow> bool" where
  "sound s \<longleftrightarrow> no_faults s \<and> tree_wf s"

lemma below_iff: "below d k \<longleftrightarrow> (\<exists>z. k = d @ z)"
  unfolding below_def by (metis append_eq_conv_conj append_take_drop_id)

text \<open>Two positions neither of which is below the other, and what lies below them.\<close>

definition apart :: "string list \<Rightarrow> string list \<Rightarrow> bool" where
  "apart S D \<longleftrightarrow> \<not> below S D \<and> \<not> below D S"

lemma apart_below: "apart S D \<Longrightarrow> \<not> below D (S @ ks)"
  by (auto simp: apart_def below_iff append_eq_append_conv2)

lemma apart_snoc: "apart S D \<Longrightarrow> apart (S @ [m]) (D @ [m])"
  by (auto simp: apart_def below_iff append_eq_append_conv2 append_eq_Cons_conv Cons_eq_append_conv)

lemma apart_nonempty: "apart S D \<Longrightarrow> S \<noteq> [] \<and> D \<noteq> []"
  by (auto simp: apart_def below_iff)

lemma missing_below: "tree_wf s \<Longrightarrow> os_node s k \<noteq> Some Dir \<Longrightarrow> z \<noteq> [] \<Longrightarrow> os_node s (k @ z) = None"
  using tree_wf_prefix [of s "k @ z" "length k"] by (cases "os_node s (k @ z)") auto

lemma dir_entries_mem:
  assumes "S \<noteq> []"
  shows "(m, b) \<in> set (dir_entries s S) \<longleftrightarrow> os_node s (S @ [m]) \<noteq> None \<and> b = (os_node s (S @ [m]) = Some Dir)"
proof -
  have "m \<in> last ` {k'. k' \<noteq> [] \<and> butlast k' = S \<and> k' \<in> fst ` set (tree s)} \<longleftrightarrow> S @ [m] \<in> fst ` set (tree s)"
    by (force intro: image_eqI [where x = "S @ [m]"])
  moreover have "\<not> root_key (S @ [m])" using assms by (auto simp: root_key_def append_eq_Cons_conv)
  then have "os_node s (S @ [m]) \<noteq> None \<longleftrightarrow> S @ [m] \<in> fst ` set (tree s)" by (simp add: os_node_def map_of_eq_None_iff)
  ultimately show ?thesis by (auto simp: dir_entries_def)
qed

lemma dir_entries_distinct: "distinct (map fst (dir_entries s S))"
  by (simp add: dir_entries_def comp_def)

lemma open_read_dir_ok:
  assumes "sound s" and "os_node s (path_key p) = Some Dir"
  shows "open_read_dir s p = Inr (dir_entries s (path_key p))" and "os_read_dir s p = Inr (dir_entries s (path_key p))"
  using assms tree_wf_not_below_file [of s "path_key p"]
  by (simp_all add: sound_def open_read_dir_def os_read_dir_def resolve_def)

lemma CopyFile_ok:
  assumes "sound s" and "os_node s (path_key source) = Some (File t)" and "os_node s (butlast (path_key dest)) = Some Dir"
    and "os_node s (path_key dest) = None"
  shows "\<exists>s'. CopyFile source dest s = (None, s') \<and> sound s' \<and> os_node s' = (os_node s)(path_key dest \<mapsto> File t)"
proof -
  obtain s1 where s1: "os_create s dest = (None, s1)" "no_faults s1" "tree_wf s1" "os_node s1 = (os_node s)(path_key dest \<mapsto> File [])"
    using os_create_step [of s dest] assms by (auto simp: sound_def)
  have src: "os_node s1 (path_key source) = Some (File t)" using assms(2,4) s1(4) by auto
  have f: "os_node s1 (path_key dest) = Some (File [])" using s1(4) by simp
  obtain s2 where w: "(if t = [] then (None, s1) else os_write s1 dest t) = (None, s2)"
    and s2: "no_faults s2" "tree_wf s2" "os_node s2 = (os_node s)(path_key dest \<mapsto> File t)"
  proof
    let ?s2 = "if t = [] then s1 else put_node (path_key dest) (File t) s1"
    show "(if t = [] then (None, s1) else os_write s1 dest t) = (None, ?s2)" using os_write_ok [OF s1(2) f, of t] by simp
    show "no_faults ?s2" "tree_wf ?s2" "os_node ?s2 = (os_node s)(path_key dest \<mapsto> File t)"
      using s1(2-4) file_put_wf [OF s1(3) f] by (auto simp: fs_simps fun_eq_iff no_faults_def)
  qed
  have src2: "os_node s2 (path_key source) = Some (File t)" using assms(2,4) s2(3) by auto
  have "resolve s CallOpen (path_key source) = Inr (File t)" "os_stat s2 source = Inr (File t)"
    "resolve s2 CallChmod (path_key dest) = Inr (File t)"
    using assms(1,2) s2 src2 tree_wf_not_below_file [of s "path_key source"] tree_wf_not_below_file [of s2 "path_key source"]
      tree_wf_not_below_file [of s2 "path_key dest"]
    by (auto simp: resolve_def os_stat_def sound_def)
  then have "CopyFile source dest s = (None, s2)"
    using w by (simp add: CopyFile_def s1(1) os_read_all_ok [OF s1(2,3) src] split: if_splits)
  with s2 show ?thesis by (auto simp: sound_def)
qed

lemma createDestinationDirectory_ok:
  assumes "sound s" and "os_node s (path_key source) = Some Dir" and "os_node s (butlast (path_key dest)) = Some Dir"
    and "\<And>t. os_node s (path_key dest) \<noteq> Some (File t)"
  shows "\<exists>s'. createDestinationDirectory source dest s = (None, s') \<and> sound s' \<and> os_node s' = (os_node s)(path_key dest \<mapsto> Dir)"
proof -
  let ?D = "path_key dest"
  have up: "os_node s (take i ?D) = Some Dir" if "i < length ?D" for i
  proof (cases "i = length ?D - 1")
    case True
    with assms(3) show ?thesis by (simp add: butlast_conv_take)
  next
    case False
    with that have "i < length (butlast ?D)" "take i ?D = take i (butlast ?D)" by (auto simp: butlast_conv_take min_def)
    with tree_wf_prefix [of s "butlast ?D" i] assms(1,3) show ?thesis by (simp add: sound_def)
  qed
  have "os_node s (take i ?D) \<noteq> Some (File t)" for i t
    using up [of i] assms(4) by (cases "i < length ?D") auto
  then obtain s' where s': "os_mkdir_all s dest = (None, s')" "made_dirs ?D s s'" "no_faults s'" "tree_wf s'" "os_node s' ?D = Some Dir"
    using os_mkdir_all_ok [of s dest] assms(1) unfolding sound_def by metis
  have "os_node s' k = ((os_node s)(?D \<mapsto> Dir)) k" for k
  proof (cases "k = ?D")
    case False
    from made_dirsD [OF s'(2), of k] show ?thesis
    proof (elim disjE conjE exE)
      fix i assume "os_node s k = None" "i \<le> length ?D" "k = take i ?D"
      with False up [of i] show ?thesis by (cases "i < length ?D") auto
    qed (simp add: False)
  qed (simp add: s'(5))
  moreover have "os_stat s source = Inr Dir"
    using assms(1,2) tree_wf_not_below_file [of s "path_key source"] by (simp add: os_stat_def resolve_def sound_def)
  ultimately show ?thesis using s' by (auto simp: createDestinationDirectory_def sound_def fun_eq_iff)
qed

text \<open>The nodes after the entries in \<open>ms\<close> have been copied.\<close>

definition partly_copied :: "string list \<Rightarrow> string list \<Rightarrow> (string list \<Rightarrow> node option) \<Rightarrow> string set
    \<Rightarrow> string list \<Rightarrow> node option" where
  "partly_copied S D f ms k =
     (if below D k \<and> (k = D \<or> k ! length D \<in> ms) then f (S @ drop (length D) k) else f k)"

definition copied :: "string list \<Rightarrow> string list \<Rightarrow> (string list \<Rightarrow> node option) \<Rightarrow> string list \<Rightarrow> node option" where
  "copied S D f k = (if below D k then f (S @ drop (length D) k) else f k)"

lemma copied_simps: "copied S D f (D @ ks) = f (S @ ks)" "\<not> below D k \<Longrightarrow> copied S D f k = f k"
  by (simp_all add: copied_def below_def)

lemma partly_copied_simps [simp]:
  "partly_copied S D f ms D = f S"
  "partly_copied S D f ms (D @ m # ks) = (if m \<in> ms then f (S @ m # ks) else f (D @ m # ks))"
  "\<not> below D k \<Longrightarrow> partly_copied S D f ms k = f k"
  by (simp_all add: partly_copied_def below_def nth_append)

lemma below_cases:
  obtains (here) "k = D" | (inside) m ks where "k = D @ m # ks" | (outside) "\<not> below D k"
proof (cases "below D k")
  case True
  then obtain z where "k = D @ z" by (auto simp: below_iff)
  with here inside show ?thesis by (cases z) auto
qed (rule outside)

lemma partly_copied_none:
  assumes "f S = Some Dir" and "\<And>ks. ks \<noteq> [] \<Longrightarrow> f (D @ ks) = None"
  shows "partly_copied S D f {} = f(D \<mapsto> Dir)"
proof
  fix k
  show "partly_copied S D f {} k = (f(D \<mapsto> Dir)) k"
    by (cases k D rule: below_cases) (use assms in \<open>auto simp: below_iff\<close>)
qed

lemma partly_copied_all:
  assumes "\<And>m ks. m \<notin> ms \<Longrightarrow> f (S @ m # ks) = None" and "\<And>ks. ks \<noteq> [] \<Longrightarrow> f (D @ ks) = None"
  shows "partly_copied S D f ms = copied S D f"
proof
  fix k
  show "partly_copied S D f ms k = copied S D f k"
    by (cases k D rule: below_cases) (use assms in \<open>auto simp: copied_def below_def\<close>)
qed

text \<open>What is needed of source and target: the target is a directory that is missing or empty.\<close>

definition can_copy :: "nat \<Rightarrow> string list \<Rightarrow> string list \<Rightarrow> os \<Rightarrow> bool" where
  "can_copy n S D s \<longleftrightarrow> sound s \<and> os_node s S = Some Dir \<and> apart S D
     \<and> (\<forall>ks. os_node s (S @ ks) \<noteq> None \<longrightarrow> list_all plain_name ks \<and> length ks < n)
     \<and> os_node s (butlast D) = Some Dir \<and> (\<forall>t. os_node s D \<noteq> Some (File t))
     \<and> (\<forall>ks. ks \<noteq> [] \<longrightarrow> os_node s (D @ ks) = None)"

lemma can_copyD:
  assumes "can_copy n S D s"
  shows "sound s" "os_node s S = Some Dir" "apart S D" "os_node s (butlast D) = Some Dir"
    and "os_node s (S @ ks) \<noteq> None \<Longrightarrow> list_all plain_name ks \<and> length ks < n"
    and "os_node s D \<noteq> Some (File t)" and "ks \<noteq> [] \<Longrightarrow> os_node s (D @ ks) = None"
  using assms by (auto simp: can_copy_def)

definition copies :: "nat \<Rightarrow> ((string \<times> bool) list \<Rightarrow> (string \<times> bool) list) \<Rightarrow> bool" where
  "copies n order \<longleftrightarrow> (\<forall>source dest s. can_copy n (path_key source) (path_key dest) s \<longrightarrow>
     (\<exists>s'. CopyDir n order source dest s = Some (None, s') \<and> sound s'
       \<and> os_node s' = copied (path_key source) (path_key dest) (os_node s)))"

lemma partly_copied_insert:
  assumes "\<And>ks. g (D @ m # ks) = f (S @ m # ks)" and "\<And>k. \<not> below (D @ [m]) k \<Longrightarrow> g k = partly_copied S D f ms k"
  shows "g = partly_copied S D f (insert m ms)"
proof
  fix k
  show "g k = partly_copied S D f (insert m ms) k"
  proof (cases k D rule: below_cases)
    case here
    then have "\<not> below (D @ [m]) k" by (simp add: below_def)
    with here show ?thesis by (simp add: assms(2))
  next
    case (inside m' ks)
    have "\<not> below (D @ [m]) k" if "m' \<noteq> m" using that inside by (auto simp: below_iff)
    with inside show ?thesis by (cases "m' = m") (simp_all add: assms)
  next
    case outside
    then have "\<not> below (D @ [m]) k" by (auto simp: below_iff)
    with outside show ?thesis by (simp add: assms(2))
  qed
qed

lemma copyDirEntry_ok:
  assumes IH: "copies n order" and c: "can_copy (Suc n) (path_key source) (path_key dest) s"
    and t: "sound t" "os_node t = partly_copied (path_key source) (path_key dest) (os_node s) ms"
    and m: "m \<notin> ms" "os_node s (path_key source @ [m]) \<noteq> None" "b = (os_node s (path_key source @ [m]) = Some Dir)"
  shows "\<exists>t'. copyDirEntry n order source dest (m, b) t = Some (None, t') \<and> sound t'
    \<and> os_node t' = partly_copied (path_key source) (path_key dest) (os_node s) (insert m ms)"
proof -
  let ?S = "path_key source" and ?D = "path_key dest"
  note c = can_copyD [OF c]
  have plain: "plain_name m" using c(5) [OF m(2)] by simp
  note keys = path_key_temp_file [OF plain]
  have src: "os_node t (?S @ ks) = os_node s (?S @ ks)" for ks using apart_below [OF c(3)] by (simp add: t(2))
  have new: "os_node t (?D @ m # ks) = None" for ks using m(1) c(7) by (simp add: t(2))
  have dir: "os_node t ?D = Some Dir" using c(2) by (simp add: t(2))
  show ?thesis
  proof (cases "os_node s (?S @ [m])")
    case (Some nd)
    show ?thesis
    proof (cases nd)
      case Dir
      have "list_all plain_name ks \<and> length ks < n" if "os_node t ((?S @ [m]) @ ks) \<noteq> None" for ks
        using that c(5) [of "m # ks"] src [of "m # ks"] by simp
      then have "can_copy n (path_key (path_join [source, m])) (path_key (path_join [dest, m])) t"
        unfolding keys can_copy_def using t(1) apart_snoc [OF c(3)] new src [of "[m]"] Some Dir dir by auto
      then obtain t' where t': "CopyDir n order (path_join [source, m]) (path_join [dest, m]) t = Some (None, t')" "sound t'"
        "os_node t' = copied (?S @ [m]) (?D @ [m]) (os_node t)"
        using IH unfolding copies_def keys [symmetric] by blast
      have "os_node t' = partly_copied ?S ?D (os_node s) (insert m ms)"
      proof (rule partly_copied_insert)
        show "os_node t' (?D @ m # ks) = os_node s (?S @ m # ks)" for ks
          using copied_simps(1) [of "?S @ [m]" "?D @ [m]" "os_node t" ks] src [of "m # ks"] by (simp add: t'(3))
        show "\<not> below (?D @ [m]) k \<Longrightarrow> os_node t' k = partly_copied ?S ?D (os_node s) ms k" for k
          by (simp add: t'(3) copied_simps(2) t(2))
      qed
      with t' show ?thesis using Some Dir m(3) by (auto simp: Let_def)
    next
      case (File content)
      have "os_node t (path_key (path_join [source, m])) = Some (File content)"
        "os_node t (butlast (path_key (path_join [dest, m]))) = Some Dir" "os_node t (path_key (path_join [dest, m])) = None"
        unfolding keys using src [of "[m]"] Some File dir new [of "[]"] by simp_all
      from CopyFile_ok [OF t(1) this] obtain t' where t': "CopyFile (path_join [source, m]) (path_join [dest, m]) t = (None, t')"
        "sound t'" "os_node t' = (os_node t)(?D @ [m] \<mapsto> File content)" unfolding keys by blast
      have "os_node t' = partly_copied ?S ?D (os_node s) (insert m ms)"
      proof (rule partly_copied_insert)
        fix ks
        have "os_node s (?S @ m # ks) = None" if "ks \<noteq> []"
          using missing_below [of s "?S @ [m]" ks] c(1) that Some File by (simp add: sound_def)
        then show "os_node t' (?D @ m # ks) = os_node s (?S @ m # ks)"
          using Some File new [of ks] by (cases "ks = []") (simp_all add: t'(3))
      next
        fix k assume "\<not> below (?D @ [m]) k"
        then have "k \<noteq> ?D @ [m]" by (auto simp: below_iff)
        then show "os_node t' k = partly_copied ?S ?D (os_node s) ms k" by (simp add: t'(3) t(2))
      qed
      with t' show ?thesis using Some File m(3) by (auto simp: Let_def)
    qed
  qed (use m(2) in simp)
qed

lemma copyDirEntries_ok:
  assumes IH: "copies n order" and c: "can_copy (Suc n) (path_key source) (path_key dest) s"
    and "sound t" "os_node t = partly_copied (path_key source) (path_key dest) (os_node s) ms"
    and "distinct (map fst objs)" "fst ` set objs \<inter> ms = {}"
    and "\<And>m b. (m, b) \<in> set objs \<Longrightarrow> os_node s (path_key source @ [m]) \<noteq> None \<and> b = (os_node s (path_key source @ [m]) = Some Dir)"
  shows "\<exists>t'. copyDirEntries n order source dest objs t = Some (None, t') \<and> sound t'
    \<and> os_node t' = partly_copied (path_key source) (path_key dest) (os_node s) (ms \<union> fst ` set objs)"
  using assms(3-7)
proof (induction objs arbitrary: t ms)
  case (Cons obj objs)
  obtain m b where obj: "obj = (m, b)" by fastforce
  obtain t1 where t1: "copyDirEntry n order source dest obj t = Some (None, t1)" "sound t1"
    "os_node t1 = partly_copied (path_key source) (path_key dest) (os_node s) (insert m ms)"
    using copyDirEntry_ok [OF IH c Cons.prems(1,2), of m b] Cons.prems(4,5) unfolding obj by fastforce
  have "\<exists>t'. copyDirEntries n order source dest objs t1 = Some (None, t') \<and> sound t'
    \<and> os_node t' = partly_copied (path_key source) (path_key dest) (os_node s) (insert m ms \<union> fst ` set objs)"
    by (rule Cons.IH [OF t1(2,3)]) (use Cons.prems obj in auto)
  with t1(1) obj show ?case by simp
qed simp

lemma copies_all:
  assumes "\<And>xs. mset (order xs) = mset xs"
  shows "copies n order"
proof (induction n)
  case 0
  have "\<not> can_copy 0 S D s" for S D s using can_copyD(2) [of 0 S D s] can_copyD(5) [of 0 S D s "[]"] by auto
  then show ?case by (simp add: copies_def)
next
  case (Suc n)
  show ?case unfolding copies_def
  proof (intro allI impI)
    fix source dest s
    let ?S = "path_key source" and ?D = "path_key dest"
    assume cc: "can_copy (Suc n) ?S ?D s"
    note c = can_copyD [OF cc]
    obtain s1 where s1: "createDestinationDirectory source dest s = (None, s1)" "sound s1" "os_node s1 = (os_node s)(?D \<mapsto> Dir)"
      using createDestinationDirectory_ok [OF c(1,2,4,6)] by blast
    have p1: "os_node s1 = partly_copied ?S ?D (os_node s) {}"
      using partly_copied_none [of "os_node s" ?S ?D] c(2,7) s1(3) by simp
    have src: "os_node s1 (?S @ ks) = os_node s (?S @ ks)" for ks using apart_below [OF c(3)] by (simp add: p1)
    let ?objs = "order (dir_entries s1 ?S)"
    have objs: "set ?objs = set (dir_entries s1 ?S)" "distinct (map fst ?objs)"
      using assms [of "dir_entries s1 ?S"] dir_entries_distinct [of s1 ?S]
      by (metis set_mset_mset, metis mset_eq_imp_distinct_iff mset_map)
    note mem = dir_entries_mem [of ?S, OF conjunct1 [OF apart_nonempty [OF c(3)]]]
    have "\<exists>t'. copyDirEntries n order source dest ?objs s1 = Some (None, t') \<and> sound t'
      \<and> os_node t' = partly_copied ?S ?D (os_node s) ({} \<union> fst ` set ?objs)"
      by (rule copyDirEntries_ok [OF Suc cc s1(2) p1 objs(2)]) (simp_all add: objs(1) mem src)
    then obtain s' where s': "copyDirEntries n order source dest ?objs s1 = Some (None, s')" "sound s'"
      "os_node s' = partly_copied ?S ?D (os_node s) (fst ` set ?objs)" by auto
    have "os_node s (?S @ m # ks) = None" if "m \<notin> fst ` set ?objs" for m ks
    proof -
      have "(m, b) \<notin> set ?objs" for b using that by (force intro: image_eqI [where x = "(m, b)"])
      then have "os_node s (?S @ [m]) = None" unfolding objs(1) mem src by auto
      then show ?thesis using missing_below [of s "?S @ [m]" ks] c(1) by (cases "ks = []") (simp_all add: sound_def)
    qed
    with c(7) have "os_node s' = copied ?S ?D (os_node s)" unfolding s'(3) by (intro partly_copied_all) auto
    moreover have "open_read_dir s1 source = Inr (dir_entries s1 ?S)"
      using open_read_dir_ok(1) [OF s1(2)] src [of "[]"] c(2) by simp
    ultimately show "\<exists>s'. CopyDir (Suc n) order source dest s = Some (None, s') \<and> sound s'
        \<and> os_node s' = copied ?S ?D (os_node s)"
      using s1(1) s'(1,2) by simp
  qed
qed

text \<open>
  A directory is copied into one that is missing or empty, and apart from it, when no call is refused: the
  copy ends, without an error, and below the target there is then what is below the source, and nothing
  else has changed. The fuel bounds the depth of the tree.
\<close>

lemma CopyDir_copies:
  assumes "can_copy n (path_key source) (path_key dest) s" and "\<And>xs. mset (order xs) = mset xs"
  shows "\<exists>s'. CopyDir n order source dest s = Some (None, s')
    \<and> (\<forall>ks. os_node s' (path_key dest @ ks) = os_node s (path_key source @ ks))
    \<and> (\<forall>k. \<not> below (path_key dest) k \<longrightarrow> os_node s' k = os_node s k)"
proof -
  obtain s' where "CopyDir n order source dest s = Some (None, s')"
    "os_node s' = copied (path_key source) (path_key dest) (os_node s)"
    using copies_all [OF assms(2), of n] assms(1) unfolding copies_def by blast
  then show ?thesis by (auto simp: copied_simps)
qed

section \<open>Comparing directories\<close>

definition rel_path :: "string list \<Rightarrow> string" where
  "rel_path ns = join_with ''/'' ns"

lemma plain_parts: "plain_name n \<Longrightarrow> n \<noteq> [] \<and> CHR ''/'' \<notin> set n \<and> name_part n"
  by (simp add: plain_name_def name_part_def)

lemma clean_rel_path:
  assumes "list_all plain_name ns" and "ns \<noteq> []"
  shows "path_clean (rel_path ns) = rel_path ns"
proof -
  obtain n ms where ns: "ns = n # ms" using assms(2) by (cases ns) auto
  have parts: "n \<noteq> []" "CHR ''/'' \<notin> set n" using assms(1) plain_parts by (simp_all add: ns)
  then have "hd (rel_path ns) \<in> set n" "rel_path ns \<noteq> []" by (cases ms; simp add: rel_path_def ns)+
  with parts(2) have unrooted: "\<not> path_rooted (rel_path ns)" by (cases "rel_path ns") (auto simp: path_rooted_def has_prefix_def)
  have "split_on CHR ''/'' (rel_path ns) = ns"
    unfolding rel_path_def using assms plain_parts by (intro split_on_join) (auto simp: list_all_iff)
  moreover have "clean_comps False [] ns = ns"
    using assms plain_parts by (subst clean_comps_plain) (auto simp: list_all_iff intro!: filter_True)
  ultimately have "path_comps (rel_path ns) = ns" using unrooted by (simp add: path_comps_def)
  with unrooted \<open>rel_path ns \<noteq> []\<close> show ?thesis by (simp add: path_clean_def Let_def flip: rel_path_def)
qed

lemma rel_path_snoc:
  assumes "list_all plain_name ns" and "plain_name n"
  shows "path_join [rel_path ns, n] = rel_path (ns @ [n])"
proof (cases "ns = []")
  case True
  with assms clean_rel_path [of "[n]"] plain_parts [of n] show ?thesis by (simp add: path_join_def rel_path_def)
next
  case False
  then have "rel_path ns \<noteq> []" using assms(1) plain_parts [of "hd ns"] by (cases ns; cases "tl ns") (simp_all add: rel_path_def)
  moreover have "rel_path ns @ ''/'' @ n = rel_path (ns @ [n])" using False by (simp add: rel_path_def join_with_snoc)
  ultimately show ?thesis
    using clean_rel_path [of "ns @ [n]"] assms plain_parts [of n] by (simp add: path_join_def)
qed

lemma path_key_rel:
  assumes "list_all plain_name ns"
  shows "path_key (path_join [p, rel_path ns]) = path_key p @ ns"
proof (cases "ns = []")
  case True
  then show ?thesis by (simp add: rel_path_def path_join_def)
next
  case False
  have parts: "filter (\<lambda>p. p \<noteq> []) ns = ns" "\<And>n. n \<in> set ns \<Longrightarrow> name_part n"
    using assms plain_parts by (auto simp: list_all_iff filter_True)
  have "rel_path ns \<noteq> []"
    using assms False plain_parts [of "hd ns"] by (cases ns; cases "tl ns") (simp_all add: rel_path_def)
  moreover have "p @ ''/'' @ rel_path ns = join_with ''/'' (p # ns)" using False by (simp add: rel_path_def join_with_Cons)
  ultimately have "path_join [p, rel_path ns] = path_join (p # ns)"
    using False parts(1) by (cases "p = []") (simp_all add: path_join_def rel_path_def split: list.split)
  with path_key_join [of ns p] parts show ?thesis by simp
qed

text \<open>What the comparison asks of the two nodes below one relative path. A name that is skipped hides what is below it.\<close>

definition shown :: "string list \<Rightarrow> bool" where
  "shown ks = list_all (\<lambda>n. n \<noteq> ''.gitkeep'' \<and> n \<noteq> ''.git'') ks"

fun nodes_match :: "readers \<Rightarrow> string \<Rightarrow> string \<Rightarrow> node option \<Rightarrow> node option \<Rightarrow> bool" where
  "nodes_match R f g None None = True"
| "nodes_match R f g (Some Dir) (Some Dir) = True"
| "nodes_match R f g (Some (File t)) (Some (File u)) =
     (case newReadCloser R f t of Inl err \<Rightarrow> False | Inr x \<Rightarrow> newReadCloser R g u = Inr x)"
| "nodes_match R f g a b = False"

definition match_at :: "readers \<Rightarrow> os \<Rightarrow> string \<Rightarrow> string \<Rightarrow> string list \<Rightarrow> bool" where
  "match_at R s expected actual ks =
     nodes_match R (path_join [expected, rel_path ks]) (path_join [actual, rel_path ks])
       (os_node s (path_key expected @ ks)) (os_node s (path_key actual @ ks))"

text \<open>The names of the files, or of the directories, in a directory.\<close>

lemma dir_entries_sorted: "sorted (map fst (dir_entries s S))"
  by (simp add: dir_entries_def comp_def)

definition names_in :: "os \<Rightarrow> bool \<Rightarrow> string list \<Rightarrow> string list" where
  "names_in s b S = map fst (filter (\<lambda>f. \<not> skipFile f \<and> b = isFile f) (dir_entries s S))"

lemma names_in_sorted: "sorted (names_in s b S)" "distinct (names_in s b S)"
  using dir_entries_sorted [of s S] dir_entries_distinct [of s S]
  by (simp_all add: names_in_def sorted_filter distinct_map_filter)

lemma names_in_mem:
  assumes "S \<noteq> []"
  shows "m \<in> set (names_in s b S) \<longleftrightarrow> shown [m] \<and> os_node s (S @ [m]) \<noteq> None \<and> b = (os_node s (S @ [m]) \<noteq> Some Dir)"
proof -
  have "m \<in> set (names_in s b S) \<longleftrightarrow> (\<exists>d. (m, d) \<in> set (dir_entries s S) \<and> \<not> skipFile (m, d) \<and> b = isFile (m, d))"
    by (force simp: names_in_def)
  then show ?thesis unfolding dir_entries_mem [OF assms] by (auto simp: skipFile_def isFile_def shown_def)
qed

lemma names_in_eq: "names_in s b S = names_in s b T \<longleftrightarrow> set (names_in s b S) = set (names_in s b T)"
  using names_in_sorted [of s b S] names_in_sorted [of s b T] by (metis sorted_distinct_set_unique)

lemma assertNames_ok:
  assumes "sound s" and "list_all plain_name r" and "os_node s (path_key e @ r) = Some Dir" and "os_node s (path_key a @ r) = Some Dir"
  shows "assertNamesAreTheSame s b e a (rel_path r) =
    (if names_in s b (path_key e @ r) = names_in s b (path_key a @ r) then Some (names_in s b (path_key a @ r)) else None)"
proof -
  have "requireCollectNameMap s b p (rel_path r) = Some (names_in s b (path_key p @ r))"
    if "os_node s (path_key p @ r) = Some Dir" for p
    using open_read_dir_ok(2) [OF assms(1), of "path_join [p, rel_path r]"] that path_key_rel [OF assms(2)]
    by (simp add: requireCollectNameMap_def collectNameMap_def names_in_def)
  with assms(3,4) show ?thesis by (simp add: assertNamesAreTheSame_def)
qed

lemma all_dirs_known:
  "(\<And>d. d \<in> set ds \<Longrightarrow> f d = Some (P d)) \<Longrightarrow> all_dirs f ds = Some (\<forall>d \<in> set ds. P d)"
  by (induction ds) (auto split: bool.split)

lemma names_agree:
  assumes "path_key e @ r \<noteq> []" and "path_key a @ r \<noteq> []" and "shown [m]" and "match_at R s e a (r @ [m])"
  shows "m \<in> set (names_in s b (path_key e @ r)) \<longleftrightarrow> m \<in> set (names_in s b (path_key a @ r))"
  using assms(3,4) unfolding names_in_mem [OF assms(1)] names_in_mem [OF assms(2)] match_at_def
  by (cases "os_node s (path_key e @ r @ [m])" rule: option.exhaust [case_product node.exhaust])
    (auto elim!: nodes_match.elims split: sum.splits)

lemma content_match:
  assumes "sound s" and "list_all plain_name r" and "plain_name m"
    and "os_node s (path_key e @ r @ [m]) = Some (File t)" and "os_node s (path_key a @ r @ [m]) = Some (File u)"
  shows "assertFileContentIsTheSame R s e a (path_join [rel_path r, m]) = match_at R s e a (r @ [m])"
proof -
  have pl: "list_all plain_name (r @ [m])" using assms(2,3) by simp
  have "readAll R s (path_join [p, rel_path (r @ [m])])
      = (case newReadCloser R (path_join [p, rel_path (r @ [m])]) v of Inl err \<Rightarrow> None | Inr x \<Rightarrow> Some x)"
    if "os_node s (path_key p @ r @ [m]) = Some (File v)" for p v
    using os_read_all_ok [of s "path_join [p, rel_path (r @ [m])]" v] assms(1) that path_key_rel [OF pl, of p]
    by (simp add: readAll_def sound_def)
  from this [OF assms(4)] this [OF assms(5)] show ?thesis
    unfolding rel_path_snoc [OF assms(2,3)]
    by (auto simp: assertFileContentIsTheSame_def requireReadAll_def match_at_def assms(4,5) split: sum.splits)
qed

lemma doAssertDirEqual_iff:
  assumes "sound s" and "path_key e \<noteq> []" and "path_key a \<noteq> []" and "\<And>xs. mset (order xs) = mset xs"
    and "list_all plain_name r" and "os_node s (path_key e @ r) = Some Dir" and "os_node s (path_key a @ r) = Some Dir"
    and "\<And>ks. os_node s (path_key e @ r @ ks) \<noteq> None \<Longrightarrow> list_all plain_name ks \<and> length ks < n"
  shows "doAssertDirEqual n R order s e a (rel_path r) = Some (\<forall>ks. shown ks \<longrightarrow> match_at R s e a (r @ ks))"
  using assms(5-8)
proof (induction n arbitrary: r)
  case 0
  then show ?case using 0(4) [of "[]"] by simp
next
  case (Suc n)
  let ?E = "path_key e @ r" and ?A = "path_key a @ r"
  have ne: "?E \<noteq> []" "?A \<noteq> []" using assms(2,3) by simp_all
  note mem = names_in_mem [OF ne(1)] names_in_mem [OF ne(2)]
  note agree = names_agree [OF ne]
  have perm: "set (order xs) = set xs" for xs using assms(4) [of xs] by (metis set_mset_mset)
  have names: "assertNamesAreTheSame s b e a (rel_path r) = (if names_in s b ?E = names_in s b ?A then Some (names_in s b ?A) else None)" for b
    by (rule assertNames_ok [OF assms(1) Suc.prems(1-3)])
  show ?case
  proof (cases "\<forall>b. names_in s b ?E = names_in s b ?A")
    case False
    then obtain b m where "(m \<in> set (names_in s b ?E)) \<noteq> (m \<in> set (names_in s b ?A))" unfolding names_in_eq by blast
    moreover from this have "shown [m]" unfolding mem by auto
    ultimately have "\<not> (\<forall>ks. shown ks \<longrightarrow> match_at R s e a (r @ ks))" using agree by blast
    moreover have "names_in s True ?E \<noteq> names_in s True ?A \<or> names_in s False ?E \<noteq> names_in s False ?A"
      using False by (metis (full_types))
    ultimately show ?thesis by (auto simp: names)
  next
    case True
    then have eq: "names_in s b ?E = names_in s b ?A" for b by blast
    have plain: "plain_name m" if "m \<in> set (names_in s b ?A)" for m b
      using that Suc.prems(4) [of "[m]"] unfolding eq [symmetric] mem by simp
    have content: "assertFileContentIsTheSame R s e a (path_join [rel_path r, m]) = match_at R s e a (r @ [m])"
      if "m \<in> set (names_in s True ?A)" for m
    proof -
      have "m \<in> set (names_in s True ?E)" using that eq by simp
      with that obtain t u where "os_node s (path_key e @ r @ [m]) = Some (File t)" "os_node s (path_key a @ r @ [m]) = Some (File u)"
        unfolding mem by (metis append_assoc node.exhaust option.exhaust)
      with content_match [OF assms(1) Suc.prems(1) plain [OF that]] show ?thesis by blast
    qed
    have dir: "doAssertDirEqual n R order s e a (path_join [rel_path r, m]) = Some (\<forall>ks. shown ks \<longrightarrow> match_at R s e a (r @ m # ks))"
      if "m \<in> set (names_in s False ?A)" for m
    proof -
      have "m \<in> set (names_in s False ?E)" using that eq by simp
      with that have "os_node s (path_key e @ r @ [m]) = Some Dir" "os_node s (path_key a @ r @ [m]) = Some Dir"
        unfolding mem by simp_all
      moreover have "list_all plain_name ks \<and> length ks < n" if "os_node s (path_key e @ (r @ [m]) @ ks) \<noteq> None" for ks
        using Suc.prems(4) [of "m # ks"] that by simp
      ultimately show ?thesis
        using Suc.IH [of "r @ [m]"] Suc.prems(1) plain [OF that] by (simp add: rel_path_snoc)
    qed
    have split: "(\<forall>ks. shown ks \<longrightarrow> match_at R s e a (r @ ks)) \<longleftrightarrow>
        (\<forall>m \<in> set (names_in s True ?A). match_at R s e a (r @ [m]))
      \<and> (\<forall>m \<in> set (names_in s False ?A). \<forall>ks. shown ks \<longrightarrow> match_at R s e a (r @ m # ks))" (is "?all \<longleftrightarrow> ?parts")
    proof
      assume ?all
      moreover have "shown [m]" if "m \<in> set (names_in s b ?A)" for m b using that unfolding mem by blast
      moreover have "shown (m # ks)" if "shown [m]" "shown ks" for m ks using that by (simp add: shown_def)
      ultimately show ?parts by blast
    next
      assume p: ?parts
      show ?all
      proof (intro allI impI)
        fix ks assume sh: "shown ks"
        show "match_at R s e a (r @ ks)"
        proof (cases ks)
          case Nil
          with Suc.prems(2,3) show ?thesis by (simp add: match_at_def)
        next
          case (Cons m ks')
          with sh have m: "shown [m]" "shown ks'" by (simp_all add: shown_def)
          show ?thesis
          proof (cases "m \<in> set (names_in s False ?A)")
            case True
            with p m(2) Cons show ?thesis by blast
          next
            case nodir: False
            then have "os_node s (?E @ [m]) \<noteq> Some Dir" "os_node s (?A @ [m]) \<noteq> Some Dir"
              using m(1) eq [of False] mem(1) [of m s False] mem(2) [of m s False] by auto
            note none = missing_below [OF conjunct2 [OF assms(1) [unfolded sound_def]] this(1)]
              missing_below [OF conjunct2 [OF assms(1) [unfolded sound_def]] this(2)]
            show ?thesis
            proof (cases "ks' = [] \<and> m \<in> set (names_in s True ?A)")
              case True
              with p Cons show ?thesis by blast
            next
              case False
              have "os_node s (?E @ [m]) = None \<and> os_node s (?A @ [m]) = None" if "m \<notin> set (names_in s True ?A)"
                using that nodir m(1) eq [of False] eq [of True] mem(1) [of m s True] mem(2) [of m s True]
                  mem(1) [of m s False] mem(2) [of m s False] by auto
              with False none [of ks'] have "os_node s (?E @ m # ks') = None \<and> os_node s (?A @ m # ks') = None"
                by (cases "ks' = []") simp_all
              then show ?thesis by (simp add: match_at_def Cons)
            qed
          qed
        qed
      qed
    qed
    have "list_all (\<lambda>m. assertFileContentIsTheSame R s e a (path_join [rel_path r, m])) (order (names_in s True ?A))
        \<longleftrightarrow> (\<forall>m \<in> set (names_in s True ?A). match_at R s e a (r @ [m]))"
      using content by (simp add: list_all_iff perm)
    moreover have "all_dirs (\<lambda>m. doAssertDirEqual n R order s e a (path_join [rel_path r, m])) (order (names_in s False ?A))
        = Some (\<forall>m \<in> set (names_in s False ?A). \<forall>ks. shown ks \<longrightarrow> match_at R s e a (r @ m # ks))"
      using all_dirs_known [of "order (names_in s False ?A)"] dir perm by simp
    ultimately show ?thesis unfolding split by (simp add: names eq)
  qed
qed

text \<open>
  Two directories pass the comparison exactly when below each relative path without the skipped names they
  have the same: nothing, directories, or files whose contents, decompressed, are equal.
\<close>

lemma AssertDirEqual_iff:
  assumes "no_faults s" and "tree_wf s" and "\<And>xs. mset (order xs) = mset xs"
    and "path_key expected \<noteq> []" and "os_node s (path_key expected) = Some Dir"
    and "path_key actual \<noteq> []" and "os_node s (path_key actual) = Some Dir"
    and "\<And>ks. os_node s (path_key expected @ ks) \<noteq> None \<Longrightarrow> list_all plain_name ks \<and> length ks < n"
  shows "AssertDirEqual n R order s expected actual = Some (\<forall>ks. shown ks \<longrightarrow> match_at R s expected actual ks)"
  using doAssertDirEqual_iff [of s expected actual order "[]" n R] assms by (simp add: AssertDirEqual_def sound_def rel_path_def)

text \<open>
  A copy passes the comparison with its original, if every file can be read: the two helpers agree. The
  file names decide how the files are read, so they have to be the same on both sides.
\<close>

theorem copy_passes_comparison:
  assumes "can_copy n (path_key source) (path_key dest) s" and "\<And>xs. mset (order xs) = mset xs" and "\<And>xs. mset (order' xs) = mset xs"
    and "\<And>ks t. os_node s (path_key source @ ks) = Some (File t) \<Longrightarrow>
      \<exists>x. newReadCloser R (path_join [source, rel_path ks]) t = Inr x \<and> newReadCloser R (path_join [dest, rel_path ks]) t = Inr x"
  shows "\<exists>s'. CopyDir n order source dest s = Some (None, s') \<and> AssertDirEqual n R order' s' source dest = Some True"
proof -
  let ?S = "path_key source" and ?D = "path_key dest"
  note c = can_copyD [OF assms(1)]
  obtain s' where s': "CopyDir n order source dest s = Some (None, s')" "sound s'" "os_node s' = copied ?S ?D (os_node s)"
    using copies_all [OF assms(2), of n] assms(1) unfolding copies_def by blast
  have src: "os_node s' (?S @ ks) = os_node s (?S @ ks)" for ks
    using apart_below [OF c(3)] by (simp add: s'(3) copied_simps)
  have dst: "os_node s' (?D @ ks) = os_node s (?S @ ks)" for ks by (simp add: s'(3) copied_simps)
  have "match_at R s' source dest ks" for ks
  proof (cases "os_node s (?S @ ks)")
    case (Some nd)
    then show ?thesis using assms(4) [of ks] by (cases nd) (auto simp: match_at_def src dst)
  qed (simp add: match_at_def src dst)
  moreover have "AssertDirEqual n R order' s' source dest = Some (\<forall>ks. shown ks \<longrightarrow> match_at R s' source dest ks)"
  proof (rule AssertDirEqual_iff [OF _ _ assms(3)])
    show "no_faults s'" "tree_wf s'" using s'(2) by (simp_all add: sound_def)
    show "?S \<noteq> []" "?D \<noteq> []" using apart_nonempty [OF c(3)] by simp_all
    show "os_node s' ?S = Some Dir" "os_node s' ?D = Some Dir" using src [of "[]"] dst [of "[]"] c(2) by simp_all
    show "os_node s' (?S @ ks) \<noteq> None \<Longrightarrow> list_all plain_name ks \<and> length ks < n" for ks using c(5) by (simp add: src)
  qed
  ultimately show ?thesis using s'(1) by simp
qed

definition sample_source :: os where
  "sample_source = \<lparr>tree = [([''a''], Dir), ([''a'', ''d''], Dir), ([''a'', ''d'', ''f''], File ''x'')], io_fault = (\<lambda>call k. None)\<rparr>"

lemma sample_source_copy: "can_copy 3 (path_key ''a'') (path_key ''b'') sample_source"
proof -
  have keys: "path_key ''a'' = [''a'']" "path_key ''b'' = [''b'']" by code_simp+
  have wf: "tree_wf sample_source" by code_simp
  have "os_node sample_source k = (if root_key k then Some Dir else map_of (tree sample_source) k)" for k by (simp add: os_node_def)
  with wf show ?thesis
    unfolding keys can_copy_def sound_def
    by (auto simp: sample_source_def no_faults_def apart_def below_def root_key_def plain_name_def split: if_splits)
qed

lemma copy_passes_comparison_witness:
  "\<exists>s'. CopyDir 3 rev ''a'' ''b'' sample_source = Some (None, s')
    \<and> AssertDirEqual 3 (Inr, Inr) rev s' ''a'' ''b'' = Some True"
proof (rule copy_passes_comparison [OF sample_source_copy])
  show "\<exists>x. newReadCloser (Inr, Inr) (path_join [''a'', rel_path ks]) t = Inr x
      \<and> newReadCloser (Inr, Inr) (path_join [''b'', rel_path ks]) t = Inr x" for ks t
    by (simp add: newReadCloser_def)
qed simp_all

end
