(* ===== verification/Tools.thy ===== *)
theory Tools
  imports Program
begin

text \<open>
  Two tools beside the program: the check of a Let's Encrypt deployment (\<open>cmd/testletsencrypt/main.go\<close>) and the
  access of the integration tests to ClickHouse (\<open>it/integration\_dao.go\<close>). The http client, the driver and the
  environment are arguments.
\<close>

section \<open>cmd/testletsencrypt/main.go\<close>

definition osGetenvRequired :: "(string \<Rightarrow> string) \<Rightarrow> string \<Rightarrow> string stage" where
  "osGetenvRequired getenv name = (let value = getenv name in if value = [] then Exit 1 else Proceed value)"

definition domain :: "(string \<Rightarrow> string) \<Rightarrow> string stage" where
  "domain getenv = osGetenvRequired getenv ''DOMAIN''"

definition domainIP :: "(string \<Rightarrow> string) \<Rightarrow> string stage" where
  "domainIP getenv = osGetenvRequired getenv ''DOMAIN_IP''"

text \<open>The file has to exist. As in the backup, closing it races with the write.\<close>

definition append_to_existing :: "bool \<Rightarrow> string \<Rightarrow> string \<Rightarrow> os \<Rightarrow> os_err option \<times> os" where
  "append_to_existing closed filename lines s =
     (case resolve s CallOpen (path_key filename) of
        Inl err \<Rightarrow> (Some err, s)
      | Inr Dir \<Rightarrow> (Some (OsError ''is a directory''), s)
      | Inr (File t) \<Rightarrow>
          if closed then (Some (OsError ''file already closed''), s) else os_write s filename lines)"

definition prepareDomainIP :: "(string \<Rightarrow> string) \<Rightarrow> bool \<Rightarrow> os \<Rightarrow> unit stage \<times> os" where
  "prepareDomainIP getenv closed s =
     (case domainIP getenv of
        Exit c \<Rightarrow> (Exit c, s)
      | Proceed ip \<Rightarrow>
          (case domain getenv of
             Exit c \<Rightarrow> (Exit c, s)
           | Proceed d \<Rightarrow>
               (case append_to_existing closed ''/etc/hosts'' (ip @ '' '' @ d @ [newline]) s of
                  (Some err, s) \<Rightarrow> (Exit 1, s)
                | (None, s) \<Rightarrow> (Proceed (), s))))"

text \<open>The loop over at most \<open>n\<close> tries; an error is logged and the next try made.\<close>

fun health_loop :: "(string \<Rightarrow> 'n \<Rightarrow> (go_error + nat) \<times> 'n) \<Rightarrow> string \<Rightarrow> nat \<Rightarrow> 'n \<Rightarrow> bool \<times> 'n" where
  "health_loop client urlAddress 0 st = (False, st)"
| "health_loop client urlAddress (Suc n) st =
     (case client urlAddress st of
        (Inl err, st) \<Rightarrow> health_loop client urlAddress n st
      | (Inr status, st) \<Rightarrow> if status = 200 then (True, st) else health_loop client urlAddress n st)"

definition letsencrypt_main :: "(string \<Rightarrow> 'n \<Rightarrow> (go_error + nat) \<times> 'n) \<Rightarrow> (string \<Rightarrow> string) \<Rightarrow> bool \<Rightarrow> os \<Rightarrow> 'n
    \<Rightarrow> nat \<times> os \<times> 'n" where
  "letsencrypt_main client getenv closed s st =
     (case prepareDomainIP getenv closed s of
        (Exit c, s) \<Rightarrow> (c, s, st)
      | (Proceed _, s) \<Rightarrow>
          (case domain getenv of
             Exit c \<Rightarrow> (c, s, st)
           | Proceed d \<Rightarrow>
               (case health_loop client (''https://'' @ d @ ''/health'') 3 st of
                  (found, st) \<Rightarrow> (if \<not> found then 1 else 0, s, st))))"

section \<open>it/integration\_dao.go\<close>

definition base_table_name :: string where "base_table_name = ''webperf_rum_events''"

definition full_table_name :: "string \<Rightarrow> string \<Rightarrow> string" where
  "full_table_name prefix name = prefix @ name"

text \<open>The error of the statement is logged.\<close>

definition recycle_tables :: "(string \<Rightarrow> 'w \<Rightarrow> go_error option \<times> 'w) \<Rightarrow> string \<Rightarrow> 'w \<Rightarrow> 'w" where
  "recycle_tables exec prefix w = snd (exec (''TRUNCATE TABLE '' @ full_table_name prefix base_table_name) w)"

text \<open>Without a row the count is zero, an error that ended the rows or not; \<open>int(result)\<close> is signed.\<close>

definition count_records :: "(string \<Rightarrow> 'w \<Rightarrow> (go_error + sql_rows) \<times> 'w) \<Rightarrow> (sql_row \<Rightarrow> go_error + 64 word)
    \<Rightarrow> string \<Rightarrow> string \<Rightarrow> ('w, int) call" where
  "count_records query scan prefix criteria w =
     (let q = ''SELECT count(*) FROM '' @ full_table_name prefix base_table_name @ '' '' @ criteria
      in case query q w of
           (Inl err, w) \<Rightarrow> Panic err
         | (Inr (rows, err), w) \<Rightarrow>
             (case rows of
                [] \<Rightarrow> Value (0, w)
              | row # _ \<Rightarrow>
                  (case scan row of
                     Inl err \<Rightarrow> Panic err
                   | Inr result \<Rightarrow> Value (sint result, w))))"

lemmas tools_defs [go_defs] = osGetenvRequired_def domain_def domainIP_def append_to_existing_def prepareDomainIP_def
  letsencrypt_main_def base_table_name_def full_table_name_def recycle_tables_def count_records_def

section \<open>When the check succeeds\<close>

text \<open>The answer to the try after \<open>i\<close> others.\<close>

definition answer_after :: "('n \<Rightarrow> (go_error + nat) \<times> 'n) \<Rightarrow> 'n \<Rightarrow> nat \<Rightarrow> go_error + nat" where
  "answer_after ask st i = fst (ask (((snd \<circ> ask) ^^ i) st))"

lemma answer_after_Suc: "answer_after ask st (Suc i) = answer_after ask (snd (ask st)) i"
  by (simp add: answer_after_def funpow_swap1)

lemma health_loop_iff:
  "health_loop client url n st = (found, st') \<Longrightarrow> found \<longleftrightarrow> (\<exists>i < n. answer_after (client url) st i = Inr 200)"
proof (induction client url n st rule: health_loop.induct)
  case (2 client url n st)
  obtain a st1 where a: "client url st = (a, st1)" by fastforce
  have first: "answer_after (client url) st 0 = a" by (simp add: answer_after_def a)
  have rest: "(\<exists>i < Suc n. answer_after (client url) st i = Inr 200) \<longleftrightarrow>
      a = Inr 200 \<or> (\<exists>i < n. answer_after (client url) st1 i = Inr 200)"
    using first a by (auto simp: less_Suc_eq_0_disj answer_after_Suc)
  show ?case unfolding rest using 2 a by (cases a) (auto split: if_splits)
qed simp

text \<open>
  The check succeeds exactly when both variables are set, the address of the domain could be added to the
  hosts file, and one of the first three answers of the server has status 200.
\<close>

lemma letsencrypt_succeeds_iff:
  assumes "letsencrypt_main client getenv closed s st = (code, s', st')"
  shows "code = 0 \<longleftrightarrow> getenv ''DOMAIN'' \<noteq> [] \<and> getenv ''DOMAIN_IP'' \<noteq> []
    \<and> fst (append_to_existing closed ''/etc/hosts'' (getenv ''DOMAIN_IP'' @ '' '' @ getenv ''DOMAIN'' @ [newline]) s) = None
    \<and> (\<exists>i < 3. answer_after (client (''https://'' @ getenv ''DOMAIN'' @ ''/health'')) st i = Inr 200)"
proof -
  let ?hosts = "append_to_existing closed ''/etc/hosts'' (getenv ''DOMAIN_IP'' @ '' '' @ getenv ''DOMAIN'' @ [newline]) s"
  let ?loop = "health_loop client (''https://'' @ getenv ''DOMAIN'' @ ''/health'') 3 st"
  obtain found st1 where f: "?loop = (found, st1)" by fastforce
  obtain err s1 where h: "?hosts = (err, s1)" by fastforce
  then have e: "fst ?hosts = err" by (simp only: fst_conv)
  note main = assms [unfolded letsencrypt_main_def prepareDomainIP_def domain_def domainIP_def osGetenvRequired_def Let_def]
  show ?thesis
  proof (cases "getenv ''DOMAIN'' \<noteq> [] \<and> getenv ''DOMAIN_IP'' \<noteq> [] \<and> err = None")
    case True
    then have "code = (if \<not> found then 1 else 0)" using main h f by simp
    then have "code = 0 \<longleftrightarrow> found" by simp
    with True health_loop_iff [OF f] show ?thesis unfolding e by blast
  next
    case False
    then have "code = 1" using main h by (auto split: if_splits option.splits)
    then have "code \<noteq> 0" by simp
    with False show ?thesis unfolding e by blast
  qed
qed

end
