(* ===== verification/Spec2Isabelle.thy ===== *)
theory Spec2Isabelle
  imports Decompress Program Server Owner_Hosts Migration Beacon_Sender Test_Files Tools
begin

text \<open>
  A verification development for \<open>front_basicrum_go\<close>, the server that collects the performance beacons
  web pages send, stores them in a database and archives them in files.

  The program. A web page posts a beacon to \<open>/beacon/catcher\<close> (\<open>server/handlers.go\<close>). The handler makes an
  \<open>Event\<close> of the request (\<open>types/event.go\<close>), answers 204, hands the event to the archive
  (\<open>backup/service.go\<close>) and to the event processing (\<open>service/service.go\<close>). The processing converts it to a
  \<open>RumEvent\<close> (\<open>service/rum\_event\_factory.go\<close>, \<open>beacon/\<close>, \<open>geoip/\<close>), asks the subscription service
  (\<open>service/subscription/\<close>) whether its host is subscribed, and stores it through the adapter that the
  registry (\<open>store/store.go\<close>) has chosen, or puts it in the backup of expired or of unknown events. A
  backup batches its requests and appends them, as one JSON record a line, to one file per host and hour; an
  archiver (\<open>backup/archive.go\<close>) joins the hours of a day into one compressed file. Owners add and delete
  host names at \<open>/private/hostnames\<close>. \<open>main.go\<close> reads the configuration, opens the database, builds the
  servers (\<open>server/factory.go\<close>), and on a signal shuts them down and flushes the backups.

  Theories, in the order of their imports.
  \<^item> \<open>Prelude\<close>: results and panics of Go code, the fact collections, lemmas on lists and association lists.
  \<^item> \<open>Go_Strings\<close>, \<open>Go_Time\<close>, \<open>Go_Url\<close>, \<open>Go_Json\<close>, \<open>Go_Path\<close>, \<open>Go_Os\<close>: what the program uses of Go's
    \<open>strings\<close>, \<open>strconv\<close>, \<open>time\<close>, \<open>net/url\<close>, \<open>net/http\<close>, \<open>encoding/json\<close>, \<open>path/filepath\<close> and \<open>os\<close>. A string is
    its bytes; an instant is an \<open>int\<close> of nanoseconds; the file tree is a map from positions to nodes with an
    arbitrary table of refused calls. A Go map is an association list, and the order in which it is ranged
    over is an argument wherever the result can depend on it.
  \<^item> \<open>Types\<close> (\<open>types/\<close>): events, subscriptions, owners.
  \<^item> \<open>Geoip\<close> (\<open>geoip/\<close>), \<open>Beacon\<close>, \<open>Rum_Event\<close>, \<open>Decompress\<close> (\<open>beacon/\<close>, \<open>service/rum\_event\_factory.go\<close>).
  \<^item> \<open>Compression\<close>, \<open>Backup_Files\<close>, \<open>Archive\<close>, \<open>Backup_Service\<close> (\<open>backup/\<close>): the compressors and file names,
    grouping and appending, the archiver, and the three queues with their steps.
  \<^item> \<open>Subscriptions\<close> and \<open>Processing\<close> (\<open>service/\<close>): the caching and the disabled service; \<open>Run\<close> as a step
    relation over the events that wait at its channel.
  \<^item> \<open>Go_Json_Scan\<close> and \<open>Go_Json_Phase\<close>: the scanner of \<open>encoding/json\<close> as the automaton it is, the decoder that fills
    a struct of strings and booleans with it, and that the two agree; used by
  \<^item> \<open>Server\<close> (\<open>server/handlers.go\<close>, \<open>router.go\<close>) and \<open>Server_Setup\<close> (\<open>server.go\<close>, \<open>factory.go\<close>).
  \<^item> \<open>Dao\<close> (\<open>dao/adapter.go\<close>, \<open>factory.go\<close>), \<open>Store\<close> (\<open>store/store.go\<close>), \<open>Sql\<close>, and an adapter each in
    \<open>Mysql\<close>, \<open>Clickhouse\<close>, \<open>Redis\<close>, \<open>Rethinkdb\<close>; \<open>Adapters\<close> dispatches a call to the adapter of the object
    and registers them as the \<open>init\<close> functions do. \<open>Migration\<close> is \<open>dao/migration\_dao.go\<close>.
  \<^item> \<open>Go_Json_Read\<close> and \<open>Go_Form\<close> (reading JSON, forms on the wire), used by \<open>Beacon_Sender\<close> (\<open>it/\<close>), which posts
    archived beacons again; \<open>Test_Files\<close> (\<open>testhelper/\<close>), which copies and compares directories; \<open>Tools\<close>
    (\<open>cmd/testletsencrypt\<close>, \<open>it/integration\_dao.go\<close>).
  \<^item> \<open>Program\<close> (\<open>main.go\<close>); \<open>Owner_Hosts\<close>, which follows a host name from its registration to its deletion, and this
    theory, which follows one beacon through the components.

  How code is translated. A struct is a record, or a prefix of its name and the field; a call that can
  panic returns a \<open>run\<close>; \<open>(T, error)\<close> is a sum where only one of the two is used and a pair with an optional
  error otherwise; an error is its message. A method on a shared object is a \<open>call\<close>, from the state to a
  result and the new state. Integers have the width of the code where arithmetic on them can wrap: 64-bit words in
  \<open>Decompress\<close>, in the differences of \<open>Rum_Event\<close> and in the timeouts of the drivers, 16 bits for a port, 32 for
  the interval of a batch. Every loop of the program is a terminating function, by structure or by a measure (the bytes left to
  read, the copies left to make, the text left to replace). Only \<open>CopyDir\<close> and \<open>doAssertDirEqual\<close> of \<open>Test_Files\<close>
  take fuel, since a directory copied into itself is copied for ever; a bound on the depth of the tree is
  enough. The interleaving of goroutines is that of the step relations
  \<open>backup_step\<close> and \<open>run_step\<close>, and the race of a file's \<open>Close\<close> with the write before it is the argument \<open>closed\<close>.

  What the lemmas show.
  \<^item> Storage: what is queued reaches its hour file once and in order (\<open>backup_do_appends\<close>,
    \<open>backup_runs_accounted\<close>), nowhere else (\<open>backup_do_stays_inside\<close>), also at shutdown; the archiver keeps
    every line of a day and its summary points at the right lines.
  \<^item> Processing: no event is lost or doubled, and none need wait for ever (\<open>service_conserves_events\<close>,
    \<open>service_drains\<close>); the cache answers what the database would, and when it does not.
  \<^item> Replay: the lines of an hour file are read back to the requests they came from; a record with saved
    headers reaches the catcher unchanged, and one the program archived cannot be sent at all.
  \<^item> Adapters: at most one database is open; transactions end; what each of the four does differently from the
    common contract.
  \<^item> Server and main: who reaches the database through \<open>/private/hostnames\<close>, which bodies register a host and which
    panic; that a registered host is found until it expires or is deleted; that a GET is answered with well-formed JSON; which
    configurations give which listening servers; serving only with an open database, and the path on which that fails.

  Interfaces are locales: \<open>geoip_service\<close> (Cloudflare, MaxMind, and the composite by \<open>sublocale\<close>),
  \<open>filename_contract\<close> (the compression factories), \<open>backup_contract\<close> (the three backups),
  \<open>subscription_service\<close> (both services) and \<open>db_adapter\<close> (each of the four adapters and their
  dispatch). Each is interpreted on the model's own definitions, in the theory that provides them.

  Arguments of the model: the database drivers and their errors, the MaxMind reader, \<open>base36\<close>, the user agent
  parser, the compressors by level, the batcher (kept as the queue of requests it has not handed out), the migrator, UUIDs, the
  clock, the JSON decoders of the configurations other than the servers', and the shutdown of an http server. What a theorem
  needs of them is among its assumptions, and its witness supplies functions that satisfy it.

  Not modelled: logging and log texts; the delivery of signals; listening, TLS handshakes and ACME
  (\<open>net/http\<close>, \<open>autocert\<close>); the cron table, which the program fills and never starts; the time a batch waits;
  cancellation of contexts; code that is commented out; generated mocks, the embedded data, and tests.
\<close>

section \<open>A beacon from the request to the database and the archive\<close>

lemma host_lines_snoc:
  "host_lines (q @ [p]) h = host_lines q h @ (if param_host p = Some h then param_record p else [])"
  by (simp add: host_lines_def of_host_def)

lemma archived_host:
  assumes "create_rum_event geo e = Value rum"
  shows "make_key_hostname (for_archiving e) = Value (replace_char CHR ''.'' CHR ''_'' (re_Hostname rum))"
  using assms
  by (auto simp: create_rum_event_def convert_to_rum_event_def from_event_def make_key_hostname_def values_get_archived Let_def
      split: sum.splits prod.splits)

lemma process_found:
  assumes "create_rum_event geo sent = Value rum" and "reliable_store A disabled_get log"
    and "process_event (create_rum_event geo) A disabled_get t (Some sent) s = Value s'"
  shows "log (sv_db s') = log (sv_db s) @ [rum] \<and> sv_backup s' = sv_backup s"
proof -
  from assms(1,3) obtain err d where "ad_Save A rum (sv_db s) = Value (err, d)" "sv_db s' = d" "sv_backup s' = sv_backup s"
    by (auto simp: process_event_def disabled_get_def disabled_get_subscription_def process_rum_event_def run_bind_Value_iff)
  with reliable_storeD(1) [OF assms(2)] show ?thesis by blast
qed


definition sample_post :: request where
  "sample_post = \<lparr>rq_Method = ''POST'', rq_Form = (None, [(''u'', [''//a.b''])]), rq_Header = [], rq_RemoteAddr = [], rq_Body = []\<rparr>"

lemma sample_post_event:
  "\<exists>e rum. new_event_from_request 0 sample_post = Inr e \<and> create_rum_event None e = Value rum \<and> re_Hostname rum = ''a.b''"
proof -
  have "case new_event_from_request 0 sample_post of
      Inl err \<Rightarrow> False | Inr e \<Rightarrow> url_parse (values_get (RequestParameters e) ''u'') = Inr ''a.b''"
    by code_simp
  then obtain e where "new_event_from_request 0 sample_post = Inr e"
    "url_parse (values_get (RequestParameters e) ''u'') = Inr ''a.b''"
    by (auto split: sum.splits)
  moreover have "url_hostname ''a.b'' = ''a.b''" by code_simp
  ultimately show ?thesis
    by (simp add: create_rum_event_def convert_to_rum_event_def from_event_def Let_def)
qed


end
